(* ===== verification/Kapture_Prelude.thy ===== *)
theory Kapture_Prelude
  imports
    Main
    "HOL-Library.AList"
    "HOL-Library.Word"
    "HOL-Library.Multiset"
    "HOL-Library.Sublist"
    "HOL-Library.Char_ord"
    "HOL-Library.List_Lexorder"
    "HOL-Library.Signed_Division"
begin

text \<open>
  Shared vocabulary of the development: the fact collections, the machine integers of Go
  (\<^typ>\<open>int\<close> values kept at their width by an explicit wrap), Go maps as association lists with
  distinct keys, the string functions of the standard library that the sources call, decimal
  printing, and instants and durations.
\<close>

named_theorems go_simps \<open>evaluation rules for the Go vocabulary\<close>
named_theorems inv_intros \<open>preservation of component invariants\<close>
named_theorems frame_simps \<open>fields and keys that an operation leaves alone\<close>

section \<open>Machine integers\<close>

text \<open>
  A Go \<^verbatim>\<open>int32\<close> or \<^verbatim>\<open>int64\<close> is an \<^typ>\<open>int\<close> in range; arithmetic that may leave the range is
  wrapped in two's complement by \<open>i32\<close> and \<open>i64\<close>. The Go type \<^verbatim>\<open>int\<close> is 64 bits wide.
\<close>

definition i32 :: "int \<Rightarrow> int" where
  "i32 x = signed_take_bit 31 x"

definition i64 :: "int \<Rightarrow> int" where
  "i64 x = signed_take_bit 63 x"

definition in_i32 :: "int \<Rightarrow> bool" where
  "in_i32 x \<longleftrightarrow> - (2 ^ 31) \<le> x \<and> x < 2 ^ 31"

definition in_i64 :: "int \<Rightarrow> bool" where
  "in_i64 x \<longleftrightarrow> - (2 ^ 63) \<le> x \<and> x < 2 ^ 63"

lemma i32_id [go_simps]: "in_i32 x \<Longrightarrow> i32 x = x"
  by (simp add: i32_def in_i32_def signed_take_bit_int_eq_self_iff)

lemma i64_id [go_simps]: "in_i64 x \<Longrightarrow> i64 x = x"
  by (simp add: i64_def in_i64_def signed_take_bit_int_eq_self_iff)

lemma in_i32_i32 [simp]: "in_i32 (i32 x)"
  using signed_take_bit_int_greater_eq_minus_exp [of 31 x] signed_take_bit_int_less_exp [of 31 x]
  by (simp add: i32_def in_i32_def)

lemma in_i64_i64 [simp]: "in_i64 (i64 x)"
  using signed_take_bit_int_greater_eq_minus_exp [of 63 x] signed_take_bit_int_less_exp [of 63 x]
  by (simp add: i64_def in_i64_def)

lemma i32_add_left [simp]: "i32 (i32 x + y) = i32 (x + y)"
  unfolding i32_def by (metis signed_take_bit_add signed_take_bit_signed_take_bit min.idem)

lemma i64_add_left [simp]: "i64 (i64 x + y) = i64 (x + y)"
  unfolding i64_def by (metis signed_take_bit_add signed_take_bit_signed_take_bit min.idem)

text \<open>Summing a list with a wrapping accumulator wraps the mathematical sum once.\<close>

lemma foldl_i32_sum: "foldl (\<lambda>s x. i32 (s + f x)) (i32 a) xs = i32 (a + sum_list (map f xs))"
  by (induction xs arbitrary: a) (simp_all add: algebra_simps)

lemma foldl_i64_sum: "foldl (\<lambda>s x. i64 (s + f x)) (i64 a) xs = i64 (a + sum_list (map f xs))"
  by (induction xs arbitrary: a) (simp_all add: algebra_simps)

section \<open>Go maps\<close>

text \<open>
  A Go map is an association list with distinct keys. The order of the list stands for the order
  in which a \<^verbatim>\<open>range\<close> over the map visits it; Go leaves that order open, so a property of code that
  ranges over a map either holds for every list with distinct keys or is shown not to depend on
  the order.
\<close>

type_synonym ('k, 'v) gomap = "('k \<times> 'v) list"

definition gm_get :: "('k, 'v) gomap \<Rightarrow> 'k \<Rightarrow> 'v option" where
  "gm_get m k = map_of m k"

definition gm_put :: "'k \<Rightarrow> 'v \<Rightarrow> ('k, 'v) gomap \<Rightarrow> ('k, 'v) gomap" where
  "gm_put k v m = AList.update k v m"

definition gm_del :: "'k \<Rightarrow> ('k, 'v) gomap \<Rightarrow> ('k, 'v) gomap" where
  "gm_del k m = AList.delete k m"

definition gm_ok :: "('k, 'v) gomap \<Rightarrow> bool" where
  "gm_ok m \<longleftrightarrow> distinct (map fst m)"

text \<open>
  What code that stores into a map relies on, stated once: a lookup after a store, after a
  deletion, and the distinctness of keys under both. The lemmas of the locale are about loops
  that store one entry per element of a slice.
\<close>

locale map_laws =
  fixes get :: "'m \<Rightarrow> 'k \<Rightarrow> 'v option"
    and put :: "'k \<Rightarrow> 'v \<Rightarrow> 'm \<Rightarrow> 'm"
    and del :: "'k \<Rightarrow> 'm \<Rightarrow> 'm"
    and ok :: "'m \<Rightarrow> bool"
  assumes get_put: "get (put k v m) k' = (if k' = k then Some v else get m k')"
    and get_del: "ok m \<Longrightarrow> get (del k m) k' = (if k' = k then None else get m k')"
    and ok_put: "ok m \<Longrightarrow> ok (put k v m)"
    and ok_del: "ok m \<Longrightarrow> ok (del k m)"
begin

definition put_all :: "('a \<Rightarrow> 'k) \<Rightarrow> ('a \<Rightarrow> 'v) \<Rightarrow> 'a list \<Rightarrow> 'm \<Rightarrow> 'm" where
  "put_all key val xs m = fold (\<lambda>x. put (key x) (val x)) xs m"

lemma ok_put_all: "ok m \<Longrightarrow> ok (put_all key val xs m)"
  unfolding put_all_def by (induction xs arbitrary: m) (auto intro: ok_put)

lemma get_put_all_other:
  "k \<notin> key ` set xs \<Longrightarrow> get (put_all key val xs m) k = get m k"
  unfolding put_all_def by (induction xs arbitrary: m) (auto simp: get_put)

lemma get_put_all_last:
  "k \<notin> key ` set ys \<Longrightarrow> key x = k \<Longrightarrow>
    get (put_all key val (xs @ x # ys) m) k = Some (val x)"
  using get_put_all_other [of k key ys val]
  by (simp add: put_all_def get_put)

lemma get_put_all_in:
  assumes "k \<in> key ` set xs"
  obtains x where "x \<in> set xs" and "key x = k" and "get (put_all key val xs m) k = Some (val x)"
proof -
  have "\<exists>ys x zs. xs = ys @ x # zs \<and> key x = k \<and> (\<forall>z\<in>set zs. key z \<noteq> k)"
    using assms by (intro split_list_last_prop) auto
  then obtain ys x zs where xs: "xs = ys @ x # zs" "key x = k" "\<forall>z\<in>set zs. key z \<noteq> k"
    by blast
  then have "get (put_all key val xs m) k = Some (val x)"
    by (force intro!: get_put_all_last)
  with xs show thesis by (intro that [of x]) auto
qed

end

interpretation gm: map_laws gm_get gm_put gm_del gm_ok
proof unfold_locales
  fix k k' :: 'a and v :: 'b and m :: "('a, 'b) gomap"
  show "gm_get (gm_put k v m) k' = (if k' = k then Some v else gm_get m k')"
    by (simp add: gm_get_def gm_put_def update_conv)
  show "gm_ok m \<Longrightarrow> gm_get (gm_del k m) k' = (if k' = k then None else gm_get m k')"
    by (simp add: gm_get_def gm_del_def delete_conv)
  show "gm_ok m \<Longrightarrow> gm_ok (gm_put k v m)"
    by (simp add: gm_ok_def gm_put_def distinct_update)
  show "gm_ok m \<Longrightarrow> gm_ok (gm_del k m)"
    by (simp add: gm_ok_def gm_del_def distinct_delete)
qed

declare gm.get_put [go_simps] gm.get_del [go_simps]
declare gm.ok_put [inv_intros] gm.ok_del [inv_intros] gm.ok_put_all [inv_intros]

lemma gm_ok_Nil [simp]: "gm_ok []"
  by (simp add: gm_ok_def)

lemma gm_get_Nil [simp]: "gm_get [] k = None"
  by (simp add: gm_get_def)

lemma gm_get_SomeD: "gm_get m k = Some v \<Longrightarrow> (k, v) \<in> set m"
  by (simp add: gm_get_def map_of_SomeD)

lemma gm_get_iff: "gm_ok m \<Longrightarrow> gm_get m k = Some v \<longleftrightarrow> (k, v) \<in> set m"
  by (auto simp: gm_ok_def gm_get_def)

lemma gm_get_None_iff: "gm_get m k = None \<longleftrightarrow> k \<notin> fst ` set m"
  by (simp add: gm_get_def map_of_eq_None_iff)

lemma set_gm_put: "gm_ok m \<Longrightarrow> set (gm_put k v m) = insert (k, v) {p \<in> set m. fst p \<noteq> k}"
proof -
  assume ok: "gm_ok m"
  have "(a, b) \<in> set (gm_put k v m) \<longleftrightarrow> (a, b) \<in> insert (k, v) {p \<in> set m. fst p \<noteq> k}" for a b
    using gm_get_iff [OF gm.ok_put [OF ok], of k v a b] gm_get_iff [OF ok, of a b]
    by (auto simp: gm.get_put split: if_splits)
  then show ?thesis by auto
qed

lemma keys_gm_put: "fst ` set (gm_put k v m) = insert k (fst ` set m)"
  using dom_update [of k v m] by (simp add: gm_put_def)

lemma set_gm_del: "set (gm_del k m) = {p \<in> set m. fst p \<noteq> k}"
  by (auto simp: gm_del_def AList.delete_eq)

text \<open>Updating the value under one key, as \<^verbatim>\<open>m[k].field = v\<close> does through a pointer.\<close>

definition gm_adjust :: "'k \<Rightarrow> ('v \<Rightarrow> 'v) \<Rightarrow> ('k, 'v) gomap \<Rightarrow> ('k, 'v) gomap" where
  "gm_adjust k f m = map (\<lambda>(k', v). if k' = k then (k', f v) else (k', v)) m"

lemma keys_gm_adjust [simp]: "map fst (gm_adjust k f m) = map fst m"
  by (auto simp: gm_adjust_def)

lemma gm_ok_adjust [inv_intros]: "gm_ok m \<Longrightarrow> gm_ok (gm_adjust k f m)"
  by (simp add: gm_ok_def)

lemma gm_get_adjust [go_simps]:
  "gm_get (gm_adjust k f m) k' = (if k' = k then map_option f (gm_get m k') else gm_get m k')"
  unfolding gm_get_def gm_adjust_def by (induction m) auto

text \<open>The same update under every key, as a \<^verbatim>\<open>range\<close> over pointers does.\<close>

definition gm_map :: "('v \<Rightarrow> 'v) \<Rightarrow> ('k, 'v) gomap \<Rightarrow> ('k, 'v) gomap" where
  "gm_map f m = map (\<lambda>(k, v). (k, f v)) m"

lemma keys_gm_map [simp]: "map fst (gm_map f m) = map fst m"
  by (auto simp: gm_map_def)

lemma gm_ok_map [inv_intros]: "gm_ok m \<Longrightarrow> gm_ok (gm_map f m)"
  by (simp add: gm_ok_def)

lemma gm_get_map [go_simps]: "gm_get (gm_map f m) k = map_option f (gm_get m k)"
  unfolding gm_get_def gm_map_def by (induction m) auto

section \<open>Strings\<close>

text \<open>
  Go strings are byte strings; \<^typ>\<open>string\<close> is a list of 8-bit characters, ordered bytewise by the
  lexicographic order of the library, as Go's \<^verbatim>\<open><\<close> on strings is. The functions below are those of
  package \<^verbatim>\<open>strings\<close> that the sources call, on ASCII text: case mapping and white space outside
  ASCII are left as they are.
\<close>

definition is_space :: "char \<Rightarrow> bool" where
  "is_space c \<longleftrightarrow> (of_char c :: nat) \<in> {9, 10, 11, 12, 13, 32}"

definition trim_left :: "string \<Rightarrow> string" where
  "trim_left s = dropWhile is_space s"

definition trim_space :: "string \<Rightarrow> string" where
  "trim_space s = rev (trim_left (rev (trim_left s)))"

definition lower_char :: "char \<Rightarrow> char" where
  "lower_char c = (let n = (of_char c :: nat) in if 65 \<le> n \<and> n \<le> 90 then char_of (n + 32) else c)"

definition to_lower :: "string \<Rightarrow> string" where
  "to_lower s = map lower_char s"

definition trim_suffix :: "string \<Rightarrow> string \<Rightarrow> string" where
  "trim_suffix s x = (if suffix x s then take (length s - length x) s else s)"

definition cut_prefix :: "string \<Rightarrow> string \<Rightarrow> string option" where
  "cut_prefix s p = (if prefix p s then Some (drop (length p) s) else None)"

lemma of_char_lower_char:
  "(of_char (lower_char c) :: nat) =
    (if 65 \<le> (of_char c :: nat) \<and> (of_char c :: nat) \<le> 90 then of_char c + 32 else of_char c)"
  by (simp add: lower_char_def Let_def)

lemma lower_char_idem [simp]: "lower_char (lower_char c) = lower_char c"
  using of_char_lower_char [of c] by (auto simp: lower_char_def [of "lower_char c"] Let_def)

lemma to_lower_idem [simp]: "to_lower (to_lower s) = to_lower s"
  by (simp add: to_lower_def)

lemma to_lower_append [simp]: "to_lower (a @ b) = to_lower a @ to_lower b"
  by (simp add: to_lower_def)

lemma cut_prefix_Some_iff: "cut_prefix s p = Some r \<longleftrightarrow> s = p @ r"
  by (auto simp: cut_prefix_def prefix_def)

lemma trim_suffix_append [simp]: "trim_suffix (s @ x) x = s"
  by (simp add: trim_suffix_def suffix_def)

section \<open>Decimal numbers\<close>

fun digits10 :: "nat \<Rightarrow> string" where
  "digits10 n =
     (if n < 10 then [char_of (48 + n)] else digits10 (n div 10) @ [char_of (48 + n mod 10)])"

declare digits10.simps [simp del]

text \<open>\<^verbatim>\<open>strconv.Itoa\<close> and the \<^verbatim>\<open>%d\<close> verb.\<close>

definition itoa :: "int \<Rightarrow> string" where
  "itoa i = (if i < 0 then CHR ''-'' # digits10 (nat (- i)) else digits10 (nat i))"

definition undigits :: "string \<Rightarrow> nat" where
  "undigits s = foldl (\<lambda>a c. 10 * a + (of_char c - 48)) 0 s"

lemma undigits_snoc: "undigits (s @ [c]) = 10 * undigits s + (of_char c - 48)"
  by (simp add: undigits_def)

lemma undigits_digits10 [simp]: "undigits (digits10 n) = n"
proof (induction n rule: digits10.induct)
  case (1 n)
  show ?case
  proof (cases "n < 10")
    case True
    then show ?thesis by (subst digits10.simps) (simp add: undigits_def take_bit_eq_mod)
  next
    case False
    with 1 show ?thesis
      by (subst digits10.simps) (simp add: undigits_snoc take_bit_eq_mod)
  qed
qed

lemma digits10_inject [simp]: "digits10 m = digits10 n \<longleftrightarrow> m = n"
  by (metis undigits_digits10)

lemma digits10_chars: "c \<in> set (digits10 n) \<Longrightarrow> 48 \<le> (of_char c :: nat) \<and> (of_char c :: nat) \<le> 57"
proof (induction n rule: digits10.induct)
  case (1 n)
  from "1.prems" have "if n < 10 then c = char_of (48 + n)
      else c \<in> set (digits10 (n div 10)) \<or> c = char_of (48 + n mod 10)"
    by (subst (asm) digits10.simps) (auto split: if_splits)
  with "1.IH" show ?case
    by (auto simp: take_bit_eq_mod split: if_splits)
qed

lemma digits10_nonempty [simp]: "digits10 n \<noteq> []"
  by (subst digits10.simps) simp

lemma digits10_not_minus: "digits10 n \<noteq> CHR ''-'' # s"
proof
  assume "digits10 n = CHR ''-'' # s"
  then have "CHR ''-'' \<in> set (digits10 n)" by simp
  from digits10_chars [OF this] show False by simp
qed

lemma itoa_inject [simp]: "itoa a = itoa b \<longleftrightarrow> a = b"
  using digits10_not_minus by (auto simp: itoa_def) (metis digits10_not_minus)+

section \<open>Instants and durations\<close>

text \<open>
  An instant is the number of nanoseconds since Go's zero \<^verbatim>\<open>time.Time\<close>, so \<^verbatim>\<open>t.IsZero()\<close> is
  \<open>t = 0\<close>; a \<^verbatim>\<open>time.Duration\<close> is an \<^verbatim>\<open>int64\<close> number of nanoseconds and \<^verbatim>\<open>t.Sub(u)\<close> saturates.
\<close>

type_synonym time = int
type_synonym duration = int

abbreviation second :: duration where
  "second \<equiv> 1000000000"

definition time_sub :: "time \<Rightarrow> time \<Rightarrow> duration" where
  "time_sub t u = max (- (2 ^ 63)) (min (2 ^ 63 - 1) (t - u))"

lemma time_sub_gt_iff: "0 \<le> d \<Longrightarrow> d < 2 ^ 63 - 1 \<Longrightarrow> time_sub t u > d \<longleftrightarrow> t - u > d"
  by (auto simp: time_sub_def)

lemma time_sub_le_iff: "0 \<le> d \<Longrightarrow> d < 2 ^ 63 - 1 \<Longrightarrow> time_sub t u \<le> d \<longleftrightarrow> t - u \<le> d"
  by (auto simp: time_sub_def)

end
