(* ===== verification/Sharding.thy ===== *)
theory Sharding
  imports Kapture_Prelude
begin

text \<open>
  The sharding function of the replay data plane (\<^verbatim>\<open>internal/plugin/replay/engine.go\<close>): FNV-1a over
  the request ID at 64 bits, reduced modulo the shard count. The replay engine, the feeder of
  external engines and the preshard pipeline all partition a capture with it, so its contract is a
  locale that those components use.
\<close>

unbundle bit_operations_syntax

section \<open>The hash\<close>

text \<open>\<^verbatim>\<open>fnv.New64a\<close>: xor each byte in, then multiply by the prime, wrapping at 64 bits.\<close>

definition fnv64a_step :: "64 word \<Rightarrow> char \<Rightarrow> 64 word" where
  "fnv64a_step h c = (h XOR word_of_nat (of_char c)) * 1099511628211"

definition fnv64a :: "string \<Rightarrow> 64 word" where
  "fnv64a s = foldl fnv64a_step 14695981039346656037 s"

text \<open>
  \<^verbatim>\<open>shardOf\<close> divides by the shard count, which every caller keeps above zero
  (\<^verbatim>\<open>NewEngine\<close> sets it to at least one, \<open>ShardOwns\<close> and \<open>ShardIndexOf\<close> return early).
\<close>

definition shardOf :: "string \<Rightarrow> 64 word \<Rightarrow> 64 word" where
  "shardOf requestID shardCount = fnv64a requestID mod shardCount"

text \<open>
  \<^verbatim>\<open>ShardOwns\<close> and \<^verbatim>\<open>ShardIndexOf\<close> take Go \<^verbatim>\<open>int\<close>s; the conversions to \<^verbatim>\<open>uint64\<close> and back are those
  of Go, modulo \<open>2 ^ 64\<close>.
\<close>

definition ShardOwns :: "string \<Rightarrow> int \<Rightarrow> int \<Rightarrow> bool" where
  "ShardOwns requestID shardIndex shardCount =
     (if shardCount \<le> 1 then True
      else shardOf requestID (word_of_int shardCount) = word_of_int shardIndex)"

definition ShardIndexOf :: "string \<Rightarrow> int \<Rightarrow> int" where
  "ShardIndexOf requestID shardCount =
     (if shardCount \<le> 1 then 0
      else sint (shardOf requestID (word_of_int shardCount)))"

section \<open>The contract of a sharding function\<close>

lemma mset_filter_partition:
  fixes f :: "'a \<Rightarrow> nat"
  assumes "\<And>x. x \<in> set xs \<Longrightarrow> f x < N"
  shows "(\<Sum>i<N. mset (filter (\<lambda>x. f x = i) xs)) = mset xs"
  using assms
proof (induction xs)
  case Nil
  then show ?case by simp
next
  case (Cons x xs)
  have split: "mset (filter (\<lambda>y. f y = i) (x # xs)) =
      (if i = f x then {#x#} else {#}) + mset (filter (\<lambda>y. f y = i) xs)" for i
    by auto
  have "(\<Sum>i<N. mset (filter (\<lambda>y. f y = i) (x # xs))) =
      (\<Sum>i<N. if i = f x then {#x#} else {#}) + (\<Sum>i<N. mset (filter (\<lambda>y. f y = i) xs))"
    unfolding split by (rule sum.distrib)
  also have "(\<Sum>i<N. if i = f x then {#x#} else {#}) = {#x#}"
    using Cons.prems [of x] by (simp add: sum.delta)
  also have "(\<Sum>i<N. mset (filter (\<lambda>y. f y = i) xs)) = mset xs"
    using Cons by simp
  finally show ?case by simp
qed

locale shard_function =
  fixes owns :: "string \<Rightarrow> int \<Rightarrow> int \<Rightarrow> bool"
    and index_of :: "string \<Rightarrow> int \<Rightarrow> int"
  assumes owns_unsharded: "n \<le> 1 \<Longrightarrow> owns rid i n"
    and index_range: "1 < n \<Longrightarrow> n < 2 ^ 63 \<Longrightarrow> 0 \<le> index_of rid n \<and> index_of rid n < n"
    and owns_iff: "1 < n \<Longrightarrow> n < 2 ^ 63 \<Longrightarrow> 0 \<le> i \<Longrightarrow> i < n \<Longrightarrow>
          owns rid i n \<longleftrightarrow> index_of rid n = i"
begin

lemma one_owner:
  assumes "1 < n" and "n < 2 ^ 63"
  shows "\<exists>!i. 0 \<le> i \<and> i < n \<and> owns rid i n"
  using index_range [OF assms, of rid] owns_iff [OF assms] by (metis (full_types))

lemma slices_disjoint:
  assumes "1 < n" and "n < 2 ^ 63" and "0 \<le> i" and "i < n" and "0 \<le> j" and "j < n"
    and "owns rid i n" and "owns rid j n"
  shows "i = j"
  using assms owns_iff by metis

lemma slices_partition:
  assumes n: "1 < n" "n < 2 ^ 63"
  shows "(\<Sum>i<nat n. mset (filter (\<lambda>x. owns (key x) (int i) n) xs)) = mset xs"
proof -
  have "owns (key x) (int i) n \<longleftrightarrow> nat (index_of (key x) n) = i" if "i < nat n" for i x
    using that owns_iff [OF n, of "int i" "key x"] index_range [OF n, of "key x"] by auto
  then have "(\<Sum>i<nat n. mset (filter (\<lambda>x. owns (key x) (int i) n) xs)) =
      (\<Sum>i<nat n. mset (filter (\<lambda>x. nat (index_of (key x) n) = i) xs))"
    by (intro sum.cong) auto
  also have "\<dots> = mset xs"
    using index_range [OF n] n by (intro mset_filter_partition) (simp add: nat_less_iff)
  finally show ?thesis .
qed

end

lemma shardOf_less:
  assumes "1 < n" and "n < 2 ^ 63"
  shows "uint (shardOf rid (word_of_int n)) < n"
proof -
  from assms have n: "uint (word_of_int n :: 64 word) = n"
    by (simp add: uint_word_of_int_eq take_bit_int_eq_self_iff)
  with assms show ?thesis
    by (simp add: shardOf_def uint_mod)
qed

lemma sint_eq_uint_small:
  assumes "uint w < 2 ^ 63"
  shows "sint (w :: 64 word) = uint w"
proof -
  have "- (2 ^ 63) \<le> (0 :: int)" and "0 \<le> uint w" by simp_all
  then have "- (2 ^ 63) \<le> uint w" by (rule order_trans)
  with assms show ?thesis by (simp add: sint_uint signed_take_bit_int_eq_self)
qed

lemma word_of_int_eq_iff_uint: "0 \<le> i \<Longrightarrow> i < 2 ^ 64 \<Longrightarrow> w = (word_of_int i :: 64 word) \<longleftrightarrow> uint w = i"
  by (simp add: word_uint_eq_iff uint_word_of_int_eq take_bit_int_eq_self)

interpretation shards: shard_function ShardOwns ShardIndexOf
proof unfold_locales
  fix n i :: int and rid :: string
  show "n \<le> 1 \<Longrightarrow> ShardOwns rid i n"
    by (simp add: ShardOwns_def)
  assume n: "1 < n" "n < 2 ^ 63"
  let ?w = "shardOf rid (word_of_int n)"
  have w: "uint ?w < n" using n by (rule shardOf_less)
  then have s: "sint ?w = uint ?w" using n by (intro sint_eq_uint_small) simp
  show "0 \<le> ShardIndexOf rid n \<and> ShardIndexOf rid n < n"
    using n w s by (simp add: ShardIndexOf_def)
  assume i: "0 \<le> i" "i < n"
  then have "?w = word_of_int i \<longleftrightarrow> uint ?w = i"
    using n by (intro word_of_int_eq_iff_uint) auto
  then show "ShardOwns rid i n \<longleftrightarrow> ShardIndexOf rid n = i"
    using n s by (simp add: ShardOwns_def ShardIndexOf_def)
qed

section \<open>Properties\<close>

text \<open>
  C9. Every request ID has exactly one owning shard among the indexes of an n-way split, and it
  is the one \<open>ShardIndexOf\<close> returns: the slices are disjoint and exhaustive.
\<close>

theorem shard_exactly_one_owner:
  assumes "1 < n" and "n < 2 ^ 63"
  shows "(\<exists>!i. 0 \<le> i \<and> i < n \<and> ShardOwns rid i n) \<and>
    0 \<le> ShardIndexOf rid n \<and> ShardIndexOf rid n < n \<and> ShardOwns rid (ShardIndexOf rid n) n"
  using assms shards.one_owner shards.index_range shards.owns_iff by blast

theorem shard_exactly_one_owner_witness:
  "(\<exists>!i. 0 \<le> i \<and> i < 4 \<and> ShardOwns ''req-7'' i 4) \<and> ShardIndexOf ''req-7'' 4 = 3"
proof -
  have "ShardIndexOf ''req-7'' 4 = 3" by code_simp
  then show ?thesis using shard_exactly_one_owner [of 4 "''req-7''"] by simp
qed



end
