(* ===== verification/Safety.thy ===== *)
theory Safety
  imports Kapture_Prelude
begin

text \<open>
  The two admission checks of the control plane: the allowlist of replay target hosts
  (\<^verbatim>\<open>internal/safety/hosts.go\<close>), consulted by the hub before it distributes a load test and by the
  spoke before it creates worker Jobs, and the binding of a claimed spoke ID to the caller's
  verified client certificate (\<^verbatim>\<open>internal/hub/identity.go\<close>), consulted by every spoke-facing RPC.
  Hosts and patterns are byte strings; case folding is that of ASCII.
\<close>

section \<open>Target host allowlist\<close>

text \<open>The loop over the patterns, with its \<^verbatim>\<open>continue\<close>s; \<open>host\<close> is already normalised.\<close>

fun HostAllowed_loop :: "string \<Rightarrow> string list \<Rightarrow> bool" where
  "HostAllowed_loop host [] = False"
| "HostAllowed_loop host (p # ps) =
    (let pat = to_lower (trim_space p) in
     if pat = '''' then HostAllowed_loop host ps
     else case cut_prefix pat ''*.'' of
       Some sfx \<Rightarrow> if suffix (''.'' @ sfx) host then True else HostAllowed_loop host ps
     | None \<Rightarrow> if host = pat then True else HostAllowed_loop host ps)"

definition HostAllowed :: "string \<Rightarrow> string list \<Rightarrow> bool" where
  "HostAllowed host allowed =
    (if allowed = [] then True
     else HostAllowed_loop (to_lower (trim_suffix host ''.'')) allowed)"

text \<open>What the documentation promises of one pattern, on a normalised pattern and host.\<close>

definition pattern_admits :: "string \<Rightarrow> string \<Rightarrow> bool" where
  "pattern_admits pat host \<longleftrightarrow> pat \<noteq> '''' \<and>
     (if prefix ''*.'' pat then \<exists>sub. host = sub @ ''.'' @ drop 2 pat else host = pat)"

lemma pattern_admits_code:
  "pattern_admits pat host \<longleftrightarrow> pat \<noteq> '''' \<and>
    (case cut_prefix pat ''*.'' of Some sfx \<Rightarrow> suffix (''.'' @ sfx) host | None \<Rightarrow> host = pat)"
  unfolding pattern_admits_def cut_prefix_def suffix_def by (simp add: numeral_2_eq_2)

lemma HostAllowed_loop_Cons:
  "HostAllowed_loop host (p # ps) \<longleftrightarrow>
    pattern_admits (to_lower (trim_space p)) host \<or> HostAllowed_loop host ps"
  unfolding pattern_admits_code HostAllowed_loop.simps Let_def
  by (cases "cut_prefix (to_lower (trim_space p)) ''*.''") auto

lemma HostAllowed_loop_iff:
  "HostAllowed_loop host ps \<longleftrightarrow> (\<exists>p\<in>set ps. pattern_admits (to_lower (trim_space p)) host)"
  by (induction ps) (simp_all add: HostAllowed_loop_Cons del: HostAllowed_loop.simps(2))

lemma dropWhile_hd_id: "s \<noteq> [] \<Longrightarrow> \<not> P (hd s) \<Longrightarrow> dropWhile P s = s"
  by (cases s) auto

lemma trim_space_id:
  assumes "s \<noteq> []" and "\<not> is_space (hd s)" and "\<not> is_space (last s)"
  shows "trim_space s = s"
  using assms by (simp add: trim_space_def trim_left_def dropWhile_hd_id hd_rev)

lemma length_to_lower [simp]: "length (to_lower s) = length s"
  by (simp add: to_lower_def)

lemma length_trim_suffix: "length (trim_suffix s x) \<le> length s"
  by (simp add: trim_suffix_def)

lemma to_lower_star_dot: "to_lower (''*.'' @ x) = ''*.'' @ to_lower x"
  by (simp add: to_lower_def lower_char_def)

section \<open>Spoke identity\<close>

text \<open>
  What the gRPC transport knows of the caller: no peer at all, a peer without authentication
  info, TLS info with the verified chains (leaf first), or another kind of credentials.
\<close>

record certificate =
  cert_cn :: string
  cert_dns :: "string list"

datatype auth_info = TLSInfo "certificate list list" | OtherAuth

type_synonym peer_ctx = "auth_info option option"

definition peerCertIdentities :: "peer_ctx \<Rightarrow> string list option" where
  "peerCertIdentities ctx =
    (case ctx of
       Some (Some (TLSInfo vchains)) \<Rightarrow>
         (if vchains = [] \<or> hd vchains = [] then None
          else let leaf = hd (hd vchains) in
            Some ((if cert_cn leaf \<noteq> '''' then [cert_cn leaf] else []) @ cert_dns leaf))
     | _ \<Rightarrow> None)"

text \<open>The gRPC status codes the hub returns; the message texts are not modelled.\<close>

datatype grpc_code = InvalidArgument | NotFound | PermissionDenied | ResourceExhausted
  | Unavailable | Aborted | Canceled

definition verifySpokeIdentity :: "peer_ctx \<Rightarrow> string \<Rightarrow> grpc_code option" where
  "verifySpokeIdentity ctx spokeID =
    (case peerCertIdentities ctx of
       None \<Rightarrow> None
     | Some identities \<Rightarrow> if spokeID \<in> set identities then None else Some PermissionDenied)"

lemma verifySpokeIdentity_None_iff:
  "verifySpokeIdentity ctx spokeID = None \<longleftrightarrow>
    (\<forall>ids. peerCertIdentities ctx = Some ids \<longrightarrow> spokeID \<in> set ids)"
  by (auto simp: verifySpokeIdentity_def split: option.splits)

lemma peerCertIdentities_subset:
  assumes "peerCertIdentities ctx = Some ids" and "i \<in> set ids"
  obtains vchains leaf rest where "ctx = Some (Some (TLSInfo ((leaf # rest) # vchains)))"
    and "i = cert_cn leaf \<and> i \<noteq> '''' \<or> i \<in> set (cert_dns leaf)"
proof -
  from assms(1) obtain leaf rest vchains where ctx: "ctx = Some (Some (TLSInfo ((leaf # rest) # vchains)))"
    by (auto simp: peerCertIdentities_def neq_Nil_conv split: option.splits auth_info.splits if_splits)
  moreover from assms ctx have "i = cert_cn leaf \<and> i \<noteq> '''' \<or> i \<in> set (cert_dns leaf)"
    by (auto simp: peerCertIdentities_def split: if_splits)
  ultimately show thesis by (rule that)
qed

section \<open>Properties\<close>

text \<open>
  C10. A non-empty allowlist admits a host exactly when one of its non-blank patterns does: an
  exact pattern names the host up to case, surrounding spaces of the pattern and one trailing
  dot of the host; a wildcard admits the hosts that end in a dot and its suffix. An empty
  allowlist admits every host.
\<close>

theorem HostAllowed_iff:
  "HostAllowed host allowed \<longleftrightarrow> allowed = [] \<or>
    (\<exists>p\<in>set allowed. pattern_admits (to_lower (trim_space p)) (to_lower (trim_suffix host ''.'')))"
  by (simp add: HostAllowed_def HostAllowed_loop_iff)

text \<open>
  A wildcard pattern never admits the domain it is written over: \<open>*.staging.internal\<close> does
  not match \<open>staging.internal\<close> itself, with or without a trailing dot.
\<close>

lemma wildcard_excludes_apex:
  assumes "d \<noteq> []" and "\<not> is_space (last d)"
  shows "\<not> HostAllowed d [''*.'' @ d] \<and> \<not> HostAllowed (d @ ''.'') [''*.'' @ d]"
proof -
  have trim: "trim_space (''*.'' @ d) = ''*.'' @ d"
    using assms by (intro trim_space_id) (auto simp: is_space_def)
  have no: "\<not> pattern_admits (to_lower (''*.'' @ d)) h" if "length h \<le> length d" for h
    using that unfolding to_lower_star_dot by (auto simp: pattern_admits_def)
  have "\<not> HostAllowed d [''*.'' @ d]"
    unfolding HostAllowed_def HostAllowed_loop_iff
    using no [of "to_lower (trim_suffix d ''.'')"] trim by (simp add: length_trim_suffix)
  moreover have "\<not> HostAllowed (d @ ''.'') [''*.'' @ d]"
    unfolding HostAllowed_def HostAllowed_loop_iff
    using no [of "to_lower d"] trim by simp
  ultimately show ?thesis by blast
qed

end
