(* ===== verification/Float64.thy ===== *)
theory Float64
  imports Complex_Main Kapture_Prelude
begin

text \<open>
  Go's \<^verbatim>\<open>float64\<close>, as far as the sources use it: finite values are the rationals with a 53-bit
  significand, every operation is the exact operation followed by rounding to nearest, ties to
  even. The sign of zero is not kept: no code of the model divides by a computed zero of either
  sign or prints one. The lemmas say that rounding is monotone and exact on the integers that fit
  the significand, which is what comparisons against thresholds rest on.
\<close>

section \<open>Rounding to an integer\<close>

definition rhe :: "rat \<Rightarrow> int" where
  "rhe x = (let f = \<lfloor>x\<rfloor>; d = x - of_int f in
     if d < 1 / 2 then f else if 1 / 2 < d then f + 1 else if even f then f else f + 1)"

lemma rhe_of_int [simp]: "rhe (of_int n) = n"
  by (simp add: rhe_def)

lemma rhe_bounds: "\<lfloor>x\<rfloor> \<le> rhe x \<and> rhe x \<le> \<lfloor>x\<rfloor> + 1"
  by (simp add: rhe_def Let_def)

lemma rhe_error: "\<bar>of_int (rhe x) - x\<bar> \<le> 1 / 2"
proof -
  have "of_int \<lfloor>x\<rfloor> \<le> x" and "x < of_int \<lfloor>x\<rfloor> + 1" by linarith+
  then show ?thesis by (auto simp: rhe_def Let_def)
qed

lemma rhe_mono: "x \<le> y \<Longrightarrow> rhe x \<le> rhe y"
proof (cases "\<lfloor>x\<rfloor> = \<lfloor>y\<rfloor>")
  case True
  moreover assume "x \<le> y"
  ultimately show ?thesis by (auto simp: rhe_def Let_def)
next
  case False
  assume "x \<le> y"
  then have "\<lfloor>x\<rfloor> \<le> \<lfloor>y\<rfloor>" by (rule floor_mono)
  with False have "\<lfloor>x\<rfloor> + 1 \<le> \<lfloor>y\<rfloor>" by simp
  then show ?thesis using rhe_bounds [of x] rhe_bounds [of y] by linarith
qed

section \<open>The binary exponent\<close>

function nlog2 :: "int \<Rightarrow> nat" where
  "nlog2 n = (if n < 2 then 0 else Suc (nlog2 (n div 2)))"
  by pat_completeness auto

termination
  by (relation "measure nat") auto

declare nlog2.simps [simp del]

lemma nlog2_bounds: "0 < n \<Longrightarrow> 2 ^ nlog2 n \<le> n \<and> n < 2 ^ Suc (nlog2 n)"
proof (induction n rule: nlog2.induct)
  case (1 n)
  show ?case
  proof (cases "n < 2")
    case True
    with 1 show ?thesis by (simp add: nlog2.simps)
  next
    case False
    then have "2 ^ nlog2 (n div 2) \<le> n div 2 \<and> n div 2 < 2 ^ Suc (nlog2 (n div 2))"
      by (intro 1) auto
    moreover have "nlog2 n = Suc (nlog2 (n div 2))" using False by (subst nlog2.simps) simp
    ultimately show ?thesis by simp linarith
  qed
qed

definition ilog2 :: "rat \<Rightarrow> int" where
  "ilog2 x = (let (p, q) = quotient_of x; k = int (nlog2 p) - int (nlog2 q) in
     if 2 powi k \<le> x then k else k - 1)"

lemma nlog2_bounds_rat:
  assumes "0 < p"
  shows "2 powi int (nlog2 p) \<le> (of_int p :: rat) \<and> (of_int p :: rat) < 2 powi (int (nlog2 p) + 1)"
proof -
  have "2 ^ nlog2 p \<le> p \<and> p < 2 ^ Suc (nlog2 p)" using assms by (rule nlog2_bounds)
  then have "of_int (2 ^ nlog2 p) \<le> (of_int p :: rat)" and "(of_int p :: rat) < of_int (2 ^ Suc (nlog2 p))"
    by (simp_all only: of_int_le_iff of_int_less_iff)
  then show ?thesis by (simp add: power_int_add)
qed

lemma powi_le: "i \<le> j \<Longrightarrow> (2 :: rat) powi i \<le> 2 powi j"
  by (rule power_int_increasing) simp_all

lemma powi_pos [simp]: "0 < (2 :: rat) powi i"
  by simp

lemma ilog2_bounds:
  assumes "0 < x"
  shows "2 powi ilog2 x \<le> x \<and> x < 2 powi (ilog2 x + 1)"
proof -
  obtain p q where pq: "quotient_of x = (p, q)" by (cases "quotient_of x")
  then have q: "0 < q" and x: "x = of_int p / of_int q"
    using quotient_of_denom_pos quotient_of_div by auto
  with assms have p: "0 < p" by (simp add: zero_less_divide_iff)
  define a b where "a = int (nlog2 p)" and "b = int (nlog2 q)"
  have bp: "2 powi a \<le> (of_int p :: rat)" "(of_int p :: rat) < 2 powi (a + 1)"
    using nlog2_bounds_rat [OF p] by (simp_all add: a_def)
  have bq: "2 powi b \<le> (of_int q :: rat)" "(of_int q :: rat) < 2 powi (b + 1)"
    using nlog2_bounds_rat [OF q] by (simp_all add: b_def)
  have up: "x < 2 powi (a - b + 1)"
  proof -
    have "x < 2 powi (a + 1) / 2 powi b"
      unfolding x using bp bq p q by (intro frac_less) auto
    then show ?thesis by (simp add: power_int_diff power_int_add)
  qed
  have lo: "2 powi (a - b - 1) \<le> x"
  proof -
    have "2 powi a / 2 powi (b + 1) \<le> x"
      unfolding x using bp bq p q by (intro frac_le) auto
    then show ?thesis by (simp add: power_int_diff power_int_add)
  qed
  show ?thesis using up lo by (simp add: ilog2_def Let_def pq flip: a_def b_def)
qed

section \<open>Rounding to a double\<close>

definition ulp_exp :: "rat \<Rightarrow> int" where
  "ulp_exp x = max (- 1074) (ilog2 \<bar>x\<bar> - 52)"

definition rnd :: "rat \<Rightarrow> rat" where
  "rnd x = (if x = 0 then 0 else of_int (rhe (x / 2 powi ulp_exp x)) * 2 powi ulp_exp x)"

lemma ulp_exp_bounds:
  assumes "0 < x"
  shows "x < 2 powi (ulp_exp x + 53)" and "- 1074 < ulp_exp x \<Longrightarrow> 2 powi (ulp_exp x + 52) \<le> x"
proof -
  have b: "2 powi ilog2 x \<le> x" "x < 2 powi (ilog2 x + 1)"
    using ilog2_bounds [OF assms] by auto
  have "x < 2 powi (ilog2 x + 1)" by fact
  also have "\<dots> \<le> 2 powi (ulp_exp x + 53)"
    using assms by (intro powi_le) (simp add: ulp_exp_def)
  finally show "x < 2 powi (ulp_exp x + 53)" .
  assume "- 1074 < ulp_exp x"
  then have "ulp_exp x + 52 = ilog2 x" using assms by (simp add: ulp_exp_def max_def split: if_splits)
  with b show "2 powi (ulp_exp x + 52) \<le> x" by simp
qed

lemma rhe_scale_le:
  assumes "x \<le> of_int n * 2 powi e"
  shows "of_int (rhe (x / 2 powi e)) * 2 powi e \<le> of_int n * (2 :: rat) powi e"
proof -
  have "x / 2 powi e \<le> of_int n" using assms by (simp add: pos_divide_le_eq)
  then have "rhe (x / 2 powi e) \<le> n" using rhe_mono [of _ "of_int n"] by simp
  then show ?thesis by (intro mult_right_mono) simp_all
qed

lemma rhe_scale_ge:
  assumes "of_int n * 2 powi e \<le> x"
  shows "of_int n * 2 powi e \<le> of_int (rhe (x / 2 powi e)) * (2 :: rat) powi e"
proof -
  have "of_int n \<le> x / 2 powi e" using assms by (simp add: pos_le_divide_eq)
  then have "n \<le> rhe (x / 2 powi e)" using rhe_mono [of "of_int n"] by simp
  then show ?thesis by (intro mult_right_mono) simp_all
qed

lemma rnd_nonneg: "0 \<le> x \<Longrightarrow> 0 \<le> rnd x"
  using rhe_scale_ge [of 0 "ulp_exp x" x] by (simp add: rnd_def)

lemma powi_split53: "2 powi (e + 53) = of_int (2 ^ 53) * (2 :: rat) powi e"
  by (simp add: power_int_add)

lemma powi_split52: "2 powi (e + 52) = of_int (2 ^ 52) * (2 :: rat) powi e"
  by (simp add: power_int_add)

lemma ilog2_mono:
  assumes "0 < x" and "x \<le> y"
  shows "ilog2 x \<le> ilog2 y"
proof (rule ccontr)
  assume "\<not> ilog2 x \<le> ilog2 y"
  then have "2 powi (ilog2 y + 1) \<le> (2 :: rat) powi ilog2 x" by (intro powi_le) simp
  with ilog2_bounds [of x] ilog2_bounds [of y] assms show False by linarith
qed

lemma rnd_mono_pos:
  assumes x: "0 < x" and xy: "x \<le> y"
  shows "rnd x \<le> rnd y"
proof (cases "ulp_exp x = ulp_exp y")
  case True
  have "x / 2 powi ulp_exp y \<le> y / 2 powi ulp_exp y" using xy by (intro divide_right_mono) simp_all
  then show ?thesis
    using x xy True rhe_mono by (simp add: rnd_def)
next
  case False
  have y: "0 < y" using x xy by simp
  have "ulp_exp x \<le> ulp_exp y" using x y ilog2_mono [OF x xy] by (simp add: ulp_exp_def)
  with False have lt: "ulp_exp x + 1 \<le> ulp_exp y" by simp
  then have sub: "- 1074 < ulp_exp y" by (simp add: ulp_exp_def)
  have "x \<le> of_int (2 ^ 53) * 2 powi ulp_exp x"
    using ulp_exp_bounds(1) [OF x] unfolding powi_split53 by simp
  then have "rnd x \<le> 2 powi (ulp_exp x + 53)"
    using x rhe_scale_le unfolding powi_split53 by (simp add: rnd_def)
  also have "\<dots> \<le> 2 powi (ulp_exp y + 52)" using lt by (intro powi_le) simp
  also have "\<dots> \<le> rnd y"
    using y ulp_exp_bounds(2) [OF y sub] rhe_scale_ge unfolding powi_split52 by (simp add: rnd_def)
  finally show ?thesis .
qed

lemma rnd_mono: "0 \<le> x \<Longrightarrow> x \<le> y \<Longrightarrow> rnd x \<le> rnd y"
  using rnd_mono_pos [of x y] rnd_nonneg [of y] by (cases "x = 0") (auto simp: rnd_def)

lemma ulp_exp_small:
  assumes "n \<noteq> 0" and "\<bar>n\<bar> < 2 ^ 53"
  shows "ulp_exp (of_int n) \<le> 0"
proof (rule ccontr)
  assume "\<not> ulp_exp (of_int n) \<le> 0"
  then have e: "1 \<le> ilog2 (of_int \<bar>n\<bar>) - 52" by (simp add: ulp_exp_def)
  have "of_int (2 ^ 53) = (2 :: rat) powi 53" by simp
  also have "\<dots> \<le> 2 powi ilog2 (of_int \<bar>n\<bar>)" using e by (intro powi_le) simp
  also have "\<dots> \<le> of_int \<bar>n\<bar>" using assms(1) ilog2_bounds [of "of_int \<bar>n\<bar>"] by simp
  finally have "2 ^ 53 \<le> \<bar>n\<bar>" by (simp only: of_int_le_iff)
  with assms(2) show False by simp
qed

lemma rnd_exact:
  assumes "\<bar>n\<bar> < 2 ^ 53"
  shows "rnd (of_int n) = of_int n"
proof (cases "n = 0")
  case False
  define k where "k = nat (- ulp_exp (of_int n))"
  have k: "ulp_exp (of_int n) = - int k" using ulp_exp_small [OF False assms] by (simp add: k_def)
  have "of_int n / 2 powi ulp_exp (of_int n) = (of_int (n * 2 ^ k) :: rat)"
    by (simp add: k power_int_minus field_simps)
  then show ?thesis
    using False by (simp add: rnd_def k power_int_minus del: of_int_mult) simp
qed (simp add: rnd_def)

lemma rnd_error:
  assumes "0 < x" and "ulp_exp x \<le> e"
  shows "\<bar>rnd x - x\<bar> \<le> 2 powi (e - 1)"
proof -
  have "rnd x - x = (of_int (rhe (x / 2 powi ulp_exp x)) - x / 2 powi ulp_exp x) * 2 powi ulp_exp x"
    using assms(1) by (simp add: rnd_def left_diff_distrib)
  then have "\<bar>rnd x - x\<bar> \<le> 1 / 2 * 2 powi ulp_exp x"
    using rhe_error by (simp add: abs_mult)
  also have "\<dots> \<le> 1 / 2 * 2 powi e" using powi_le [OF assms(2)] by simp
  also have "\<dots> = 2 powi (e - 1)" by (simp add: power_int_diff)
  finally show ?thesis .
qed

text \<open>
  Comparing a rounded quotient of integers with a small integer threshold decides exactly: the
  quotient is at least \<open>1/b\<close> away from the threshold when it differs, and rounding moves it by less.
\<close>

lemma rnd_quot_gt_iff:
  assumes a: "0 \<le> a" and b: "0 < b" "b < 2 ^ 46" and t: "0 \<le> t" "t \<le> 100"
  shows "of_int t < rnd (of_int a / of_int b) \<longleftrightarrow> t * b < a"
proof
  have nn: "0 \<le> (of_int a / of_int b :: rat)" using a b by simp
  show "t * b < a" if "of_int t < rnd (of_int a / of_int b)"
  proof (rule ccontr)
    assume "\<not> t * b < a"
    then have "(of_int a :: rat) \<le> of_int t * of_int b" by (simp flip: of_int_mult)
    then have "(of_int a / of_int b :: rat) \<le> of_int t" using b by (simp add: pos_divide_le_eq)
    then have "rnd (of_int a / of_int b) \<le> rnd (of_int t)" using nn by (intro rnd_mono)
    with that t show False by (simp add: rnd_exact)
  qed
  assume "t * b < a"
  then have "(of_int (t * b + 1) :: rat) \<le> of_int a" by (simp only: of_int_le_iff)
  then have "of_int (t * b + 1) / of_int b \<le> (of_int a / of_int b :: rat)"
    using b by (intro divide_right_mono) simp_all
  moreover have "of_int (t * b + 1) / of_int b = (of_int t + 1 / of_int b :: rat)"
    using b by (simp add: add_divide_distrib)
  ultimately have q: "of_int t + 1 / of_int b \<le> (of_int a / of_int b :: rat)" by simp
  define x :: rat where "x = of_int t + 1 / of_int b"
  have pos: "0 < (1 / of_int b :: rat)" "1 / of_int b \<le> (1 :: rat)" using b by auto
  have tr: "0 \<le> (of_int t :: rat)" "of_int t \<le> (100 :: rat)" using t by simp_all
  have x: "0 < x" using add_nonneg_pos [OF tr(1) pos(1)] by (simp add: x_def)
  have "x \<le> 100 + 1" unfolding x_def using tr(2) pos(2) by (rule add_mono)
  then have x7: "x < 2 powi 7" by simp
  have "ilog2 x < 7"
  proof (rule ccontr)
    assume "\<not> ilog2 x < 7"
    then have "2 powi 7 \<le> (2 :: rat) powi ilog2 x" by (intro powi_le) simp
    with x x7 ilog2_bounds [of x] show False by simp
  qed
  then have "ulp_exp x \<le> - 46" using x by (simp add: ulp_exp_def)
  then have err: "\<bar>rnd x - x\<bar> \<le> 2 powi (- 46 - 1)" using x by (intro rnd_error)
  have "(of_int b :: rat) < of_int (2 ^ 46)" using b by (simp only: of_int_less_iff)
  then have "2 powi (- 46 - 1) < (1 / of_int b :: rat)"
    using b by (simp add: power_int_minus field_simps)
  with err have "\<bar>rnd x - x\<bar> < 1 / of_int b" by (rule order.strict_trans1)
  then have "of_int t < rnd x" unfolding x_def by (simp add: abs_less_iff)
  also have "rnd x \<le> rnd (of_int a / of_int b)" using x q by (intro rnd_mono) (auto simp: x_def)
  finally show "of_int t < rnd (of_int a / of_int b)" .
qed

section \<open>Values\<close>

datatype f64 = Fin rat | PInf | NInf | NaN

definition f_rnd :: "rat \<Rightarrow> f64" where
  "f_rnd x = (let r = rnd x in
     if r \<noteq> 0 \<and> 1024 \<le> ilog2 \<bar>r\<bar> then (if 0 < r then PInf else NInf) else Fin r)"

definition f_of_int :: "int \<Rightarrow> f64" where
  "f_of_int n = f_rnd (of_int n)"

fun f_neg :: "f64 \<Rightarrow> f64" where
  "f_neg (Fin a) = Fin (- a)"
| "f_neg PInf = NInf"
| "f_neg NInf = PInf"
| "f_neg NaN = NaN"

fun f_add :: "f64 \<Rightarrow> f64 \<Rightarrow> f64" where
  "f_add (Fin a) (Fin b) = f_rnd (a + b)"
| "f_add NaN y = NaN"
| "f_add x NaN = NaN"
| "f_add PInf NInf = NaN"
| "f_add NInf PInf = NaN"
| "f_add PInf y = PInf"
| "f_add NInf y = NInf"
| "f_add x PInf = PInf"
| "f_add x NInf = NInf"

definition f_inf :: "bool \<Rightarrow> f64" where
  "f_inf pos = (if pos then PInf else NInf)"

fun f_mul :: "f64 \<Rightarrow> f64 \<Rightarrow> f64" where
  "f_mul (Fin a) (Fin b) = f_rnd (a * b)"
| "f_mul NaN y = NaN"
| "f_mul x NaN = NaN"
| "f_mul (Fin a) y = (if a = 0 then NaN else f_inf ((y = PInf) = (0 < a)))"
| "f_mul x (Fin b) = (if b = 0 then NaN else f_inf ((x = PInf) = (0 < b)))"
| "f_mul x y = f_inf (x = y)"

fun f_div :: "f64 \<Rightarrow> f64 \<Rightarrow> f64" where
  "f_div (Fin a) (Fin b) =
     (if b = 0 then (if a = 0 then NaN else f_inf (0 < a)) else f_rnd (a / b))"
| "f_div NaN y = NaN"
| "f_div x NaN = NaN"
| "f_div (Fin a) y = Fin 0"
| "f_div x (Fin b) = f_inf ((x = PInf) = (0 \<le> b))"
| "f_div x y = NaN"

fun f_less :: "f64 \<Rightarrow> f64 \<Rightarrow> bool" where
  "f_less (Fin a) (Fin b) = (a < b)"
| "f_less NaN y = False"
| "f_less x NaN = False"
| "f_less NInf y = (y \<noteq> NInf)"
| "f_less x PInf = (x \<noteq> PInf)"
| "f_less x y = False"

text \<open>\<^verbatim>\<open>strconv.FormatFloat(x, 'f', 1, 64)\<close>: the exact value rounded half-even to one decimal.\<close>

fun format_f1 :: "f64 \<Rightarrow> string" where
  "format_f1 (Fin a) =
     (let n = rhe (\<bar>a\<bar> * 10); s = itoa (n div 10) @ ''.'' @ itoa (n mod 10) in
      if a < 0 then ''-'' @ s else s)"
| "format_f1 PInf = ''+Inf''"
| "format_f1 NInf = ''-Inf''"
| "format_f1 NaN = ''NaN''"

lemma ilog2_less: "0 < x \<Longrightarrow> x < 2 powi k \<Longrightarrow> ilog2 x < k"
  using ilog2_bounds [of x] powi_le [of k "ilog2 x"] by (cases "ilog2 x < k") auto

lemma f_rnd_Fin: "\<bar>rnd x\<bar> < 2 powi 1024 \<Longrightarrow> f_rnd x = Fin (rnd x)"
  using ilog2_less [of "\<bar>rnd x\<bar>" 1024] by (auto simp: f_rnd_def Let_def)

lemma powi_53_1024: "(2 :: rat) ^ 53 < 2 powi 1024"
proof -
  have "(2 :: rat) powi 53 < 2 powi 1024" by (rule power_int_strict_increasing) simp_all
  then show ?thesis by simp
qed

lemma f_of_int_exact: "\<bar>n\<bar> < 2 ^ 53 \<Longrightarrow> f_of_int n = Fin (of_int n)"
proof -
  assume n: "\<bar>n\<bar> < 2 ^ 53"
  then have "(of_int \<bar>n\<bar> :: rat) < of_int (2 ^ 53)" by (simp only: of_int_less_iff)
  then have "\<bar>of_int n\<bar> < (2 :: rat) ^ 53" by simp
  then have "\<bar>of_int n\<bar> < (2 :: rat) powi 1024" using powi_53_1024 by (rule less_trans)
  then show ?thesis using f_rnd_Fin [of "of_int n"] by (simp add: f_of_int_def rnd_exact [OF n])
qed

section \<open>Evaluation\<close>

text \<open>Integer forms of the rounding functions, by which concrete values are computed.\<close>

definition rhe_div :: "int \<Rightarrow> int \<Rightarrow> int" where
  "rhe_div a b = (let f = a div b; r = 2 * (a mod b) in
     if r < b then f else if b < r then f + 1 else if even f then f else f + 1)"

lemma rhe_div_correct:
  assumes "0 < b"
  shows "rhe (of_int a / of_int b) = rhe_div a b"
proof -
  have f: "\<lfloor>of_int a / of_int b :: rat\<rfloor> = a div b" by (rule floor_divide_of_int_eq)
  have "(of_int a :: rat) = of_int (a div b) * of_int b + of_int (a mod b)"
    by (metis div_mult_mod_eq of_int_add of_int_mult)
  then have d: "of_int a / of_int b - of_int (a div b) = (of_int (a mod b) / of_int b :: rat)"
    using assms by (simp add: add_divide_distrib)
  have half: "x / of_int b < (1 / 2 :: rat) \<longleftrightarrow> 2 * x < of_int b" "(1 / 2 :: rat) < x / of_int b \<longleftrightarrow> of_int b < 2 * x" for x
    using assms by (simp_all add: pos_divide_less_eq pos_less_divide_eq mult.commute)
  have "of_int (2 * (a mod b)) = 2 * (of_int (a mod b) :: rat)" by simp
  then have "(of_int (a mod b) / of_int b < (1 / 2 :: rat)) = (2 * (a mod b) < b)"
    and "((1 / 2 :: rat) < of_int (a mod b) / of_int b) = (b < 2 * (a mod b))"
    unfolding half by (metis of_int_less_iff)+
  then show ?thesis unfolding rhe_def rhe_div_def Let_def f d by presburger
qed

lemma rhe_code [code]: "rhe x = (case quotient_of x of (p, q) \<Rightarrow> rhe_div p q)"
  using quotient_of_div [of x] quotient_of_denom_pos [of x] rhe_div_correct
  by (cases "quotient_of x") simp

definition scale2 :: "int \<Rightarrow> int \<Rightarrow> int \<Rightarrow> int \<times> int" where
  "scale2 p q e = (if 0 \<le> e then (p, q * 2 ^ nat e) else (p * 2 ^ nat (- e), q))"

lemma scale2_correct:
  assumes "0 < q" and "scale2 p q e = (a, b)"
  shows "of_int p / of_int q / 2 powi e = (of_int a / of_int b :: rat) \<and> 0 < b"
  using assms by (auto simp: scale2_def power_int_def field_simps split: if_splits)

lemma ilog2_code [code]:
  "ilog2 x = (case quotient_of x of (p, q) \<Rightarrow>
     let k = int (nlog2 p) - int (nlog2 q); (a, b) = scale2 p q k in if b \<le> a then k else k - 1)"
proof -
  obtain p q where pq: "quotient_of x = (p, q)" by (cases "quotient_of x")
  then have q: "0 < q" and x: "x = of_int p / of_int q"
    using quotient_of_denom_pos quotient_of_div by auto
  define k where "k = int (nlog2 p) - int (nlog2 q)"
  obtain a b where ab: "scale2 p q k = (a, b)" by fastforce
  have s: "x / 2 powi k = of_int a / of_int b" and b: "0 < b" using scale2_correct [OF q ab] by (auto simp: x)
  have "2 powi k \<le> x \<longleftrightarrow> 1 \<le> x / 2 powi k" by (simp add: pos_le_divide_eq)
  also have "\<dots> \<longleftrightarrow> b \<le> a" unfolding s using b by (simp add: pos_le_divide_eq)
  finally show ?thesis by (simp add: ilog2_def pq ab Let_def k_def [symmetric])
qed

definition unscale2 :: "int \<Rightarrow> int \<Rightarrow> rat" where
  "unscale2 n e = (if 0 \<le> e then of_int (n * 2 ^ nat e) else Fract n (2 ^ nat (- e)))"

lemma unscale2_correct: "unscale2 n e = of_int n * 2 powi e"
proof (cases "0 \<le> e")
  case False
  then have "(2 :: rat) powi e = inverse (2 ^ nat (- e))" by (simp add: power_int_def power_one_over inverse_eq_divide)
  with False show ?thesis by (simp add: unscale2_def Fract_of_int_quotient divide_inverse)
qed (simp add: unscale2_def power_int_def)

lemma rnd_code [code]:
  "rnd x = (if x = 0 then 0 else
     case quotient_of x of (p, q) \<Rightarrow>
       let e = ulp_exp x; (a, b) = scale2 p q e in unscale2 (rhe_div a b) e)"
proof -
  obtain p q where pq: "quotient_of x = (p, q)" by (cases "quotient_of x")
  then have q: "0 < q" and x: "x = of_int p / of_int q"
    using quotient_of_denom_pos quotient_of_div by auto
  obtain a b where ab: "scale2 p q (ulp_exp x) = (a, b)" by fastforce
  have "x / 2 powi ulp_exp x = of_int a / of_int b" and "0 < b" using scale2_correct [OF q ab] by (auto simp: x)
  then have "rhe (x / 2 powi ulp_exp x) = rhe_div a b" using rhe_div_correct by simp
  then show ?thesis by (simp add: rnd_def pq ab unscale2_correct)
qed

end
