(* ===== verification/Messages.thy ===== *)
theory Messages
  imports Float64
begin

text \<open>
  The data that travels between the components: the messages of \<^verbatim>\<open>proto/hub/v1/hub.proto\<close> that the
  hub and the spokes exchange, and the custom resources of \<^verbatim>\<open>api/v1alpha1\<close> that the load test
  coordinator and the replay controller reconcile. Field names keep the Go names behind a prefix
  per type. A pointer field is an \<^typ>\<open>'a option\<close>; repeated fields are lists; nil and empty slices
  are not distinguished, as the code never does.
\<close>

section \<open>Status reports\<close>

text \<open>Proto enums are open: a value outside the declared ones is kept as its number.\<close>

datatype ReplayPhase = REPLAY_PHASE_UNSPECIFIED | REPLAY_PHASE_PENDING | REPLAY_PHASE_RUNNING
  | REPLAY_PHASE_COMPLETED | REPLAY_PHASE_FAILED | REPLAY_PHASE_unknown int

record ReplayStatusSummary =
  rs_LoadTestName :: string
  rs_LoadTestNamespace :: string
  rs_ReplayName :: string
  rs_ShardIndex :: int
  rs_ShardCount :: int
  rs_Phase :: ReplayPhase
  rs_TotalRequests :: int
  rs_SentRequests :: int
  rs_FailedRequests :: int
  rs_FilteredRequests :: int
  rs_AchievedRps :: f64
  rs_P50LatencyMs :: int
  rs_P95LatencyMs :: int
  rs_P99LatencyMs :: int
  rs_Message :: string

datatype CapturePhase = CAPTURE_PHASE_UNSPECIFIED | CAPTURE_PHASE_PENDING | CAPTURE_PHASE_ACTIVE
  | CAPTURE_PHASE_COMPLETED | CAPTURE_PHASE_FAILED | CAPTURE_PHASE_unknown int

record CaptureStatusSummary =
  cs_CaptureName :: string
  cs_CaptureNamespace :: string
  cs_Phase :: CapturePhase
  cs_CapturedRequests :: int
  cs_BytesWritten :: int
  cs_ReadyReplicas :: int
  cs_DesiredReplicas :: int

section \<open>Directives\<close>

datatype DirectiveAction = DIRECTIVE_ACTION_UNSPECIFIED | DIRECTIVE_ACTION_START
  | DIRECTIVE_ACTION_STOP | DIRECTIVE_ACTION_UPDATE | DIRECTIVE_ACTION_unknown int

record CaptureSettings =
  ct_IncludeHeaders :: bool
  ct_IncludeBody :: bool
  ct_MaxBodyBytes :: int
  ct_Duration :: string

record HeaderMatch =
  hm_Name :: string
  hm_Value :: string

record CaptureFilters =
  cf_Headers :: "HeaderMatch list"
  cf_PathPrefix :: string
  cf_Percentage :: int

record AgentScaling =
  sc_Replicas :: int
  sc_MinReplicas :: int
  sc_MaxReplicas :: int
  sc_TargetCpu :: int

record CaptureSpec =
  cps_TargetRouteGroup :: string
  cps_TargetRouteKind :: string
  cps_TargetRouteName :: string
  cps_StorageRefName :: string
  cps_CaptureSettings :: "CaptureSettings option"
  cps_Filters :: "CaptureFilters option"
  cps_AgentScaling :: "AgentScaling option"

record CaptureDirective =
  cd_DirectiveId :: string
  cd_Action :: DirectiveAction
  cd_CaptureName :: string
  cd_CaptureNamespace :: string
  cd_Spec :: "CaptureSpec option"

datatype ReplayAction = REPLAY_ACTION_UNSPECIFIED | REPLAY_ACTION_START | REPLAY_ACTION_STOP
  | REPLAY_ACTION_unknown int

record ReplayRate =
  rr_Mode :: string
  rr_RequestsPerSecond :: int
  rr_TimeScale :: string

record ReplayShard =
  sh_Index :: int
  sh_Count :: int
  sh_Presharded :: bool

record ReplayDataFilters =
  df_StartTime :: "time option"
  df_EndTime :: "time option"
  df_PathPrefix :: string
  df_Methods :: "string list"
  df_Limit :: int

record ReplaySpec =
  sp_SourceCapture :: string
  sp_StorageRefName :: string
  sp_TargetHost :: string
  sp_TargetPort :: int
  sp_TargetTls :: bool
  sp_Rate :: "ReplayRate option"
  sp_Shard :: "ReplayShard option"
  sp_Concurrency :: int
  sp_Filters :: "ReplayDataFilters option"
  sp_EngineName :: string
  sp_EngineConfigJson :: string
  sp_AllowedHosts :: "string list"

record ReplayDirective =
  rd_DirectiveId :: string
  rd_Action :: ReplayAction
  rd_LoadTestName :: string
  rd_LoadTestNamespace :: string
  rd_Spec :: "ReplaySpec option"

record WatchDirectivesResponse =
  wd_Directive :: "CaptureDirective option"
  wd_ReplayDirective :: "ReplayDirective option"

record LoadTestKey =
  lk_Namespace :: string
  lk_Name :: string

section \<open>Custom resources\<close>

record ReplayTarget =
  rt_Host :: string
  rt_Port :: "int option"
  rt_TLS :: "bool option"

record ReplayRateConfig =
  rc_Mode :: string
  rc_RequestsPerSecond :: "int option"
  rc_TimeScale :: "string option"

record ReplayFilters =
  rf_StartTime :: "time option"
  rf_EndTime :: "time option"
  rf_PathPrefix :: "string option"
  rf_Methods :: "string list"
  rf_Limit :: "int option"

text \<open>\<^verbatim>\<open>Config\<close> is the raw JSON of a \<^verbatim>\<open>runtime.RawExtension\<close>.\<close>

record ReplayEngineSpec =
  re_Name :: string
  re_Config :: "string option"

record ReplaySafety =
  sf_AllowedHosts :: "string list"

record LoadTestDistribution =
  ld_Cells :: "string list"
  ld_MaxSpokes :: "int option"
  ld_WorkersPerSpoke :: "int option"
  ld_ConcurrencyPerWorker :: "int option"
  ld_Presharded :: "bool option"

record LoadTestAbortPolicy =
  la_MaxDuration :: "duration option"
  la_ErrorPercent :: "int option"
  la_MinSampleRequests :: "int option"

record CaptureLoadTestSpec =
  lts_SourceRef :: string
  lts_StorageRef :: string
  lts_Target :: ReplayTarget
  lts_Rate :: "ReplayRateConfig option"
  lts_Filters :: "ReplayFilters option"
  lts_Distribution :: "LoadTestDistribution option"
  lts_Abort :: "LoadTestAbortPolicy option"
  lts_Engine :: "ReplayEngineSpec option"
  lts_Safety :: "ReplaySafety option"

datatype CaptureLoadTestPhase = LoadTestPhaseNone | LoadTestPhasePending
  | LoadTestPhaseDistributing | LoadTestPhaseRunning | LoadTestPhaseCompleted
  | LoadTestPhaseFailed | LoadTestPhaseAborted

record LoadTestCellStatus =
  lc_Name :: string
  lc_Spokes :: int
  lc_Shards :: int
  lc_SentRequests :: int
  lc_FailedRequests :: int

record LoadTestAssignment =
  as_SpokeID :: string
  as_Cell :: string
  as_ShardIndexes :: "int list"

text \<open>
  A status condition without its message and transition time: \<open>mc_Status\<close> is True for the value
  "True" and False for "False".
\<close>

record Condition =
  mc_Type :: string
  mc_Status :: bool
  mc_Reason :: string

record CaptureLoadTestStatus =
  lst_Phase :: CaptureLoadTestPhase
  lst_StartTime :: "time option"
  lst_CompletionTime :: "time option"
  lst_TotalShards :: int
  lst_AssignedSpokes :: int
  lst_Assignments :: "LoadTestAssignment list"
  lst_Cells :: "LoadTestCellStatus list"
  lst_TotalRequests :: int
  lst_SentRequests :: int
  lst_FailedRequests :: int
  lst_FilteredRequests :: int
  lst_CompletedShards :: int
  lst_FailedShards :: int
  lst_AchievedRPS :: "string option"
  lst_Conditions :: "Condition list"

text \<open>Of the object metadata, the fields that the reconcilers read and write.\<close>

record CaptureLoadTest =
  lt_Namespace :: string
  lt_Name :: string
  lt_Finalizers :: "string list"
  lt_DeletionTimestamp :: "time option"
  lt_Spec :: CaptureLoadTestSpec
  lt_Status :: CaptureLoadTestStatus

record ReplayShardSpec =
  ss_Index :: int
  ss_Count :: int
  ss_Presharded :: "bool option"

record ReplayTransformRef =
  tf_Name :: string
  tf_Config :: "string option"

record TrafficReplaySpec =
  trs_SourceRef :: string
  trs_StorageRef :: string
  trs_Target :: ReplayTarget
  trs_Rate :: "ReplayRateConfig option"
  trs_Filters :: "ReplayFilters option"
  trs_Transforms :: "ReplayTransformRef list"
  trs_Concurrency :: "int option"
  trs_Shard :: "ReplayShardSpec option"
  trs_LoadTestRef :: "string option"
  trs_Engine :: "ReplayEngineSpec option"
  trs_Safety :: "ReplaySafety option"

datatype TrafficReplayPhase = ReplayPhaseNone | ReplayPhasePending | ReplayPhaseRunning
  | ReplayPhaseCompleted | ReplayPhaseFailed

record TrafficReplayStatus =
  trst_Phase :: TrafficReplayPhase
  trst_StartTime :: "time option"
  trst_CompletionTime :: "time option"
  trst_TotalRequests :: int
  trst_SentRequests :: int
  trst_FailedRequests :: int
  trst_FilteredRequests :: int
  trst_MeanLatency :: "string option"
  trst_P50Latency :: "string option"
  trst_P95Latency :: "string option"
  trst_P99Latency :: "string option"
  trst_AchievedRPS :: "string option"
  trst_Conditions :: "Condition list"

record TrafficReplay =
  tr_Namespace :: string
  tr_Name :: string
  tr_Labels :: "(string, string) gomap"
  tr_CreationTimestamp :: time
  tr_DeletionTimestamp :: "time option"
  tr_Finalizers :: "string list"
  tr_Spec :: TrafficReplaySpec
  tr_Status :: TrafficReplayStatus

end
