(* ===== verification/Hub_Server.thy ===== *)
theory Hub_Server
  imports Safety Messages
begin

text \<open>
  The in-memory registry and the RPCs of the hub (\<^verbatim>\<open>internal/hub/grpc_server.go\<close>). The registry is
  a Go map from spoke ID to entry; an entry carries the buffered channel of directives. Every RPC
  takes the mutex for its whole body, so it is one atomic state change; the channel operations of
  \<^verbatim>\<open>queueDirective\<close> and \<^verbatim>\<open>WatchDirectives\<close> happen outside the mutex on an entry found earlier, so
  they are separate steps on an entry identity, and an entry that was replaced or removed stays
  reachable for them in \<open>sv_retired\<close>. The clock reading of a call is an argument. Elements of
  repeated message fields are never nil. Metrics and logging are left out.
\<close>

section \<open>State\<close>

datatype SpokeState = SPOKE_STATE_UNSPECIFIED | SPOKE_STATE_CONNECTED | SPOKE_STATE_DISCONNECTED

record SpokeInfo =
  si_SpokeId :: string
  si_ClusterName :: string
  si_ActiveCaptures :: int
  si_LastHeartbeat :: time
  si_Capabilities :: "string list"
  si_State :: SpokeState
  si_Cell :: string
  si_ActiveReplays :: int

text \<open>
  \<open>se_id\<close> is the identity of the allocated entry, \<open>se_directives\<close> and \<open>se_cap\<close> the contents and
  capacity of its channel, \<open>se_done\<close> whether \<^verbatim>\<open>done\<close> is closed.
\<close>

record spokeEntry =
  se_id :: nat
  se_info :: SpokeInfo
  se_lastHeartbeat :: time
  se_captures :: "(string, CaptureStatusSummary) gomap"
  se_replays :: "(string, ReplayStatusSummary) gomap"
  se_directives :: "WatchDirectivesResponse list"
  se_cap :: int
  se_done :: bool

record Server =
  sv_spokes :: "(string, spokeEntry) gomap"
  sv_retired :: "spokeEntry list"
  sv_nextId :: nat
  sv_activeLoadTests :: "LoadTestKey list"
  sv_activeLoadTestsComplete :: bool
  sv_directiveBufferSize :: int
  sv_shutdown :: bool

definition DefaultHeartbeatInterval :: int where
  "DefaultHeartbeatInterval = 30"

definition SpokeTimeout :: duration where
  "SpokeTimeout = 90 * second"

definition DirectiveBufferSize :: int where
  "DirectiveBufferSize = 32"

definition NewServer :: Server where
  "NewServer = \<lparr>sv_spokes = [], sv_retired = [], sv_nextId = 0, sv_activeLoadTests = [],
     sv_activeLoadTestsComplete = False, sv_directiveBufferSize = 0, sv_shutdown = False\<rparr>"

definition SetDirectiveBufferSize :: "int \<Rightarrow> Server \<Rightarrow> Server" where
  "SetDirectiveBufferSize n s = (if 0 < n then s\<lparr>sv_directiveBufferSize := n\<rparr> else s)"

definition directiveBufferSizeLocked :: "Server \<Rightarrow> int" where
  "directiveBufferSizeLocked s =
    (if 0 < sv_directiveBufferSize s then sv_directiveBufferSize s else DirectiveBufferSize)"

text \<open>\<^verbatim>\<open>Stop\<close> closes the shutdown channel once; draining the gRPC transport is outside the model.\<close>

definition Stop :: "Server \<Rightarrow> Server" where
  "Stop s = s\<lparr>sv_shutdown := True\<rparr>"

section \<open>Helpers\<close>

definition captureKey :: "string \<Rightarrow> string \<Rightarrow> string" where
  "captureKey ns name = ns @ ''/'' @ name"

definition replayKey :: "ReplayStatusSummary \<Rightarrow> string" where
  "replayKey rs = rs_LoadTestNamespace rs @ ''/'' @ rs_LoadTestName rs @ ''/'' @ rs_ReplayName rs"

definition replay_terminal :: "ReplayPhase \<Rightarrow> bool" where
  "replay_terminal p \<longleftrightarrow> p = REPLAY_PHASE_COMPLETED \<or> p = REPLAY_PHASE_FAILED"

definition activeReplayCount :: "(string, ReplayStatusSummary) gomap \<Rightarrow> int" where
  "activeReplayCount replays =
    foldl (\<lambda>c kv. if replay_terminal (rs_Phase (snd kv)) then c else i32 (c + 1)) 0 replays"

record CaptureInfo =
  ci_CaptureName :: string
  ci_CaptureNamespace :: string
  ci_SpokeId :: string
  ci_Phase :: CapturePhase
  ci_CapturedRequests :: int
  ci_BytesWritten :: int

definition captureInfoFromSummary :: "CaptureStatusSummary \<Rightarrow> string \<Rightarrow> CaptureInfo" where
  "captureInfoFromSummary cs spokeID =
    \<lparr>ci_CaptureName = cs_CaptureName cs, ci_CaptureNamespace = cs_CaptureNamespace cs,
     ci_SpokeId = spokeID, ci_Phase = cs_Phase cs,
     ci_CapturedRequests = cs_CapturedRequests cs, ci_BytesWritten = cs_BytesWritten cs\<rparr>"

section \<open>Spoke lifecycle\<close>

record RegisterSpokeRequest =
  rq_SpokeId :: string
  rq_ClusterName :: string
  rq_KubernetesVersion :: string
  rq_Capabilities :: "string list"
  rq_Cell :: string

record RegisterSpokeResponse =
  rp_Accepted :: bool
  rp_Message :: string
  rp_HeartbeatIntervalSeconds :: int

record HeartbeatRequest =
  hb_SpokeId :: string
  hb_ActiveCaptures :: int
  hb_CaptureSummaries :: "CaptureStatusSummary list"
  hb_ReplaySummaries :: "ReplayStatusSummary list"

record HeartbeatResponse =
  hr_Acknowledged :: bool
  hr_ActiveLoadTests :: "LoadTestKey list"
  hr_ActiveLoadTestsComplete :: bool

definition retire :: "spokeEntry option \<Rightarrow> Server \<Rightarrow> Server" where
  "retire existing s =
    (case existing of
       None \<Rightarrow> s
     | Some e \<Rightarrow> s\<lparr>sv_retired := e\<lparr>se_done := True\<rparr> # sv_retired s\<rparr>)"

definition new_entry :: "RegisterSpokeRequest \<Rightarrow> time \<Rightarrow> Server \<Rightarrow> spokeEntry" where
  "new_entry req now s =
    \<lparr>se_id = sv_nextId s,
     se_info = \<lparr>si_SpokeId = rq_SpokeId req, si_ClusterName = rq_ClusterName req,
       si_ActiveCaptures = 0, si_LastHeartbeat = now, si_Capabilities = rq_Capabilities req,
       si_State = SPOKE_STATE_CONNECTED, si_Cell = rq_Cell req, si_ActiveReplays = 0\<rparr>,
     se_lastHeartbeat = now, se_captures = [], se_replays = [], se_directives = [],
     se_cap = directiveBufferSizeLocked s, se_done = False\<rparr>"

definition RegisterSpoke ::
  "peer_ctx \<Rightarrow> time \<Rightarrow> RegisterSpokeRequest \<Rightarrow> Server \<Rightarrow> Server \<times> (grpc_code + RegisterSpokeResponse)" where
  "RegisterSpoke ctx now req s =
    (if rq_SpokeId req = '''' then (s, Inl InvalidArgument)
     else case verifySpokeIdentity ctx (rq_SpokeId req) of
       Some err \<Rightarrow> (s, Inl err)
     | None \<Rightarrow>
         let s' = retire (gm_get (sv_spokes s) (rq_SpokeId req)) s in
         (s'\<lparr>sv_spokes := gm_put (rq_SpokeId req) (new_entry req now s) (sv_spokes s),
             sv_nextId := sv_nextId s + 1\<rparr>,
          Inr \<lparr>rp_Accepted = True, rp_Message = ''spoke registered'',
               rp_HeartbeatIntervalSeconds = DefaultHeartbeatInterval\<rparr>))"

definition put_captures :: "CaptureStatusSummary list \<Rightarrow> spokeEntry \<Rightarrow> spokeEntry" where
  "put_captures css e =
    e\<lparr>se_captures := fold (\<lambda>cs. gm_put (captureKey (cs_CaptureNamespace cs) (cs_CaptureName cs)) cs)
        css (se_captures e)\<rparr>"

definition put_replays :: "ReplayStatusSummary list \<Rightarrow> spokeEntry \<Rightarrow> spokeEntry" where
  "put_replays rss e =
    (let replays = fold (\<lambda>rs. gm_put (replayKey rs) rs) rss (se_replays e) in
     e\<lparr>se_replays := replays, se_info := (se_info e)\<lparr>si_ActiveReplays := activeReplayCount replays\<rparr>\<rparr>)"

definition touch :: "time \<Rightarrow> int \<Rightarrow> spokeEntry \<Rightarrow> spokeEntry" where
  "touch now active e =
    e\<lparr>se_lastHeartbeat := now,
      se_info := (se_info e)\<lparr>si_LastHeartbeat := now, si_ActiveCaptures := active,
        si_State := SPOKE_STATE_CONNECTED\<rparr>\<rparr>"

definition Heartbeat ::
  "peer_ctx \<Rightarrow> time \<Rightarrow> HeartbeatRequest \<Rightarrow> Server \<Rightarrow> Server \<times> (grpc_code + HeartbeatResponse)" where
  "Heartbeat ctx now req s =
    (if hb_SpokeId req = '''' then (s, Inl InvalidArgument)
     else case verifySpokeIdentity ctx (hb_SpokeId req) of
       Some err \<Rightarrow> (s, Inl err)
     | None \<Rightarrow>
       (case gm_get (sv_spokes s) (hb_SpokeId req) of
          None \<Rightarrow> (s, Inl NotFound)
        | Some entry \<Rightarrow>
            let entry' = put_replays (hb_ReplaySummaries req)
                  (put_captures (hb_CaptureSummaries req) (touch now (hb_ActiveCaptures req) entry)) in
            (s\<lparr>sv_spokes := gm_put (hb_SpokeId req) entry' (sv_spokes s)\<rparr>,
             Inr \<lparr>hr_Acknowledged = True, hr_ActiveLoadTests = sv_activeLoadTests s,
                  hr_ActiveLoadTestsComplete = sv_activeLoadTestsComplete s\<rparr>)))"

definition SetActiveLoadTests :: "LoadTestKey list \<Rightarrow> bool \<Rightarrow> Server \<Rightarrow> Server" where
  "SetActiveLoadTests keys isComplete s =
    s\<lparr>sv_activeLoadTests := keys, sv_activeLoadTestsComplete := isComplete\<rparr>"

definition DeregisterSpoke :: "peer_ctx \<Rightarrow> string \<Rightarrow> Server \<Rightarrow> Server \<times> (grpc_code + bool)" where
  "DeregisterSpoke ctx spokeID s =
    (if spokeID = '''' then (s, Inl InvalidArgument)
     else case verifySpokeIdentity ctx spokeID of
       Some err \<Rightarrow> (s, Inl err)
     | None \<Rightarrow>
       (case gm_get (sv_spokes s) spokeID of
          None \<Rightarrow> (s, Inl NotFound)
        | Some entry \<Rightarrow>
            ((retire (Some entry) s)\<lparr>sv_spokes := gm_del spokeID (sv_spokes s)\<rparr>, Inr True)))"

section \<open>Status reports\<close>

definition ReportCaptureStatus ::
  "peer_ctx \<Rightarrow> string \<Rightarrow> CaptureStatusSummary list \<Rightarrow> Server \<Rightarrow> Server \<times> (grpc_code + bool)" where
  "ReportCaptureStatus ctx spokeID statuses s =
    (if spokeID = '''' then (s, Inl InvalidArgument)
     else case verifySpokeIdentity ctx spokeID of
       Some err \<Rightarrow> (s, Inl err)
     | None \<Rightarrow>
       if statuses = [] then (s, Inl InvalidArgument)
       else (case gm_get (sv_spokes s) spokeID of
          None \<Rightarrow> (s, Inl NotFound)
        | Some entry \<Rightarrow>
            let e = put_captures statuses entry;
                e' = e\<lparr>se_info := (se_info e)\<lparr>si_ActiveCaptures := i32 (int (length (se_captures e)))\<rparr>\<rparr> in
            (s\<lparr>sv_spokes := gm_put spokeID e' (sv_spokes s)\<rparr>, Inr True)))"

definition ReportReplayStatus ::
  "peer_ctx \<Rightarrow> string \<Rightarrow> ReplayStatusSummary list \<Rightarrow> Server \<Rightarrow> Server \<times> (grpc_code + bool)" where
  "ReportReplayStatus ctx spokeID statuses s =
    (if spokeID = '''' then (s, Inl InvalidArgument)
     else case verifySpokeIdentity ctx spokeID of
       Some err \<Rightarrow> (s, Inl err)
     | None \<Rightarrow>
       if statuses = [] then (s, Inl InvalidArgument)
       else (case gm_get (sv_spokes s) spokeID of
          None \<Rightarrow> (s, Inl NotFound)
        | Some entry \<Rightarrow>
            (s\<lparr>sv_spokes := gm_put spokeID (put_replays statuses entry) (sv_spokes s)\<rparr>, Inr True)))"

definition clear_entry :: "string \<Rightarrow> string \<Rightarrow> spokeEntry \<Rightarrow> spokeEntry" where
  "clear_entry ns name e =
    (let replays = filter (\<lambda>kv. \<not> (rs_LoadTestNamespace (snd kv) = ns \<and> rs_LoadTestName (snd kv) = name))
           (se_replays e) in
     e\<lparr>se_replays := replays, se_info := (se_info e)\<lparr>si_ActiveReplays := activeReplayCount replays\<rparr>\<rparr>)"

definition ClearReplayStatuses :: "string \<Rightarrow> string \<Rightarrow> Server \<Rightarrow> Server" where
  "ClearReplayStatuses ns name s = s\<lparr>sv_spokes := gm_map (clear_entry ns name) (sv_spokes s)\<rparr>"

section \<open>Directive channels\<close>

definition entry_by_id :: "nat \<Rightarrow> Server \<Rightarrow> spokeEntry option" where
  "entry_by_id i s = find (\<lambda>e. se_id e = i) (map snd (sv_spokes s) @ sv_retired s)"

definition on_entry :: "nat \<Rightarrow> (spokeEntry \<Rightarrow> spokeEntry) \<Rightarrow> Server \<Rightarrow> Server" where
  "on_entry i f s =
    (let g = \<lambda>e. if se_id e = i then f e else e in
     s\<lparr>sv_spokes := gm_map g (sv_spokes s), sv_retired := map g (sv_retired s)\<rparr>)"

text \<open>The non-blocking send of \<^verbatim>\<open>queueDirective\<close> on the channel of an entry.\<close>

definition push_entry :: "nat \<Rightarrow> WatchDirectivesResponse \<Rightarrow> Server \<Rightarrow> Server \<times> bool" where
  "push_entry i resp s =
    (case entry_by_id i s of
       None \<Rightarrow> (s, False)
     | Some e \<Rightarrow>
         if int (length (se_directives e)) < se_cap e
         then (on_entry i (\<lambda>e. e\<lparr>se_directives := se_directives e @ [resp]\<rparr>) s, True)
         else (s, False))"

definition queueDirective ::
  "string \<Rightarrow> WatchDirectivesResponse \<Rightarrow> Server \<Rightarrow> Server \<times> grpc_code option" where
  "queueDirective spokeID resp s =
    (if spokeID = '''' then (s, Some InvalidArgument)
     else case gm_get (sv_spokes s) spokeID of
       None \<Rightarrow> (s, Some NotFound)
     | Some entry \<Rightarrow>
         (case push_entry (se_id entry) resp s of
            (s', True) \<Rightarrow> (s', None)
          | (s', False) \<Rightarrow> (s', Some ResourceExhausted)))"

definition SendDirective ::
  "string \<Rightarrow> CaptureDirective option \<Rightarrow> Server \<Rightarrow> Server \<times> grpc_code option" where
  "SendDirective spokeID directive s =
    (case directive of
       None \<Rightarrow> (s, Some InvalidArgument)
     | Some d \<Rightarrow> queueDirective spokeID \<lparr>wd_Directive = Some d, wd_ReplayDirective = None\<rparr> s)"

definition SendReplayDirective ::
  "string \<Rightarrow> ReplayDirective option \<Rightarrow> Server \<Rightarrow> Server \<times> grpc_code option" where
  "SendReplayDirective spokeID directive s =
    (case directive of
       None \<Rightarrow> (s, Some InvalidArgument)
     | Some d \<Rightarrow> queueDirective spokeID \<lparr>wd_Directive = None, wd_ReplayDirective = Some d\<rparr> s)"

fun broadcast_loop :: "nat list \<Rightarrow> WatchDirectivesResponse \<Rightarrow> Server \<Rightarrow> int \<Rightarrow> Server \<times> int" where
  "broadcast_loop [] resp s queued = (s, queued)"
| "broadcast_loop (i # is) resp s queued =
    (case push_entry i resp s of
       (s', True) \<Rightarrow> broadcast_loop is resp s' (queued + 1)
     | (s', False) \<Rightarrow> broadcast_loop is resp s' queued)"

definition BroadcastDirective :: "CaptureDirective option \<Rightarrow> Server \<Rightarrow> Server \<times> int" where
  "BroadcastDirective directive s =
    (case directive of
       None \<Rightarrow> (s, 0)
     | Some d \<Rightarrow> broadcast_loop (map (se_id \<circ> snd) (sv_spokes s))
         \<lparr>wd_Directive = Some d, wd_ReplayDirective = None\<rparr> s 0)"

text \<open>
  \<^verbatim>\<open>WatchDirectives\<close>: the checks and the lookup that open the stream, then one iteration of the
  \<^verbatim>\<open>select\<close> on the entry found. Several cases may be ready at once and Go picks any of them, so the
  chosen case is an argument and a case that is not ready yields None. \<open>Receive sent\<close> dequeues a
  directive and sends it on the stream, \<open>sent\<close> being whether \<^verbatim>\<open>stream.Send\<close> succeeded.
\<close>

definition WatchDirectives_open :: "peer_ctx \<Rightarrow> string \<Rightarrow> Server \<Rightarrow> grpc_code + nat" where
  "WatchDirectives_open ctx spokeID s =
    (if spokeID = '''' then Inl InvalidArgument
     else case verifySpokeIdentity ctx spokeID of
       Some err \<Rightarrow> Inl err
     | None \<Rightarrow>
       (case gm_get (sv_spokes s) spokeID of
          None \<Rightarrow> Inl NotFound
        | Some entry \<Rightarrow> Inr (se_id entry)))"

datatype watch_case = StreamDone | ShutdownClosed | EntryDone | Receive bool

datatype watch_result = Return grpc_code | ReturnSendError WatchDirectivesResponse
  | Continue WatchDirectivesResponse

definition WatchDirectives_iter ::
  "nat \<Rightarrow> watch_case \<Rightarrow> Server \<Rightarrow> (Server \<times> watch_result) option" where
  "WatchDirectives_iter i c s =
    (case entry_by_id i s of
       None \<Rightarrow> None
     | Some e \<Rightarrow>
       (case c of
          StreamDone \<Rightarrow> Some (s, Return Canceled)
        | ShutdownClosed \<Rightarrow> if sv_shutdown s then Some (s, Return Unavailable) else None
        | EntryDone \<Rightarrow> if se_done e then Some (s, Return Aborted) else None
        | Receive sent \<Rightarrow>
            (case se_directives e of
               [] \<Rightarrow> None
             | r # rest \<Rightarrow>
                 Some (on_entry i (\<lambda>e. e\<lparr>se_directives := rest\<rparr>) s,
                   if sent then Continue r else ReturnSendError r))))"

end
