(* ===== verification/Hub_Queries.thy ===== *)
theory Hub_Queries
  imports Hub_Server
begin

text \<open>
  The read side of the hub server (\<^verbatim>\<open>internal/hub/grpc_server.go\<close>): the query RPCs and the
  snapshots that the CaptureHub and CaptureLoadTest reconcilers take. They range over the registry
  map, whose order Go leaves open; the lemmas show which answers do not depend on it.
\<close>

section \<open>Query RPCs\<close>

definition ListCaptures :: "string \<Rightarrow> string \<Rightarrow> string \<Rightarrow> Server \<Rightarrow> CaptureInfo list" where
  "ListCaptures reqSpoke reqNamespace reqCell s =
    concat (map (\<lambda>(spokeID, entry).
      if reqSpoke \<noteq> '''' \<and> spokeID \<noteq> reqSpoke then []
      else if reqCell \<noteq> '''' \<and> si_Cell (se_info entry) \<noteq> reqCell then []
      else concat (map (\<lambda>(key, cs).
        if reqNamespace \<noteq> '''' \<and> cs_CaptureNamespace cs \<noteq> reqNamespace then []
        else [captureInfoFromSummary cs spokeID]) (se_captures entry))) (sv_spokes s))"

fun find_capture :: "string \<Rightarrow> (string, spokeEntry) gomap \<Rightarrow> CaptureInfo option" where
  "find_capture key [] = None"
| "find_capture key ((spokeID, entry) # rest) =
    (case gm_get (se_captures entry) key of
       Some cs \<Rightarrow> Some (captureInfoFromSummary cs spokeID)
     | None \<Rightarrow> find_capture key rest)"

definition GetCaptureStatus :: "string \<Rightarrow> string \<Rightarrow> string \<Rightarrow> Server \<Rightarrow> grpc_code + CaptureInfo" where
  "GetCaptureStatus name ns reqSpoke s =
    (if name = '''' \<or> ns = '''' then Inl InvalidArgument
     else let key = captureKey ns name in
       if reqSpoke \<noteq> '''' then
         (case gm_get (sv_spokes s) reqSpoke of
            None \<Rightarrow> Inl NotFound
          | Some entry \<Rightarrow>
              (case gm_get (se_captures entry) key of
                 None \<Rightarrow> Inl NotFound
               | Some cs \<Rightarrow> Inr (captureInfoFromSummary cs reqSpoke)))
       else
         (case find_capture key (sv_spokes s) of
            Some info \<Rightarrow> Inr info
          | None \<Rightarrow> Inl NotFound))"

definition cloneSpokeInfo :: "SpokeInfo \<Rightarrow> SpokeInfo" where
  "cloneSpokeInfo info =
    \<lparr>si_SpokeId = si_SpokeId info, si_ClusterName = si_ClusterName info,
     si_ActiveCaptures = si_ActiveCaptures info, si_LastHeartbeat = si_LastHeartbeat info,
     si_Capabilities = si_Capabilities info, si_State = si_State info, si_Cell = si_Cell info,
     si_ActiveReplays = si_ActiveReplays info\<rparr>"

definition ListSpokes :: "time \<Rightarrow> string \<Rightarrow> Server \<Rightarrow> SpokeInfo list" where
  "ListSpokes now reqCell s =
    concat (map (\<lambda>(_, entry).
      if reqCell \<noteq> '''' \<and> si_Cell (se_info entry) \<noteq> reqCell then []
      else let info = cloneSpokeInfo (se_info entry) in
        [if SpokeTimeout < time_sub now (se_lastHeartbeat entry)
         then info\<lparr>si_State := SPOKE_STATE_DISCONNECTED\<rparr> else info]) (sv_spokes s))"

record CellInfo =
  ce_Name :: string
  ce_ConnectedSpokes :: int
  ce_TotalSpokes :: int
  ce_ActiveCaptures :: int
  ce_ActiveReplays :: int

definition ListCells_step :: "time \<Rightarrow> string \<times> spokeEntry \<Rightarrow> (string, CellInfo) gomap \<Rightarrow> (string, CellInfo) gomap" where
  "ListCells_step now kv byCell =
    (let entry = snd kv; name = si_Cell (se_info entry);
         cell = (case gm_get byCell name of
             None \<Rightarrow> \<lparr>ce_Name = name, ce_ConnectedSpokes = 0, ce_TotalSpokes = 0,
                      ce_ActiveCaptures = 0, ce_ActiveReplays = 0\<rparr>
           | Some c \<Rightarrow> c);
         cell = cell\<lparr>ce_TotalSpokes := i32 (ce_TotalSpokes cell + 1)\<rparr>;
         cell = (if time_sub now (se_lastHeartbeat entry) \<le> SpokeTimeout
                 then cell\<lparr>ce_ConnectedSpokes := i32 (ce_ConnectedSpokes cell + 1)\<rparr> else cell);
         cell = cell\<lparr>ce_ActiveCaptures :=
                   i32 (ce_ActiveCaptures cell + i32 (int (length (se_captures entry))))\<rparr>;
         cell = cell\<lparr>ce_ActiveReplays :=
                   i32 (ce_ActiveReplays cell + activeReplayCount (se_replays entry))\<rparr>
     in gm_put name cell byCell)"

definition ListCells :: "time \<Rightarrow> Server \<Rightarrow> CellInfo list" where
  "ListCells now s =
    (let byCell = fold (ListCells_step now) (sv_spokes s) [] in
     map (\<lambda>name. the (gm_get byCell name)) (sort (map fst byCell)))"

record ReplayInfo =
  ri_SpokeId :: string
  ri_Cell :: string
  ri_Summary :: ReplayStatusSummary

definition ListReplays :: "string \<Rightarrow> string \<Rightarrow> string \<Rightarrow> Server \<Rightarrow> ReplayInfo list" where
  "ListReplays reqName reqNamespace reqCell s =
    concat (map (\<lambda>(spokeID, entry).
      if reqCell \<noteq> '''' \<and> si_Cell (se_info entry) \<noteq> reqCell then []
      else concat (map (\<lambda>(_, rs).
        if reqName \<noteq> '''' \<and> rs_LoadTestName rs \<noteq> reqName then []
        else if reqNamespace \<noteq> '''' \<and> rs_LoadTestNamespace rs \<noteq> reqNamespace then []
        else [\<lparr>ri_SpokeId = spokeID, ri_Cell = si_Cell (se_info entry), ri_Summary = rs\<rparr>])
        (se_replays entry))) (sv_spokes s))"

section \<open>Aggregates and snapshots\<close>

definition ConnectedSpokeCount :: "time \<Rightarrow> Server \<Rightarrow> int" where
  "ConnectedSpokeCount now s =
    foldl (\<lambda>c kv. if time_sub now (se_lastHeartbeat (snd kv)) \<le> SpokeTimeout then i32 (c + 1) else c)
      0 (sv_spokes s)"

definition ActiveCaptureCount :: "Server \<Rightarrow> int" where
  "ActiveCaptureCount s =
    foldl (\<lambda>c kv. i32 (c + i32 (int (length (se_captures (snd kv)))))) 0 (sv_spokes s)"

definition ActiveReplayCount :: "Server \<Rightarrow> int" where
  "ActiveReplayCount s = foldl (\<lambda>c kv. i32 (c + activeReplayCount (se_replays (snd kv)))) 0 (sv_spokes s)"

record SpokeStatusSnapshot =
  sn_Name :: string
  sn_Cell :: string
  sn_LastHeartbeat :: time
  sn_ActiveCaptures :: int
  sn_ActiveReplays :: int

definition SpokeStatuses :: "Server \<Rightarrow> SpokeStatusSnapshot list" where
  "SpokeStatuses s =
    map (\<lambda>(_, entry).
      \<lparr>sn_Name = si_ClusterName (se_info entry), sn_Cell = si_Cell (se_info entry),
       sn_LastHeartbeat = se_lastHeartbeat entry, sn_ActiveCaptures = si_ActiveCaptures (se_info entry),
       sn_ActiveReplays = activeReplayCount (se_replays entry)\<rparr>) (sv_spokes s)"

record CellStatusSnapshot =
  cl_Name :: string
  cl_ConnectedSpokes :: int
  cl_TotalSpokes :: int
  cl_ActiveCaptures :: int
  cl_ActiveReplays :: int

definition CellStatuses_step ::
  "time \<Rightarrow> string \<times> spokeEntry \<Rightarrow> (string, CellStatusSnapshot) gomap \<Rightarrow> (string, CellStatusSnapshot) gomap" where
  "CellStatuses_step now kv byCell =
    (let entry = snd kv; name = si_Cell (se_info entry);
         cell = (case gm_get byCell name of
             None \<Rightarrow> \<lparr>cl_Name = name, cl_ConnectedSpokes = 0, cl_TotalSpokes = 0,
                      cl_ActiveCaptures = 0, cl_ActiveReplays = 0\<rparr>
           | Some c \<Rightarrow> c);
         cell = cell\<lparr>cl_TotalSpokes := i32 (cl_TotalSpokes cell + 1)\<rparr>;
         cell = (if time_sub now (se_lastHeartbeat entry) \<le> SpokeTimeout
                 then cell\<lparr>cl_ConnectedSpokes := i32 (cl_ConnectedSpokes cell + 1)\<rparr> else cell);
         cell = cell\<lparr>cl_ActiveCaptures :=
                   i32 (cl_ActiveCaptures cell + i32 (int (length (se_captures entry))))\<rparr>;
         cell = cell\<lparr>cl_ActiveReplays :=
                   i32 (cl_ActiveReplays cell + activeReplayCount (se_replays entry))\<rparr>
     in gm_put name cell byCell)"

definition CellStatuses :: "time \<Rightarrow> Server \<Rightarrow> CellStatusSnapshot list" where
  "CellStatuses now s =
    (let byCell = fold (CellStatuses_step now) (sv_spokes s) [] in
     map (\<lambda>name. the (gm_get byCell name)) (sort (map fst byCell)))"

record SpokeSelection =
  sl_SpokeID :: string
  sl_Cell :: string

definition eligible :: "time \<Rightarrow> string list \<Rightarrow> spokeEntry \<Rightarrow> bool" where
  "eligible now cells entry \<longleftrightarrow>
    \<not> SpokeTimeout < time_sub now (se_lastHeartbeat entry) \<and>
    \<not> (cells \<noteq> [] \<and> si_Cell (se_info entry) \<notin> set cells)"

text \<open>The keys of the registry are distinct, so the unstable \<^verbatim>\<open>sort.Slice\<close> has only one result.\<close>

definition SelectSpokes :: "time \<Rightarrow> string list \<Rightarrow> int \<Rightarrow> Server \<Rightarrow> SpokeSelection list" where
  "SelectSpokes now cells maxSpokes s =
    (let selected = map (\<lambda>(spokeID, entry). \<lparr>sl_SpokeID = spokeID, sl_Cell = si_Cell (se_info entry)\<rparr>)
           (filter (\<lambda>(_, entry). eligible now cells entry) (sv_spokes s));
         sorted = sort_key sl_SpokeID selected in
     if 0 < maxSpokes \<and> maxSpokes < int (length sorted) then take (nat maxSpokes) sorted else sorted)"

record ReplayStatusSnapshot =
  sm_SpokeID :: string
  sm_Cell :: string
  sm_Summary :: ReplayStatusSummary

definition ReplayStatuses :: "string \<Rightarrow> string \<Rightarrow> Server \<Rightarrow> ReplayStatusSnapshot list" where
  "ReplayStatuses ns name s =
    concat (map (\<lambda>(spokeID, entry).
      concat (map (\<lambda>(_, rs).
        if rs_LoadTestNamespace rs \<noteq> ns \<or> rs_LoadTestName rs \<noteq> name then []
        else [\<lparr>sm_SpokeID = spokeID, sm_Cell = si_Cell (se_info entry), sm_Summary = rs\<rparr>])
        (se_replays entry))) (sv_spokes s))"

section \<open>Counting\<close>

lemma i32_add_right [simp]: "i32 (x + i32 y) = i32 (x + y)"
  using i32_add_left [of y x] by (simp add: add.commute)

lemma i32_0 [simp]: "i32 0 = 0"
  by (simp add: i32_def)

lemma foldl_i32_count:
  "foldl (\<lambda>c x. if P x then i32 (c + 1) else c) (i32 a) xs = i32 (a + int (length (filter P xs)))"
  by (induction xs arbitrary: a) (simp_all add: algebra_simps)

lemma activeReplayCount_eq:
  "activeReplayCount m = i32 (int (length (filter (\<lambda>kv. \<not> replay_terminal (rs_Phase (snd kv))) m)))"
proof -
  have "activeReplayCount m =
      foldl (\<lambda>c kv. if \<not> replay_terminal (rs_Phase (snd kv)) then i32 (c + 1) else c) (i32 0) m"
    unfolding activeReplayCount_def by (intro foldl_cong) auto
  then show ?thesis unfolding foldl_i32_count by simp
qed

section \<open>Cells\<close>

text \<open>One row of the per-cell report, stated over the spokes of the cell.\<close>

definition cell_of :: "string \<times> spokeEntry \<Rightarrow> string" where
  "cell_of kv = si_Cell (se_info (snd kv))"

definition live :: "time \<Rightarrow> string \<times> spokeEntry \<Rightarrow> bool" where
  "live now kv \<longleftrightarrow> time_sub now (se_lastHeartbeat (snd kv)) \<le> SpokeTimeout"

definition cell_row :: "time \<Rightarrow> (string, spokeEntry) gomap \<Rightarrow> string \<Rightarrow> CellStatusSnapshot" where
  "cell_row now spokes name =
    (let members = filter (\<lambda>kv. cell_of kv = name) spokes in
     \<lparr>cl_Name = name,
      cl_ConnectedSpokes = i32 (int (length (filter (live now) members))),
      cl_TotalSpokes = i32 (int (length members)),
      cl_ActiveCaptures = i32 (\<Sum>kv\<leftarrow>members. int (length (se_captures (snd kv)))),
      cl_ActiveReplays = i32 (\<Sum>kv\<leftarrow>members. activeReplayCount (se_replays (snd kv)))\<rparr>)"

lemma gm_get_CellStatuses_step:
  "gm_get (CellStatuses_step now kv m) n =
    (if n = cell_of kv then
       Some (let c = (case gm_get m n of None \<Rightarrow> cell_row now [] n | Some c \<Rightarrow> c) in
         \<lparr>cl_Name = cl_Name c,
          cl_ConnectedSpokes = (if live now kv then i32 (cl_ConnectedSpokes c + 1) else cl_ConnectedSpokes c),
          cl_TotalSpokes = i32 (cl_TotalSpokes c + 1),
          cl_ActiveCaptures = i32 (cl_ActiveCaptures c + int (length (se_captures (snd kv)))),
          cl_ActiveReplays = i32 (cl_ActiveReplays c + activeReplayCount (se_replays (snd kv)))\<rparr>)
     else gm_get m n)"
  by (auto simp: CellStatuses_step_def gm.get_put cell_of_def live_def cell_row_def Let_def
      split: option.splits)

lemma gm_get_CellStatuses_fold:
  "gm_get (fold (CellStatuses_step now) xs []) n =
    (if n \<in> cell_of ` set xs then Some (cell_row now xs n) else None)"
proof (induction xs rule: rev_induct)
  case Nil
  then show ?case by simp
next
  case (snoc x xs)
  have base: "(case gm_get (fold (CellStatuses_step now) xs []) n of
        None \<Rightarrow> cell_row now [] n | Some c \<Rightarrow> c) = cell_row now xs n"
  proof (cases "n \<in> cell_of ` set xs")
    case False
    then have "filter (\<lambda>kv. cell_of kv = n) xs = []" by (auto simp: filter_empty_conv)
    with False snoc show ?thesis by (simp add: cell_row_def)
  qed (simp add: snoc)
  show ?case
    unfolding fold_append fold.simps comp_apply id_apply gm_get_CellStatuses_step base
    using snoc by (auto simp: cell_row_def Let_def algebra_simps)
qed

lemma gm_ok_fold: "(\<And>x m. gm_ok m \<Longrightarrow> gm_ok (f x m)) \<Longrightarrow> gm_ok m \<Longrightarrow> gm_ok (fold f xs m)"
  by (induction xs arbitrary: m) auto

lemma gm_ok_CellStatuses_fold: "gm_ok (fold (CellStatuses_step now) xs [])"
  by (intro gm_ok_fold) (auto simp: CellStatuses_step_def Let_def intro!: gm.ok_put)

lemma keys_CellStatuses_fold: "set (map fst (fold (CellStatuses_step now) xs [])) = cell_of ` set xs"
proof -
  have "n \<in> fst ` set (fold (CellStatuses_step now) xs []) \<longleftrightarrow> n \<in> cell_of ` set xs" for n
    using gm_get_None_iff [of "fold (CellStatuses_step now) xs []" n]
    unfolding gm_get_CellStatuses_fold by (auto split: if_splits)
  then show ?thesis by auto
qed

lemma sort_distinct_eq: "distinct xs \<Longrightarrow> sort xs = sorted_list_of_set (set xs)"
  by (simp add: sorted_list_of_set_sort_remdups distinct_remdups_id)

lemma CellStatuses_eq:
  "CellStatuses now s =
    map (cell_row now (sv_spokes s)) (sorted_list_of_set (cell_of ` set (sv_spokes s)))"
proof -
  let ?m = "fold (CellStatuses_step now) (sv_spokes s) []"
  have "distinct (map fst ?m)" using gm_ok_CellStatuses_fold by (simp add: gm_ok_def)
  then have "sort (map fst ?m) = sorted_list_of_set (cell_of ` set (sv_spokes s))"
    using sort_distinct_eq keys_CellStatuses_fold by metis
  then show ?thesis
    by (auto simp: CellStatuses_def Let_def gm_get_CellStatuses_fold)
qed

text \<open>The RPC and the snapshot are two copies of one loop; a renaming of the fields relates them.\<close>

definition cell_info :: "CellStatusSnapshot \<Rightarrow> CellInfo" where
  "cell_info c = \<lparr>ce_Name = cl_Name c, ce_ConnectedSpokes = cl_ConnectedSpokes c,
     ce_TotalSpokes = cl_TotalSpokes c, ce_ActiveCaptures = cl_ActiveCaptures c,
     ce_ActiveReplays = cl_ActiveReplays c\<rparr>"

lemma map_gm_put: "map (\<lambda>(k, v). (k, f v)) (gm_put k v m) = gm_put k (f v) (map (\<lambda>(k, v). (k, f v)) m)"
  unfolding gm_put_def by (induction m) auto

lemma gm_get_map_values: "gm_get (map (\<lambda>(k, v). (k, f v)) m) k = map_option f (gm_get m k)"
  unfolding gm_get_def by (induction m) auto

lemma ListCells_fold:
  "fold (ListCells_step now) xs (map (\<lambda>(k, c). (k, cell_info c)) m) =
    map (\<lambda>(k, c). (k, cell_info c)) (fold (CellStatuses_step now) xs m)"
proof (induction xs arbitrary: m)
  case (Cons x xs)
  have "ListCells_step now x (map (\<lambda>(k, c). (k, cell_info c)) m) =
      map (\<lambda>(k, c). (k, cell_info c)) (CellStatuses_step now x m)"
    by (auto simp: ListCells_step_def CellStatuses_step_def Let_def map_gm_put gm_get_map_values
        cell_info_def split: option.splits)
  with Cons show ?case by simp
qed simp

lemma ListCells_eq: "ListCells now s = map cell_info (CellStatuses now s)"
proof -
  let ?m = "fold (CellStatuses_step now) (sv_spokes s) []"
  have f: "fold (ListCells_step now) (sv_spokes s) [] = map (\<lambda>(k, c). (k, cell_info c)) ?m"
    using ListCells_fold [of now "sv_spokes s" "[]"] by simp
  have keys: "map fst (map (\<lambda>(k, c). (k, cell_info c)) ?m) = map fst ?m" by auto
  have "the (map_option cell_info (gm_get ?m n)) = cell_info (the (gm_get ?m n))"
    if "n \<in> set (map fst ?m)" for n
    using that unfolding keys_CellStatuses_fold gm_get_CellStatuses_fold by simp
  then show ?thesis
    unfolding ListCells_def CellStatuses_def Let_def f keys by (auto simp: gm_get_map_values)
qed

lemma cell_row_mset: "mset xs = mset ys \<Longrightarrow> cell_row now xs n = cell_row now ys n"
proof -
  assume "mset xs = mset ys"
  then have f: "mset (filter P xs) = mset (filter P ys)" for P by (metis mset_filter)
  then have len: "length (filter P xs) = length (filter P ys)" for P by (metis size_mset)
  have sum: "sum_list (map g (filter P xs)) = sum_list (map g (filter P ys))" for g :: "_ \<Rightarrow> int" and P
    using f [of P] by (metis mset_map sum_mset_sum_list)
  show ?thesis by (simp add: cell_row_def Let_def len sum)
qed

section \<open>Selection of spokes\<close>

definition candidates :: "time \<Rightarrow> string list \<Rightarrow> (string, spokeEntry) gomap \<Rightarrow> SpokeSelection list" where
  "candidates now cells m = map (\<lambda>kv. \<lparr>sl_SpokeID = fst kv, sl_Cell = cell_of kv\<rparr>)
     (filter (\<lambda>kv. eligible now cells (snd kv)) m)"

lemma SelectSpokes_unfold:
  "SelectSpokes now cells k s =
    (let sel = sort_key sl_SpokeID (candidates now cells (sv_spokes s)) in
     if 0 < k then take (nat k) sel else sel)"
proof -
  have "candidates now cells (sv_spokes s) =
      map (\<lambda>(i, e). \<lparr>sl_SpokeID = i, sl_Cell = si_Cell (se_info e)\<rparr>)
        (filter (\<lambda>(_, e). eligible now cells e) (sv_spokes s))"
    by (simp add: candidates_def cell_of_def split_def)
  then show ?thesis by (simp add: SelectSpokes_def Let_def)
qed

lemma set_candidates:
  "sel \<in> set (candidates now cells m) \<longleftrightarrow>
    (\<exists>e. (sl_SpokeID sel, e) \<in> set m \<and> eligible now cells e \<and> sl_Cell sel = si_Cell (se_info e))"
  by (cases sel) (force simp: candidates_def cell_of_def)

lemma keys_candidates:
  "map sl_SpokeID (candidates now cells m) = map fst (filter (\<lambda>kv. eligible now cells (snd kv)) m)"
  by (simp add: candidates_def)

lemma inj_on_candidates: "gm_ok m \<Longrightarrow> inj_on sl_SpokeID (set (candidates now cells m))"
proof -
  assume "gm_ok m"
  then have "distinct (map sl_SpokeID (candidates now cells m))"
    by (simp add: keys_candidates gm_ok_def distinct_map_filter)
  then show ?thesis by (simp only: distinct_map)
qed

lemma distinct_candidates: "gm_ok m \<Longrightarrow> distinct (candidates now cells m)"
proof -
  assume "gm_ok m"
  then have "distinct (map sl_SpokeID (candidates now cells m))"
    by (simp add: keys_candidates gm_ok_def distinct_map_filter)
  then show ?thesis by (simp only: distinct_map)
qed

lemma SelectSpokes_take:
  "0 < k \<Longrightarrow> SelectSpokes now cells k s = take (nat k) (SelectSpokes now cells 0 s)"
  unfolding SelectSpokes_unfold Let_def by simp

lemma set_SelectSpokes_0: "set (SelectSpokes now cells 0 s) = set (candidates now cells (sv_spokes s))"
  unfolding SelectSpokes_unfold by simp

lemma SelectSpokes_nonpos: "k \<le> 0 \<Longrightarrow> SelectSpokes now cells k s = SelectSpokes now cells 0 s"
  unfolding SelectSpokes_unfold by simp

lemma SelectSpokes_0_strict:
  assumes "gm_ok (sv_spokes s)"
  shows "sorted_wrt (<) (map sl_SpokeID (SelectSpokes now cells 0 s))"
proof -
  have "distinct (map sl_SpokeID (SelectSpokes now cells 0 s))"
    using inj_on_candidates [OF assms] distinct_candidates [OF assms]
    by (simp add: SelectSpokes_unfold distinct_map)
  moreover have "sorted (map sl_SpokeID (SelectSpokes now cells 0 s))"
    by (simp add: SelectSpokes_unfold)
  ultimately show ?thesis by (simp add: strict_sorted_iff)
qed

lemma SelectSpokes_prefix: "\<exists>rest. SelectSpokes now cells 0 s = SelectSpokes now cells k s @ rest"
proof (cases "0 < k")
  case True
  then show ?thesis unfolding SelectSpokes_take [OF True] by (metis append_take_drop_id)
next
  case False
  then show ?thesis using SelectSpokes_nonpos [of k now cells s] by simp
qed

lemma SelectSpokes_strict:
  "gm_ok (sv_spokes s) \<Longrightarrow> sorted_wrt (<) (map sl_SpokeID (SelectSpokes now cells k s))"
  using SelectSpokes_0_strict [of s now cells] SelectSpokes_prefix [of now cells s k]
  by (auto simp: sorted_wrt_append)

lemma SelectSpokes_eligible:
  assumes "sel \<in> set (SelectSpokes now cells k s)"
  shows "\<exists>e. (sl_SpokeID sel, e) \<in> set (sv_spokes s) \<and> eligible now cells e \<and> sl_Cell sel = si_Cell (se_info e)"
proof -
  have "sel \<in> set (SelectSpokes now cells 0 s)" using assms SelectSpokes_prefix [of now cells s k] by auto
  then show ?thesis by (simp add: set_SelectSpokes_0 set_candidates)
qed

lemma SelectSpokes_perm:
  assumes "gm_ok (sv_spokes s)" and "mset (sv_spokes s') = mset (sv_spokes s)"
  shows "SelectSpokes now cells k s' = SelectSpokes now cells k s"
proof -
  have m: "mset (candidates now cells (sv_spokes s')) = mset (candidates now cells (sv_spokes s))"
    using assms(2) by (simp add: candidates_def)
  then have "inj_on sl_SpokeID (set (candidates now cells (sv_spokes s')))"
    using inj_on_candidates [OF assms(1)] by (simp flip: set_mset_mset)
  then have "sort_key sl_SpokeID (candidates now cells (sv_spokes s')) =
      sort_key sl_SpokeID (candidates now cells (sv_spokes s))"
    using m by (intro sort_key_inj_key_eq) simp_all
  then show ?thesis unfolding SelectSpokes_unfold Let_def by simp
qed

section \<open>Statuses of a load test\<close>

definition of_loadtest :: "string \<Rightarrow> string \<Rightarrow> ReplayStatusSummary \<Rightarrow> bool" where
  "of_loadtest ns name rs \<longleftrightarrow> rs_LoadTestNamespace rs = ns \<and> rs_LoadTestName rs = name"

definition entry_statuses :: "string \<Rightarrow> string \<Rightarrow> string \<times> spokeEntry \<Rightarrow> ReplayStatusSnapshot list" where
  "entry_statuses ns name kv =
    map (\<lambda>rs. \<lparr>sm_SpokeID = fst kv, sm_Cell = cell_of kv, sm_Summary = rs\<rparr>)
      (filter (of_loadtest ns name) (map snd (se_replays (snd kv))))"

lemma concat_map_if: "concat (map (\<lambda>(k, x). if P x then [] else [f x]) xs) = map f (filter (\<lambda>x. \<not> P x) (map snd xs))"
  by (induction xs) auto

lemma ReplayStatuses_eq: "ReplayStatuses ns name s = concat (map (entry_statuses ns name) (sv_spokes s))"
  unfolding ReplayStatuses_def concat_map_if
  by (simp add: entry_statuses_def [abs_def] of_loadtest_def [abs_def] cell_of_def split_def)

lemma set_entry_statuses:
  "snap \<in> set (entry_statuses ns name (i, e)) \<longleftrightarrow>
    sm_SpokeID snap = i \<and> sm_Cell snap = si_Cell (se_info e) \<and>
    sm_Summary snap \<in> snd ` set (se_replays e) \<and> of_loadtest ns name (sm_Summary snap)"
  by (cases snap) (auto simp: entry_statuses_def cell_of_def)

lemma set_ReplayStatuses:
  "snap \<in> set (ReplayStatuses ns name s) \<longleftrightarrow>
    (\<exists>e. (sm_SpokeID snap, e) \<in> set (sv_spokes s) \<and> sm_Cell snap = si_Cell (se_info e) \<and>
      sm_Summary snap \<in> snd ` set (se_replays e) \<and> of_loadtest ns name (sm_Summary snap))"
proof -
  have "snap \<in> set (ReplayStatuses ns name s) \<longleftrightarrow>
      (\<exists>i e. (i, e) \<in> set (sv_spokes s) \<and> snap \<in> set (entry_statuses ns name (i, e)))"
    by (auto simp: ReplayStatuses_eq)
  then show ?thesis unfolding set_entry_statuses by blast
qed

lemma entry_statuses_clear:
  "entry_statuses ns' name' (i, clear_entry ns name e) =
    (if (ns', name') = (ns, name) then [] else entry_statuses ns' name' (i, e))"
proof -
  have "filter (of_loadtest ns' name') (map snd (filter (\<lambda>kv. \<not> of_loadtest ns name (snd kv)) m)) =
      (if (ns', name') = (ns, name) then [] else filter (of_loadtest ns' name') (map snd m))"
    for m :: "(string, ReplayStatusSummary) gomap"
  proof (cases "(ns', name') = (ns, name)")
    case True
    then show ?thesis by (induction m) auto
  next
    case False
    then have "of_loadtest ns' name' x \<Longrightarrow> \<not> of_loadtest ns name x" for x by (auto simp: of_loadtest_def)
    with False show ?thesis by (induction m) auto
  qed
  moreover have "clear_entry ns name e = (let r = filter (\<lambda>kv. \<not> of_loadtest ns name (snd kv)) (se_replays e) in
     e\<lparr>se_replays := r, se_info := (se_info e)\<lparr>si_ActiveReplays := activeReplayCount r\<rparr>\<rparr>)"
    by (simp only: clear_entry_def of_loadtest_def)
  ultimately show ?thesis
    by (simp add: entry_statuses_def cell_of_def Let_def)
qed

lemma ReplayStatuses_clear:
  "ReplayStatuses ns' name' (ClearReplayStatuses ns name s) =
    (if (ns', name') = (ns, name) then [] else ReplayStatuses ns' name' s)"
proof -
  have "map (entry_statuses ns' name') (gm_map (clear_entry ns name) m) =
      map (\<lambda>kv. if (ns', name') = (ns, name) then [] else entry_statuses ns' name' kv) m" for m
    unfolding gm_map_def map_map by (intro map_cong) (auto simp: entry_statuses_clear)
  then show ?thesis
    by (cases "(ns', name') = (ns, name)") (simp_all add: ReplayStatuses_eq ClearReplayStatuses_def del: prod.inject)
qed

section \<open>Properties\<close>

text \<open>
  C26. The per-cell report has one row per cell in ascending order of the names; the row's numbers
  are the int32 sums over the spokes of the cell, a spoke counting as connected while its last
  heartbeat is at most \<open>SpokeTimeout\<close> old. The RPC \<open>ListCells\<close> returns the same rows, and neither
  depends on the order in which the registry map is visited.
\<close>

theorem cells_report:
  assumes "mset (sv_spokes s') = mset (sv_spokes s)"
  shows "CellStatuses now s =
      map (cell_row now (sv_spokes s)) (sorted_list_of_set (cell_of ` set (sv_spokes s))) \<and>
    ListCells now s = map cell_info (CellStatuses now s) \<and>
    CellStatuses now s' = CellStatuses now s \<and> ListCells now s' = ListCells now s"
proof -
  have "set (sv_spokes s') = set (sv_spokes s)" using assms by (rule mset_eq_setD)
  then have "CellStatuses now s' = CellStatuses now s"
    using cell_row_mset [OF assms] by (simp add: CellStatuses_eq)
  then show ?thesis by (simp add: CellStatuses_eq ListCells_eq)
qed

text \<open>
  C25. Spoke selection: the result is strictly ascending by spoke ID, holds only registered spokes
  whose heartbeat is fresh and whose cell is wanted, is all of them when no maximum is given and
  the first \<open>k\<close> of them when the maximum is \<open>k\<close>, and does not depend on the order in which the
  registry map is visited.
\<close>

theorem SelectSpokes_correct:
  assumes "gm_ok (sv_spokes s)" and "mset (sv_spokes s') = mset (sv_spokes s)"
  shows "sorted_wrt (<) (map sl_SpokeID (SelectSpokes now cells k s)) \<and>
    (\<forall>sel. sel \<in> set (SelectSpokes now cells 0 s) \<longleftrightarrow>
       (\<exists>e. (sl_SpokeID sel, e) \<in> set (sv_spokes s) \<and> eligible now cells e \<and>
          sl_Cell sel = si_Cell (se_info e))) \<and>
    SelectSpokes now cells k s =
      (if 0 < k then take (nat k) (SelectSpokes now cells 0 s) else SelectSpokes now cells 0 s) \<and>
    SelectSpokes now cells k s' = SelectSpokes now cells k s"
proof (intro conjI)
  show eq: "SelectSpokes now cells k s =
      (if 0 < k then take (nat k) (SelectSpokes now cells 0 s) else SelectSpokes now cells 0 s)"
    using SelectSpokes_take [of k now cells s] SelectSpokes_nonpos [of k now cells s] by auto
  show "sorted_wrt (<) (map sl_SpokeID (SelectSpokes now cells k s))"
    using assms(1) by (rule SelectSpokes_strict)
  show "\<forall>sel. sel \<in> set (SelectSpokes now cells 0 s) \<longleftrightarrow>
       (\<exists>e. (sl_SpokeID sel, e) \<in> set (sv_spokes s) \<and> eligible now cells e \<and>
          sl_Cell sel = si_Cell (se_info e))"
    by (simp add: set_SelectSpokes_0 set_candidates)
  show "SelectSpokes now cells k s' = SelectSpokes now cells k s"
    using assms by (rule SelectSpokes_perm)
qed

text \<open>
  C37. Clearing a deleted load test removes every shard status of it from every spoke and leaves
  what is reported for every other load test, in the same order.
\<close>

theorem ClearReplayStatuses_exact:
  "ReplayStatuses ns name (ClearReplayStatuses ns name s) = [] \<and>
   ((ns', name') \<noteq> (ns, name) \<longrightarrow>
     ReplayStatuses ns' name' (ClearReplayStatuses ns name s) = ReplayStatuses ns' name' s)"
  by (simp add: ReplayStatuses_clear)

section \<open>Witnesses\<close>

text \<open>A registry with three spokes in two cells; the last heartbeat of the third is stale.\<close>

definition ex_req :: "string \<Rightarrow> string \<Rightarrow> RegisterSpokeRequest" where
  "ex_req i c = \<lparr>rq_SpokeId = i, rq_ClusterName = i @ ''-cluster'', rq_KubernetesVersion = ''v1.30'',
     rq_Capabilities = [], rq_Cell = c\<rparr>"

definition ex_server :: Server where
  "ex_server = fst (RegisterSpoke None (100 * second) (ex_req ''b'' ''east'')
     (fst (RegisterSpoke None (100 * second) (ex_req ''a'' ''west'')
       (fst (RegisterSpoke None 0 (ex_req ''c'' ''west'') NewServer)))))"

theorem cells_report_witness:
  "mset (sv_spokes (ex_server\<lparr>sv_spokes := rev (sv_spokes ex_server)\<rparr>)) = mset (sv_spokes ex_server) \<and>
   CellStatuses (100 * second) (ex_server\<lparr>sv_spokes := rev (sv_spokes ex_server)\<rparr>) =
     [\<lparr>cl_Name = ''east'', cl_ConnectedSpokes = 1, cl_TotalSpokes = 1, cl_ActiveCaptures = 0, cl_ActiveReplays = 0\<rparr>,
      \<lparr>cl_Name = ''west'', cl_ConnectedSpokes = 1, cl_TotalSpokes = 2, cl_ActiveCaptures = 0, cl_ActiveReplays = 0\<rparr>]"
proof -
  have "CellStatuses (100 * second) ex_server =
     [\<lparr>cl_Name = ''east'', cl_ConnectedSpokes = 1, cl_TotalSpokes = 1, cl_ActiveCaptures = 0, cl_ActiveReplays = 0\<rparr>,
      \<lparr>cl_Name = ''west'', cl_ConnectedSpokes = 1, cl_TotalSpokes = 2, cl_ActiveCaptures = 0, cl_ActiveReplays = 0\<rparr>]"
    by code_simp
  then show ?thesis
    using cells_report [of "ex_server\<lparr>sv_spokes := rev (sv_spokes ex_server)\<rparr>" ex_server "100 * second"]
    by simp
qed

theorem SelectSpokes_correct_witness:
  "gm_ok (sv_spokes ex_server) \<and>
   SelectSpokes (100 * second) [] 0 (ex_server\<lparr>sv_spokes := rev (sv_spokes ex_server)\<rparr>) =
     [\<lparr>sl_SpokeID = ''a'', sl_Cell = ''west''\<rparr>, \<lparr>sl_SpokeID = ''b'', sl_Cell = ''east''\<rparr>]"
proof -
  have ok: "gm_ok (sv_spokes ex_server)" by code_simp
  have "SelectSpokes (100 * second) [] 0 ex_server =
     [\<lparr>sl_SpokeID = ''a'', sl_Cell = ''west''\<rparr>, \<lparr>sl_SpokeID = ''b'', sl_Cell = ''east''\<rparr>]"
    by code_simp
  with ok show ?thesis
    using SelectSpokes_correct [of ex_server "ex_server\<lparr>sv_spokes := rev (sv_spokes ex_server)\<rparr>" "100 * second" "[]" 0]
    by simp
qed

theorem ClearReplayStatuses_exact_witness:
  "ReplayStatuses ''ns'' ''lt'' (ClearReplayStatuses ''ns'' ''lt'' ex_server) = [] \<and>
   ReplayStatuses ''ns'' ''other'' (ClearReplayStatuses ''ns'' ''lt'' ex_server) =
     ReplayStatuses ''ns'' ''other'' ex_server"
  using ClearReplayStatuses_exact [of "''ns''" "''lt''" ex_server "''ns''" "''other''"] by simp

end
