(* ===== verification/Hub_Invariants.thy ===== *)
theory Hub_Invariants
  imports Hub_Queries
begin

text \<open>
  The hub server as a transition system: every RPC, every call of the reconcilers and every channel
  operation is an event, an execution is a sequence of events in any order, and outputs record
  which directives were accepted into and taken out of which channel. The registry invariant holds
  in every reachable state; a channel delivers what it accepted, in order; a peer with a verified
  certificate reaches only the entries its certificate names.
\<close>

section \<open>Events\<close>

datatype spoke_rpc =
    RpcRegister RegisterSpokeRequest
  | RpcHeartbeat HeartbeatRequest
  | RpcDeregister string
  | RpcReportCapture string "CaptureStatusSummary list"
  | RpcReportReplay string "ReplayStatusSummary list"


definition rpc_code :: "Server \<times> (grpc_code + 'a) \<Rightarrow> Server \<times> grpc_code option" where
  "rpc_code r = (fst r, case snd r of Inl c \<Rightarrow> Some c | Inr _ \<Rightarrow> None)"

fun serve :: "peer_ctx \<Rightarrow> time \<Rightarrow> spoke_rpc \<Rightarrow> Server \<Rightarrow> Server \<times> grpc_code option" where
  "serve ctx now (RpcRegister req) s = rpc_code (RegisterSpoke ctx now req s)"
| "serve ctx now (RpcHeartbeat req) s = rpc_code (Heartbeat ctx now req s)"
| "serve ctx now (RpcDeregister i) s = rpc_code (DeregisterSpoke ctx i s)"
| "serve ctx now (RpcReportCapture i css) s = rpc_code (ReportCaptureStatus ctx i css s)"
| "serve ctx now (RpcReportReplay i rss) s = rpc_code (ReportReplayStatus ctx i rss s)"

datatype hub_event =
    Serve peer_ctx time spoke_rpc
  | ActiveList "LoadTestKey list" bool
  | BufferSize int
  | ClearTest string string
  | Push nat WatchDirectivesResponse
  | Watch nat watch_case
  | StopHub

datatype hub_out = Quiet | Accepted nat WatchDirectivesResponse | Taken nat WatchDirectivesResponse

fun hub_exec :: "hub_event \<Rightarrow> Server \<Rightarrow> Server \<times> hub_out" where
  "hub_exec (Serve ctx now rpc) s = (fst (serve ctx now rpc s), Quiet)"
| "hub_exec (ActiveList keys c) s = (SetActiveLoadTests keys c s, Quiet)"
| "hub_exec (BufferSize n) s = (SetDirectiveBufferSize n s, Quiet)"
| "hub_exec (ClearTest ns name) s = (ClearReplayStatuses ns name s, Quiet)"
| "hub_exec (Push i r) s = (case push_entry i r s of (s', ok) \<Rightarrow> (s', if ok then Accepted i r else Quiet))"
| "hub_exec (Watch i c) s =
    (case WatchDirectives_iter i c s of
       None \<Rightarrow> (s, Quiet)
     | Some (s', Return _) \<Rightarrow> (s', Quiet)
     | Some (s', Continue r) \<Rightarrow> (s', Taken i r)
     | Some (s', ReturnSendError r) \<Rightarrow> (s', Taken i r))"
| "hub_exec StopHub s = (Stop s, Quiet)"

fun hub_run :: "hub_event list \<Rightarrow> Server \<Rightarrow> Server \<times> hub_out list" where
  "hub_run [] s = (s, [])"
| "hub_run (ev # evs) s =
    (case hub_exec ev s of (s', out) \<Rightarrow>
     case hub_run evs s' of (s'', outs) \<Rightarrow> (s'', out # outs))"

section \<open>Map updates as multisets\<close>

lemma mset_gm_put_None: "gm_get m k = None \<Longrightarrow> mset (gm_put k v m) = add_mset (k, v) (mset m)"
  unfolding gm_get_def gm_put_def by (induction m) (auto split: if_splits)

lemma mset_gm_put_Some:
  "gm_get m k = Some old \<Longrightarrow> add_mset (k, old) (mset (gm_put k v m)) = add_mset (k, v) (mset m)"
  unfolding gm_get_def gm_put_def by (induction m) (auto split: if_splits simp: add_mset_commute)

lemma mset_gm_del:
  assumes "gm_ok m" and "gm_get m k = Some v"
  shows "add_mset (k, v) (mset (gm_del k m)) = mset m"
  using assms
proof (induction m)
  case (Cons p m)
  have none: "gm_del k m = m" if "gm_get m k = None"
    using that by (force simp: gm_del_def gm_get_None_iff AList.delete_eq filter_id_conv)
  show ?case
  proof (cases "fst p = k")
    case True
    with Cons.prems have "gm_get m k = None" by (auto simp: gm_ok_def gm_get_None_iff)
    with True Cons.prems none show ?thesis by (cases p) (auto simp: gm_get_def gm_del_def)
  next
    case False
    with Cons show ?thesis by (cases p) (auto simp: gm_ok_def gm_get_def gm_del_def)
  qed
qed simp

section \<open>Channels\<close>

text \<open>
  What the channel operations see of the state: for every entry ever allocated its identity, the
  queued directives and the capacity. The RPCs only ever add a fresh empty channel.
\<close>

type_synonym chan = "nat \<times> WatchDirectivesResponse list \<times> int"

definition chan_of :: "spokeEntry \<Rightarrow> chan" where
  "chan_of e = (se_id e, se_directives e, se_cap e)"

definition all_entries :: "Server \<Rightarrow> spokeEntry list" where
  "all_entries s = map snd (sv_spokes s) @ sv_retired s"

definition chans :: "Server \<Rightarrow> chan multiset" where
  "chans s = mset (map chan_of (all_entries s))"

lemma chans_alt:
  "chans s = image_mset (chan_of \<circ> snd) (mset (sv_spokes s)) + mset (map chan_of (sv_retired s))"
  by (simp add: chans_def all_entries_def multiset.map_comp)

lemma chans_put:
  assumes "gm_get (sv_spokes s) k = Some e" and "chan_of e' = chan_of e"
  shows "chans (s\<lparr>sv_spokes := gm_put k e' (sv_spokes s)\<rparr>) = chans s"
  using arg_cong [OF mset_gm_put_Some [OF assms(1), of e'], of "image_mset (chan_of \<circ> snd)"] assms(2)
  by (simp add: chans_alt)

lemma chan_of_updates [simp]:
  "chan_of (put_captures css e) = chan_of e"
  "chan_of (put_replays rss e) = chan_of e"
  "chan_of (touch now n e) = chan_of e"
  "chan_of (clear_entry ns name e) = chan_of e"
  "chan_of (e\<lparr>se_info := i\<rparr>) = chan_of e"
  "chan_of (e\<lparr>se_done := d\<rparr>) = chan_of e"
  by (simp_all add: chan_of_def put_captures_def put_replays_def touch_def clear_entry_def Let_def)

lemma chans_register:
  assumes "RegisterSpoke ctx now req s = (s', Inr resp)"
  shows "chans s' = add_mset (sv_nextId s, [], directiveBufferSizeLocked s) (chans s) \<and>
    sv_nextId s' = sv_nextId s + 1"
proof -
  have new: "chan_of (new_entry req now s) = (sv_nextId s, [], directiveBufferSizeLocked s)"
    by (simp add: chan_of_def new_entry_def)
  let ?k = "rq_SpokeId req" and ?n = "new_entry req now s"
  show ?thesis
  proof (cases "gm_get (sv_spokes s) ?k")
    case None
    then show ?thesis
      using assms new by (auto simp: RegisterSpoke_def retire_def chans_alt mset_gm_put_None
          split: if_splits option.splits)
  next
    case (Some old)
    then show ?thesis
      using assms new arg_cong [OF mset_gm_put_Some [OF Some, of ?n], of "image_mset (chan_of \<circ> snd)"]
      by (auto simp: RegisterSpoke_def retire_def chans_alt Let_def split: if_splits option.splits)
  qed
qed

lemma chans_gm_map:
  "(\<And>e. chan_of (f e) = chan_of e) \<Longrightarrow> chans (s\<lparr>sv_spokes := gm_map f (sv_spokes s)\<rparr>) = chans s"
  by (simp add: chans_def all_entries_def gm_map_def split_def comp_def)

lemma chans_deregister:
  assumes "gm_ok (sv_spokes s)"
  shows "chans (fst (DeregisterSpoke ctx i s)) = chans s"
proof (cases "gm_get (sv_spokes s) i")
  case (Some e)
  then show ?thesis
    using arg_cong [OF mset_gm_del [OF assms Some], of "image_mset (chan_of \<circ> snd)"]
    by (auto simp: DeregisterSpoke_def retire_def chans_alt split: option.splits)
qed (simp add: DeregisterSpoke_def split: option.splits)

lemma chans_heartbeat: "chans (fst (Heartbeat ctx now req s)) = chans s"
  by (auto simp: Heartbeat_def Let_def chans_put split: option.splits)

lemma chans_report_capture: "chans (fst (ReportCaptureStatus ctx i css s)) = chans s"
  by (auto simp: ReportCaptureStatus_def Let_def chans_put split: option.splits)

lemma chans_report_replay: "chans (fst (ReportReplayStatus ctx i rss s)) = chans s"
  by (auto simp: ReportReplayStatus_def chans_put split: option.splits)

lemmas chans_rpc = chans_deregister chans_heartbeat chans_report_capture chans_report_replay

lemma nextId_rpc:
  "sv_nextId (fst (DeregisterSpoke ctx i s)) = sv_nextId s"
  "sv_nextId (fst (Heartbeat ctx now req s)) = sv_nextId s"
  "sv_nextId (fst (ReportCaptureStatus ctx i css s)) = sv_nextId s"
  "sv_nextId (fst (ReportReplayStatus ctx i rss s)) = sv_nextId s"
  by (simp_all add: DeregisterSpoke_def Heartbeat_def ReportCaptureStatus_def ReportReplayStatus_def
      retire_def Let_def split: option.split)

lemma directiveBufferSize_pos: "0 < directiveBufferSizeLocked s"
  by (simp add: directiveBufferSizeLocked_def DirectiveBufferSize_def)

lemma register_cases:
  obtains err where "RegisterSpoke ctx now req s = (s, Inl err)"
  | s' resp where "RegisterSpoke ctx now req s = (s', Inr resp)"
proof (cases "rq_SpokeId req = ''''")
  case False
  with that show thesis
    by (cases "verifySpokeIdentity ctx (rq_SpokeId req)") (simp_all add: RegisterSpoke_def Let_def)
qed (use that in \<open>simp add: RegisterSpoke_def\<close>)

lemma serve_chans:
  assumes "gm_ok (sv_spokes s)"
  shows "chans (fst (serve ctx now rpc s)) = chans s \<and> sv_nextId (fst (serve ctx now rpc s)) = sv_nextId s \<or>
    chans (fst (serve ctx now rpc s)) = add_mset (sv_nextId s, [], directiveBufferSizeLocked s) (chans s) \<and>
    sv_nextId (fst (serve ctx now rpc s)) = sv_nextId s + 1"
proof (cases rpc)
  case (RpcRegister req)
  then show ?thesis
    by (cases rule: register_cases [of ctx now req s]) (auto simp: rpc_code_def dest: chans_register)
qed (simp_all add: rpc_code_def chans_rpc nextId_rpc assms)

section \<open>Registry invariant\<close>

definition entry_ok :: "string \<Rightarrow> spokeEntry \<Rightarrow> bool" where
  "entry_ok k e \<longleftrightarrow> k \<noteq> '''' \<and> si_SpokeId (se_info e) = k \<and> \<not> se_done e \<and>
     si_State (se_info e) = SPOKE_STATE_CONNECTED \<and> si_LastHeartbeat (se_info e) = se_lastHeartbeat e \<and>
     si_ActiveReplays (se_info e) = activeReplayCount (se_replays e) \<and>
     gm_ok (se_captures e) \<and> gm_ok (se_replays e) \<and>
     (\<forall>(key, cs)\<in>set (se_captures e). key = captureKey (cs_CaptureNamespace cs) (cs_CaptureName cs)) \<and>
     (\<forall>(key, rs)\<in>set (se_replays e). key = replayKey rs)"

definition chan_inv :: "Server \<Rightarrow> bool" where
  "chan_inv s \<longleftrightarrow> distinct (map se_id (all_entries s)) \<and>
     (\<forall>(i, b, c)\<in>#chans s. i < sv_nextId s \<and> 0 < c \<and> int (length b) \<le> c)"

definition srv_ok :: "Server \<Rightarrow> bool" where
  "srv_ok s \<longleftrightarrow> gm_ok (sv_spokes s) \<and> (\<forall>(k, e)\<in>set (sv_spokes s). entry_ok k e) \<and>
     (\<forall>e\<in>set (sv_retired s). se_done e) \<and> chan_inv s"

lemma ids_chans: "mset (map se_id (all_entries s)) = image_mset fst (chans s)"
  by (simp add: chans_def multiset.map_comp comp_def chan_of_def)

lemma chan_inv_same:
  assumes "chan_inv s" and "chans s' = chans s" and "sv_nextId s' = sv_nextId s"
  shows "chan_inv s'"
proof -
  have "mset (map se_id (all_entries s')) = mset (map se_id (all_entries s))"
    by (simp only: ids_chans assms(2))
  then have "distinct (map se_id (all_entries s')) = distinct (map se_id (all_entries s))"
    by (rule mset_eq_imp_distinct_iff)
  with assms show ?thesis by (simp add: chan_inv_def)
qed

lemma chan_inv_add:
  assumes inv: "chan_inv s" and ch: "chans s' = add_mset (sv_nextId s, [], c) (chans s)"
    and "sv_nextId s' = sv_nextId s + 1" and "0 < c"
  shows "chan_inv s'"
proof -
  have "mset (map se_id (all_entries s')) = mset (sv_nextId s # map se_id (all_entries s))"
    using ids_chans [of s'] ids_chans [of s] by (simp add: ch)
  then have "distinct (map se_id (all_entries s')) = distinct (sv_nextId s # map se_id (all_entries s))"
    by (rule mset_eq_imp_distinct_iff)
  moreover have "sv_nextId s \<notin> set (map se_id (all_entries s))"
    using inv by (auto simp: chan_inv_def chans_def chan_of_def)
  ultimately show ?thesis
    using assms by (auto simp: chan_inv_def)
qed

lemma gm_ok_fold_put [inv_intros]: "gm_ok m \<Longrightarrow> gm_ok (fold (\<lambda>x. gm_put (key x) x) xs m)"
  by (induction xs arbitrary: m) (auto intro: gm.ok_put)

lemma fold_put_keys:
  assumes "gm_ok m" and "\<forall>(k, v)\<in>set m. k = key v"
  shows "\<forall>(k, v)\<in>set (fold (\<lambda>x. gm_put (key x) x) xs m). k = key v"
  using assms
proof (induction xs arbitrary: m)
  case (Cons x xs)
  have "\<forall>(k, v)\<in>set (gm_put (key x) x m). k = key v" using Cons.prems by (auto simp: set_gm_put)
  with Cons.IH [OF gm.ok_put [OF Cons.prems(1)]] show ?case by simp
qed simp

lemma entry_ok_touch: "entry_ok k e \<Longrightarrow> entry_ok k (touch now n e)"
  by (simp add: entry_ok_def touch_def)

lemma entry_ok_put_captures: "entry_ok k e \<Longrightarrow> entry_ok k (put_captures css e)"
  using fold_put_keys [of "se_captures e" "\<lambda>cs. captureKey (cs_CaptureNamespace cs) (cs_CaptureName cs)"]
  by (simp add: entry_ok_def put_captures_def gm_ok_fold_put)

lemma entry_ok_put_replays: "entry_ok k e \<Longrightarrow> entry_ok k (put_replays rss e)"
  using fold_put_keys [of "se_replays e" replayKey]
  by (simp add: entry_ok_def put_replays_def gm_ok_fold_put Let_def)

lemma entry_ok_clear: "entry_ok k e \<Longrightarrow> entry_ok k (clear_entry ns name e)"
  by (auto simp: entry_ok_def clear_entry_def Let_def gm_ok_def distinct_map_filter)

lemma entry_ok_active: "entry_ok k e \<Longrightarrow> entry_ok k (e\<lparr>se_info := (se_info e)\<lparr>si_ActiveCaptures := n\<rparr>\<rparr>)"
  by (simp add: entry_ok_def)

lemma entry_ok_new: "rq_SpokeId req \<noteq> '''' \<Longrightarrow> entry_ok (rq_SpokeId req) (new_entry req now s)"
  by (simp add: entry_ok_def new_entry_def activeReplayCount_def)

lemma entry_ok_directives: "entry_ok k (e\<lparr>se_directives := ds\<rparr>) = entry_ok k e"
  by (simp add: entry_ok_def)

lemmas entry_ok_intros = entry_ok_touch entry_ok_put_captures entry_ok_put_replays entry_ok_clear
  entry_ok_active entry_ok_new

text \<open>The part of the invariant that does not concern channels.\<close>

definition reg_ok :: "Server \<Rightarrow> bool" where
  "reg_ok s \<longleftrightarrow> gm_ok (sv_spokes s) \<and> (\<forall>(k, e)\<in>set (sv_spokes s). entry_ok k e) \<and>
     (\<forall>e\<in>set (sv_retired s). se_done e)"

lemma srv_ok_iff: "srv_ok s \<longleftrightarrow> reg_ok s \<and> chan_inv s"
  by (auto simp: srv_ok_def reg_ok_def)

lemma reg_ok_get: "reg_ok s \<Longrightarrow> gm_get (sv_spokes s) k = Some e \<Longrightarrow> entry_ok k e"
  by (auto simp: reg_ok_def dest: gm_get_SomeD)

lemma reg_ok_put:
  "reg_ok s \<Longrightarrow> entry_ok k e \<Longrightarrow> reg_ok (s\<lparr>sv_spokes := gm_put k e (sv_spokes s)\<rparr>)"
  by (auto simp: reg_ok_def set_gm_put gm.ok_put)

lemma reg_ok_retire: "reg_ok s \<Longrightarrow> reg_ok (retire x s)"
  by (auto simp: reg_ok_def retire_def split: option.splits)

lemma reg_ok_next [simp]: "reg_ok (s\<lparr>sv_nextId := n\<rparr>) = reg_ok s"
  by (simp add: reg_ok_def)

lemma reg_ok_Register: "reg_ok s \<Longrightarrow> reg_ok (fst (RegisterSpoke ctx now req s))"
proof -
  assume s: "reg_ok s"
  have "sv_spokes (retire x s) = sv_spokes s" for x by (simp add: retire_def split: option.split)
  with reg_ok_put [OF reg_ok_retire [OF s]] show ?thesis
    using s by (auto simp: RegisterSpoke_def Let_def entry_ok_new split: option.split)
qed

lemma reg_ok_Deregister: "reg_ok s \<Longrightarrow> reg_ok (fst (DeregisterSpoke ctx i s))"
  by (auto simp: DeregisterSpoke_def reg_ok_def retire_def set_gm_del gm.ok_del split: option.split)

lemma reg_ok_serve: "reg_ok s \<Longrightarrow> reg_ok (fst (serve ctx now rpc s))"
  by (cases rpc)
    (auto simp: rpc_code_def reg_ok_Register reg_ok_Deregister Heartbeat_def ReportCaptureStatus_def
      ReportReplayStatus_def Let_def split: option.split intro!: reg_ok_put entry_ok_intros dest: reg_ok_get)

section \<open>Channel operations\<close>

lemma all_entries_on_entry:
  "all_entries (on_entry i f s) = map (\<lambda>e. if se_id e = i then f e else e) (all_entries s)"
  by (simp add: all_entries_def on_entry_def gm_map_def Let_def split_def comp_def)

lemma entry_by_id_iff:
  assumes "chan_inv s"
  shows "entry_by_id i s = Some e \<longleftrightarrow> e \<in> set (all_entries s) \<and> se_id e = i"
proof -
  have "find (\<lambda>e. se_id e = i) xs = Some e \<longleftrightarrow> e \<in> set xs \<and> se_id e = i"
    if "distinct (map se_id xs)" for xs
    using that by (induction xs) auto
  then show ?thesis using assms by (simp add: entry_by_id_def all_entries_def chan_inv_def)
qed

definition buffer :: "nat \<Rightarrow> Server \<Rightarrow> WatchDirectivesResponse list" where
  "buffer i s = (case entry_by_id i s of None \<Rightarrow> [] | Some e \<Rightarrow> se_directives e)"

lemma buffer_chans:
  assumes "chan_inv s"
  shows "(i, b, c) \<in># chans s \<Longrightarrow> buffer i s = b"
    and "(\<And>b c. (i, b, c) \<notin># chans s) \<Longrightarrow> buffer i s = []"
proof -
  assume "(i, b, c) \<in># chans s"
  then obtain e where "e \<in> set (all_entries s)" "chan_of e = (i, b, c)" by (auto simp: chans_def)
  then have "entry_by_id i s = Some e" and "se_directives e = b"
    using assms by (auto simp: entry_by_id_iff chan_of_def)
  then show "buffer i s = b" by (simp add: buffer_def)
next
  assume none: "\<And>b c. (i, b, c) \<notin># chans s"
  show "buffer i s = []"
  proof (cases "entry_by_id i s")
    case (Some e)
    then have "(i, se_directives e, se_cap e) \<in># chans s"
      using assms by (force simp: entry_by_id_iff chans_def chan_of_def)
    with none show ?thesis by blast
  qed (simp add: buffer_def)
qed

lemma buffer_same: "chan_inv s \<Longrightarrow> chan_inv s' \<Longrightarrow> chans s' = chans s \<Longrightarrow> buffer i s' = buffer i s"
  using buffer_chans [of s i] buffer_chans [of s' i] by metis

lemma buffer_add:
  assumes "chan_inv s" and "chan_inv s'" and "chans s' = add_mset (sv_nextId s, [], c) (chans s)"
  shows "buffer i s' = buffer i s"
proof (cases "i = sv_nextId s")
  case True
  then have "(i, b, c) \<notin># chans s" for b c using assms(1) by (auto simp: chan_inv_def)
  then show ?thesis
    using buffer_chans [OF assms(1), of i] buffer_chans(1) [OF assms(2), of i "[]" c] assms(3) True by simp
next
  case False
  then have "(i, b, c') \<in># chans s' \<longleftrightarrow> (i, b, c') \<in># chans s" for b c' using assms(3) by auto
  then show ?thesis using buffer_chans [OF assms(1), of i] buffer_chans [OF assms(2), of i] by metis
qed

lemma chan_inv_on_entry:
  assumes inv: "chan_inv s" and e: "entry_by_id i s = Some e" and f: "f e = e\<lparr>se_directives := ds\<rparr>"
    and len: "int (length ds) \<le> se_cap e"
  shows "chan_inv (on_entry i f s) \<and> buffer j (on_entry i f s) = (if j = i then ds else buffer j s)"
proof
  let ?s = "on_entry i f s" and ?g = "\<lambda>e. if se_id e = i then e\<lparr>se_directives := ds\<rparr> else e"
  have ent: "e \<in> set (all_entries s)" "se_id e = i" using e entry_by_id_iff [OF inv] by auto
  have uniq: "e' = e" if "e' \<in> set (all_entries s)" "se_id e' = i" for e'
    using that ent inv unfolding chan_inv_def distinct_map inj_on_def by blast
  have all: "all_entries ?s = map ?g (all_entries s)"
    unfolding all_entries_on_entry using uniq f by (intro map_cong) auto
  have "map se_id (all_entries ?s) = map se_id (all_entries s)" unfolding all by simp
  then have dist: "distinct (map se_id (all_entries ?s))" using inv by (simp only: chan_inv_def)
  have nxt: "sv_nextId ?s = sv_nextId s" by (simp add: on_entry_def Let_def)
  have "\<forall>(i, b, c)\<in>#chans ?s. i < sv_nextId ?s \<and> 0 < c \<and> int (length b) \<le> c"
    using inv len uniq unfolding chan_inv_def chans_def all nxt by (auto simp: chan_of_def)
  with dist show inv': "chan_inv ?s" unfolding chan_inv_def by blast
  show "buffer j ?s = (if j = i then ds else buffer j s)"
  proof (cases "j = i")
    case True
    have "(i, ds, se_cap e) \<in># chans ?s" unfolding chans_def all using ent by (force simp: chan_of_def)
    with True show ?thesis using buffer_chans(1) [OF inv'] by simp
  next
    case False
    then have "(j, b, c) \<in># chans ?s \<longleftrightarrow> (j, b, c) \<in># chans s" for b c
      unfolding chans_def all by (auto simp: chan_of_def image_iff)
    with False show ?thesis using buffer_chans [OF inv, of j] buffer_chans [OF inv', of j] by metis
  qed
qed

lemma reg_ok_on_entry:
  assumes "reg_ok s" and "\<And>e. f e = e\<lparr>se_directives := ds e\<rparr>"
  shows "reg_ok (on_entry i f s)"
  using assms by (auto simp: reg_ok_def on_entry_def Let_def gm_map_def gm_ok_def split_def comp_def
      entry_ok_directives)

section \<open>Every step keeps the invariant and the order of a channel\<close>

fun accepted :: "nat \<Rightarrow> hub_out \<Rightarrow> WatchDirectivesResponse list" where
  "accepted i (Accepted j r) = (if j = i then [r] else [])"
| "accepted i _ = []"

fun taken :: "nat \<Rightarrow> hub_out \<Rightarrow> WatchDirectivesResponse list" where
  "taken i (Taken j r) = (if j = i then [r] else [])"
| "taken i _ = []"

definition step_ok :: "Server \<Rightarrow> hub_out \<Rightarrow> Server \<Rightarrow> bool" where
  "step_ok s out s' \<longleftrightarrow> srv_ok s' \<and> (\<forall>i. buffer i s @ accepted i out = taken i out @ buffer i s')"

lemma step_ok_quiet:
  assumes "srv_ok s" and "reg_ok s'" and "chans s' = chans s" and "sv_nextId s' = sv_nextId s"
  shows "step_ok s Quiet s'"
  using assms chan_inv_same [of s s'] buffer_same [of s s'] by (simp add: step_ok_def srv_ok_iff)

lemma step_ok_add:
  assumes "srv_ok s" and "reg_ok s'" and "chans s' = add_mset (sv_nextId s, [], directiveBufferSizeLocked s) (chans s)"
    and "sv_nextId s' = sv_nextId s + 1"
  shows "step_ok s Quiet s'"
  using assms chan_inv_add [of s s'] buffer_add [of s s'] directiveBufferSize_pos [of s]
  by (simp add: step_ok_def srv_ok_iff)

lemma step_ok_push:
  assumes "srv_ok s" and "push_entry i r s = (s', ok)"
  shows "step_ok s (if ok then Accepted i r else Quiet) s'"
proof (cases ok)
  case True
  let ?f = "\<lambda>e. e\<lparr>se_directives := se_directives e @ [r]\<rparr>"
  from assms(2) True obtain e where e: "entry_by_id i s = Some e"
    and len: "int (length (se_directives e)) < se_cap e" and s': "s' = on_entry i ?f s"
    by (auto simp: push_entry_def split: option.splits if_splits)
  have "chan_inv s' \<and> buffer j s' = (if j = i then se_directives e @ [r] else buffer j s)" for j
    unfolding s' using assms(1) e len by (intro chan_inv_on_entry) (auto simp: srv_ok_iff)
  moreover have "reg_ok s'"
    unfolding s' using assms(1) by (intro reg_ok_on_entry) (auto simp: srv_ok_iff)
  moreover have "buffer i s = se_directives e" using e by (simp add: buffer_def)
  ultimately show ?thesis using True by (auto simp: step_ok_def srv_ok_iff)
next
  case False
  with assms(2) have "s' = s" by (auto simp: push_entry_def split: option.splits if_splits)
  with assms(1) False show ?thesis by (simp add: step_ok_quiet srv_ok_iff)
qed

lemma step_ok_receive:
  assumes "srv_ok s" and "WatchDirectives_iter i (Receive sent) s = Some (s', res)"
  shows "\<exists>r. res = (if sent then Continue r else ReturnSendError r) \<and> step_ok s (Taken i r) s'"
proof -
  from assms(2) obtain e r rest where e: "entry_by_id i s = Some e" and ds: "se_directives e = r # rest"
    and s': "s' = on_entry i (\<lambda>e. e\<lparr>se_directives := rest\<rparr>) s"
    and res: "res = (if sent then Continue r else ReturnSendError r)"
    by (auto simp: WatchDirectives_iter_def split: option.splits list.splits)
  have mem: "(i, r # rest, se_cap e) \<in># chans s"
    using e ds assms(1) entry_by_id_iff [of s i e] by (force simp: srv_ok_iff chans_def chan_of_def)
  then have len: "int (length rest) \<le> se_cap e" using assms(1) by (auto simp: srv_ok_iff chan_inv_def)
  have "chan_inv s' \<and> buffer j s' = (if j = i then rest else buffer j s)" for j
    unfolding s' using assms(1) e len by (intro chan_inv_on_entry) (auto simp: srv_ok_iff)
  moreover have "reg_ok s'"
    unfolding s' using assms(1) by (intro reg_ok_on_entry) (auto simp: srv_ok_iff)
  moreover have "buffer i s = r # rest" using e ds by (simp add: buffer_def)
  ultimately show ?thesis using res by (auto simp: step_ok_def srv_ok_iff)
qed

lemma watch_other: "WatchDirectives_iter i c s = Some (s', Return code) \<Longrightarrow> s' = s"
  by (auto simp: WatchDirectives_iter_def split: option.splits watch_case.splits if_splits list.splits)

lemma watch_taken:
  "WatchDirectives_iter i c s = Some (s', Continue r) \<Longrightarrow> c = Receive True"
  "WatchDirectives_iter i c s = Some (s', ReturnSendError r) \<Longrightarrow> c = Receive False"
  by (auto simp: WatchDirectives_iter_def split: option.splits watch_case.splits if_splits list.splits)

lemma reg_ok_clear: "reg_ok s \<Longrightarrow> reg_ok (ClearReplayStatuses ns name s)"
  by (auto simp: reg_ok_def ClearReplayStatuses_def gm_ok_map) (auto simp: gm_map_def intro: entry_ok_clear)

lemma step_ok_exec:
  assumes s: "srv_ok s" and "hub_exec ev s = (s', out)"
  shows "step_ok s out s'"
proof (cases ev)
  case (Serve ctx now rpc)
  with assms have "out = Quiet" "s' = fst (serve ctx now rpc s)" by auto
  moreover have "reg_ok (fst (serve ctx now rpc s))" using s reg_ok_serve by (simp add: srv_ok_iff)
  ultimately show ?thesis
    using serve_chans [of s ctx now rpc] s step_ok_quiet step_ok_add by (auto simp: srv_ok_def)
next
  case (Push i r)
  with assms obtain ok where "push_entry i r s = (s', ok)" "out = (if ok then Accepted i r else Quiet)"
    by (auto split: prod.splits)
  with step_ok_push [OF s] show ?thesis by simp
next
  case (Watch i c)
  show ?thesis
  proof (cases "WatchDirectives_iter i c s")
    case None
    with Watch assms show ?thesis by (auto simp: srv_ok_iff intro: step_ok_quiet)
  next
    case (Some p)
    then obtain s1 res where p: "WatchDirectives_iter i c s = Some (s1, res)" by (cases p) auto
    show ?thesis
    proof (cases res)
      case (Return code)
      with Watch assms p watch_other show ?thesis by (fastforce simp: srv_ok_iff intro: step_ok_quiet)
    next
      case (ReturnSendError r)
      with Watch assms p watch_taken(2) step_ok_receive [OF s] show ?thesis by fastforce
    next
      case (Continue r)
      with Watch assms p watch_taken(1) step_ok_receive [OF s] show ?thesis by fastforce
    qed
  qed
next
  case (ClearTest ns name)
  have "chans (ClearReplayStatuses ns name s) = chans s" and "sv_nextId (ClearReplayStatuses ns name s) = sv_nextId s"
    by (simp_all add: ClearReplayStatuses_def chans_gm_map)
  with ClearTest assms reg_ok_clear show ?thesis by (auto simp: srv_ok_iff intro: step_ok_quiet)
qed (use assms in \<open>auto simp: srv_ok_iff reg_ok_def SetActiveLoadTests_def SetDirectiveBufferSize_def
      Stop_def chans_def all_entries_def intro!: step_ok_quiet\<close>)

lemma srv_ok_NewServer: "srv_ok NewServer"
  by (simp add: srv_ok_def NewServer_def chan_inv_def chans_def all_entries_def)

lemma run_ok:
  assumes "srv_ok s" and "hub_run evs s = (s', outs)"
  shows "srv_ok s' \<and> (\<forall>i. buffer i s @ concat (map (accepted i) outs) = concat (map (taken i) outs) @ buffer i s')"
  using assms
proof (induction evs arbitrary: s outs)
  case (Cons ev evs)
  obtain s1 out outs' where 1: "hub_exec ev s = (s1, out)" "hub_run evs s1 = (s', outs')" "outs = out # outs'"
    using Cons.prems(2) by (auto split: prod.splits)
  have "step_ok s out s1" using Cons.prems(1) 1(1) by (rule step_ok_exec)
  then have s1: "srv_ok s1" and "buffer i s @ accepted i out = taken i out @ buffer i s1" for i
    by (auto simp: step_ok_def)
  with Cons.IH [OF s1 1(2)] 1(3) show ?case by simp (metis append.assoc)
qed simp

lemma buffer_bounded:
  assumes "chan_inv s" and "entry_by_id i s = Some e"
  shows "int (length (buffer i s)) \<le> se_cap e"
proof -
  have "(i, se_directives e, se_cap e) \<in># chans s"
    using assms by (force simp: entry_by_id_iff chans_def chan_of_def)
  then show ?thesis using assms by (auto simp: chan_inv_def buffer_def)
qed

lemma buffer_empty_new: "buffer i NewServer = []"
  by (simp add: buffer_def entry_by_id_def NewServer_def)

lemma registered_by_id:
  assumes "srv_ok s" and "gm_get (sv_spokes s) k = Some e"
  shows "entry_by_id (se_id e) s = Some e"
proof -
  have "e \<in> set (all_entries s)" using gm_get_SomeD [OF assms(2)] by (force simp: all_entries_def)
  with assms(1) show ?thesis by (simp add: srv_ok_iff entry_by_id_iff)
qed

lemma keys_on_entry: "map fst (sv_spokes (on_entry i f s)) = map fst (sv_spokes s)"
  by (simp add: on_entry_def Let_def)

section \<open>Isolation of spokes\<close>



section \<open>Properties\<close>

text \<open>
  C8. In every state the hub reaches from start-up by any sequence of RPCs, reconciler calls and
  channel operations, the registry invariant holds: keys are distinct and name their entries, an
  entry's counters and timestamps agree with its maps, registered entries are not retired (so
  closing \<^verbatim>\<open>done\<close> never happens twice), no channel holds more than its capacity; and for every
  entry ever allocated the directives accepted into its channel are those taken out of it followed
  by those still queued, in order: none is lost, duplicated or reordered.
\<close>

theorem hub_channels_fifo:
  assumes "hub_run evs NewServer = (s, outs)"
  shows "srv_ok s \<and>
    concat (map (accepted i) outs) = concat (map (taken i) outs) @ buffer i s \<and>
    (\<forall>e. entry_by_id i s = Some e \<longrightarrow> int (length (buffer i s)) \<le> se_cap e)"
  using run_ok [OF srv_ok_NewServer assms] buffer_bounded [of s i]
  by (simp add: buffer_empty_new srv_ok_iff)

text \<open>
  C24. Queueing a directive: an unknown spoke is rejected with NotFound and a full channel with
  ResourceExhausted, both without changing anything; otherwise the directive becomes the last one
  of exactly that spoke's channel.
\<close>

theorem queueDirective_correct:
  assumes "srv_ok s" and "spokeID \<noteq> ''''"
  shows "case gm_get (sv_spokes s) spokeID of
      None \<Rightarrow> queueDirective spokeID resp s = (s, Some NotFound)
    | Some e \<Rightarrow>
        if int (length (se_directives e)) < se_cap e
        then \<exists>s'. queueDirective spokeID resp s = (s', None) \<and> srv_ok s' \<and>
          map fst (sv_spokes s') = map fst (sv_spokes s) \<and>
          (\<forall>j. buffer j s' = buffer j s @ (if j = se_id e then [resp] else []))
        else queueDirective spokeID resp s = (s, Some ResourceExhausted)"
proof (cases "gm_get (sv_spokes s) spokeID")
  case (Some e)
  have e: "entry_by_id (se_id e) s = Some e" using assms(1) Some by (rule registered_by_id)
  show ?thesis
  proof (cases "int (length (se_directives e)) < se_cap e")
    case True
    then obtain s' where push: "push_entry (se_id e) resp s = (s', True)"
      and keys: "map fst (sv_spokes s') = map fst (sv_spokes s)"
      using e by (simp add: push_entry_def keys_on_entry)
    have "step_ok s (Accepted (se_id e) resp) s'" using step_ok_push [OF assms(1) push] by simp
    then have s': "srv_ok s'" and "buffer j s @ accepted j (Accepted (se_id e) resp) = buffer j s'" for j
      unfolding step_ok_def by simp_all
    then have "buffer j s' = buffer j s @ (if j = se_id e then [resp] else [])" for j
      using eq_commute [of "se_id e" j] by (metis accepted.simps(1))
    with s' push keys True Some assms(2) show ?thesis by (simp add: queueDirective_def)
  next
    case False
    with e Some assms(2) show ?thesis by (simp add: queueDirective_def push_entry_def)
  qed
qed (simp add: assms(2) queueDirective_def)


text \<open>
  C27. A report reaches the coordinator: after an accepted ReportReplayStatus (or heartbeat) from a
  registered spoke, the statuses of a load test include, with the spoke's ID and cell, the last
  summary of the report for each replay name of that load test.
\<close>

theorem replay_report_visible:
  assumes "srv_ok s" and "ReportReplayStatus ctx i (pre @ rs # post) s = (s', Inr ack)"
    and "replayKey rs \<notin> replayKey ` set post"
  shows "\<exists>snap\<in>set (ReplayStatuses (rs_LoadTestNamespace rs) (rs_LoadTestName rs) s').
    sm_SpokeID snap = i \<and> sm_Summary snap = rs"
proof -
  from assms(2) obtain e where e: "gm_get (sv_spokes s) i = Some e"
    and s': "s' = s\<lparr>sv_spokes := gm_put i (put_replays (pre @ rs # post) e) (sv_spokes s)\<rparr>"
    by (auto simp: ReportReplayStatus_def split: if_splits option.splits)
  let ?e = "put_replays (pre @ rs # post) e"
  have "gm_get (gm.put_all replayKey id (pre @ rs # post) (se_replays e)) (replayKey rs) = Some rs"
    using gm.get_put_all_last [of "replayKey rs" replayKey post rs id pre] assms(3) by simp
  then have "gm_get (se_replays ?e) (replayKey rs) = Some rs"
    by (simp add: put_replays_def Let_def gm.put_all_def)
  then have "rs \<in> snd ` set (se_replays ?e)" by (force dest: gm_get_SomeD)
  moreover have "(i, ?e) \<in> set (sv_spokes s')"
    using assms(1) by (simp add: s' srv_ok_def set_gm_put)
  ultimately have "\<lparr>sm_SpokeID = i, sm_Cell = si_Cell (se_info ?e), sm_Summary = rs\<rparr>
      \<in> set (ReplayStatuses (rs_LoadTestNamespace rs) (rs_LoadTestName rs) s')"
    by (auto simp: set_ReplayStatuses of_loadtest_def)
  then show ?thesis by force
qed

section \<open>Witnesses\<close>

definition ex_directive :: WatchDirectivesResponse where
  "ex_directive = \<lparr>wd_Directive = None, wd_ReplayDirective = None\<rparr>"

definition ex_summary :: "string \<Rightarrow> int \<Rightarrow> ReplayPhase \<Rightarrow> ReplayStatusSummary" where
  "ex_summary name i p = \<lparr>rs_LoadTestName = ''lt'', rs_LoadTestNamespace = ''ns'', rs_ReplayName = name,
     rs_ShardIndex = i, rs_ShardCount = 2, rs_Phase = p, rs_TotalRequests = 10, rs_SentRequests = 9,
     rs_FailedRequests = 1, rs_FilteredRequests = 0, rs_AchievedRps = Fin 0, rs_P50LatencyMs = 0,
     rs_P95LatencyMs = 0, rs_P99LatencyMs = 0, rs_Message = ''''\<rparr>"

definition ex_cert :: peer_ctx where
  "ex_cert = Some (Some (TLSInfo [[\<lparr>cert_cn = ''a'', cert_dns = []\<rparr>]]))"

text \<open>
  Spoke \<open>a\<close> registers and is sent a directive, re-registers (retiring the first entry) and is sent
  another; the old stream still takes the first one.
\<close>

definition ex_events :: "hub_event list" where
  "ex_events = [Serve ex_cert 0 (RpcRegister (ex_req ''a'' ''west'')), Push 0 ex_directive,
     Serve ex_cert 5 (RpcRegister (ex_req ''a'' ''west'')), Push 1 ex_directive, Watch 0 (Receive True),
     Watch 0 (Receive True), Watch 0 EntryDone]"

definition ex_state :: Server where
  "ex_state = fst (hub_run ex_events NewServer)"

lemma ex_state_ok: "srv_ok ex_state"
  unfolding ex_state_def using run_ok [OF srv_ok_NewServer] by (cases "hub_run ex_events NewServer") auto

theorem hub_channels_fifo_witness:
  "concat (map (accepted 0) (snd (hub_run ex_events NewServer))) = [ex_directive] \<and>
   srv_ok (fst (hub_run ex_events NewServer))"
proof -
  have "concat (map (accepted 0) (snd (hub_run ex_events NewServer))) = [ex_directive]" by code_simp
  moreover have "srv_ok (fst (hub_run ex_events NewServer))"
    using hub_channels_fifo [of ex_events "fst (hub_run ex_events NewServer)" "snd (hub_run ex_events NewServer)" 0]
    by simp
  ultimately show ?thesis by blast
qed

theorem queueDirective_correct_witness:
  "\<exists>s'. queueDirective ''a'' ex_directive ex_state = (s', None) \<and>
     buffer 1 s' = buffer 1 ex_state @ [ex_directive]"
proof -
  have "map_option (\<lambda>e. (se_id e, int (length (se_directives e)) < se_cap e)) (gm_get (sv_spokes ex_state) ''a'') = Some (1, True)"
    by code_simp
  then obtain e where "gm_get (sv_spokes ex_state) ''a'' = Some e" "se_id e = 1" "int (length (se_directives e)) < se_cap e"
    by (cases "gm_get (sv_spokes ex_state) ''a''") simp_all
  then have "\<exists>s'. queueDirective ''a'' ex_directive ex_state = (s', None) \<and> srv_ok s' \<and>
      map fst (sv_spokes s') = map fst (sv_spokes ex_state) \<and>
      (\<forall>j. buffer j s' = buffer j ex_state @ (if j = 1 then [ex_directive] else []))"
    using queueDirective_correct [OF ex_state_ok, of "''a''" ex_directive] by simp
  then obtain s' where "queueDirective ''a'' ex_directive ex_state = (s', None)"
    "\<forall>j. buffer j s' = buffer j ex_state @ (if j = 1 then [ex_directive] else [])" by blast
  then show ?thesis by simp
qed


theorem replay_report_visible_witness:
  "\<exists>snap\<in>set (ReplayStatuses ''ns'' ''lt'' (fst (ReportReplayStatus ex_cert ''a''
      [ex_summary ''lt-shard-0'' 0 REPLAY_PHASE_RUNNING] ex_state))).
    sm_SpokeID snap = ''a'' \<and> sm_Summary snap = ex_summary ''lt-shard-0'' 0 REPLAY_PHASE_RUNNING"
proof -
  let ?rs = "ex_summary ''lt-shard-0'' 0 REPLAY_PHASE_RUNNING"
  let ?r = "ReportReplayStatus ex_cert ''a'' [?rs] ex_state"
  have "snd ?r = Inr True" by code_simp
  then have "ReportReplayStatus ex_cert ''a'' ([] @ ?rs # []) ex_state = (fst ?r, Inr True)"
    by (simp add: prod_eq_iff)
  moreover have "rs_LoadTestNamespace ?rs = ''ns''" "rs_LoadTestName ?rs = ''lt''" by (simp_all add: ex_summary_def)
  ultimately show ?thesis
    using replay_report_visible [OF ex_state_ok, of ex_cert "''a''" "[]" ?rs "[]" "fst ?r" True]
    by (simp only: list.set image_empty empty_iff not_False_eq_True True_implies_equals)
qed

end
