(* ===== verification/Loadtest_Plan.thy ===== *)
theory Loadtest_Plan
  imports Hub_Invariants
begin

text \<open>
  The pure parts of the load test coordinator (\<^verbatim>\<open>internal/hub/loadtest_controller.go\<close>): the plan of
  shards over spokes, the share of the aggregate rate that a shard gets, and the START and STOP
  directives built from a load test.
\<close>

section \<open>Distribution\<close>

definition defaultWorkersPerSpoke :: int where
  "defaultWorkersPerSpoke = 1"

definition defaultConcurrencyPerWorker :: int where
  "defaultConcurrencyPerWorker = 10"

definition defaultAbortMinSample :: int where
  "defaultAbortMinSample = 100"

text \<open>
  The inner loop of \<^verbatim>\<open>planDistribution\<close>: \<open>n\<close> iterations remain, the counter is an int32. A negative
  worker count makes the preceding \<^verbatim>\<open>make\<close> panic, which is the error \<open>MakesliceCap\<close>.
\<close>

datatype plan_error = NoConnectedSpokes | NoSpokesInCells "string list" | MakesliceCap

fun shard_indexes :: "nat \<Rightarrow> int \<Rightarrow> int list \<times> int" where
  "shard_indexes 0 nxt = ([], nxt)"
| "shard_indexes (Suc n) nxt =
    (case shard_indexes n (i32 (nxt + 1)) of (is, nxt') \<Rightarrow> (nxt # is, nxt'))"

fun assign_spokes :: "SpokeSelection list \<Rightarrow> int \<Rightarrow> int \<Rightarrow> LoadTestAssignment list" where
  "assign_spokes [] workers nxt = []"
| "assign_spokes (sel # sels) workers nxt =
    (case shard_indexes (nat workers) nxt of (is, nxt') \<Rightarrow>
      \<lparr>as_SpokeID = sl_SpokeID sel, as_Cell = sl_Cell sel, as_ShardIndexes = is\<rparr>
        # assign_spokes sels workers nxt')"

definition plan_cells :: "CaptureLoadTest \<Rightarrow> string list" where
  "plan_cells lt = (case lts_Distribution (lt_Spec lt) of None \<Rightarrow> [] | Some d \<Rightarrow> ld_Cells d)"

definition plan_maxSpokes :: "CaptureLoadTest \<Rightarrow> int" where
  "plan_maxSpokes lt =
    (case lts_Distribution (lt_Spec lt) of
       None \<Rightarrow> 0
     | Some d \<Rightarrow> (case ld_MaxSpokes d of None \<Rightarrow> 0 | Some m \<Rightarrow> m))"

definition plan_workers :: "CaptureLoadTest \<Rightarrow> int" where
  "plan_workers lt =
    (case lts_Distribution (lt_Spec lt) of
       None \<Rightarrow> defaultWorkersPerSpoke
     | Some d \<Rightarrow> (case ld_WorkersPerSpoke d of None \<Rightarrow> defaultWorkersPerSpoke | Some w \<Rightarrow> w))"

definition planDistribution ::
  "time \<Rightarrow> Server \<Rightarrow> CaptureLoadTest \<Rightarrow> plan_error + LoadTestAssignment list" where
  "planDistribution now srv lt =
    (let spokes = SelectSpokes now (plan_cells lt) (plan_maxSpokes lt) srv
     in if spokes = [] then
          Inl (if plan_cells lt \<noteq> [] then NoSpokesInCells (plan_cells lt) else NoConnectedSpokes)
        else if plan_workers lt < 0 then Inl MakesliceCap
        else Inr (assign_spokes spokes (plan_workers lt) 0))"

definition countShards :: "LoadTestAssignment list \<Rightarrow> int" where
  "countShards assignments =
    foldl (\<lambda>count a. i32 (count + i32 (int (length (as_ShardIndexes a))))) 0 assignments"

definition splitRate :: "int \<Rightarrow> int \<Rightarrow> int \<Rightarrow> int" where
  "splitRate totalRPS shardCount shard =
    (if shardCount \<le> 0 then totalRPS
     else let base = i32 (totalRPS sdiv shardCount);
              base = (if shard < totalRPS smod shardCount then i32 (base + 1) else base)
          in if base < 1 then 1 else base)"

section \<open>Directives\<close>

definition shard_presharded :: "CaptureLoadTest \<Rightarrow> bool" where
  "shard_presharded lt =
    (case lts_Distribution (lt_Spec lt) of None \<Rightarrow> False | Some d \<Rightarrow> ld_Presharded d = Some True)"

definition start_rate :: "CaptureLoadTest \<Rightarrow> int \<Rightarrow> ReplayRate" where
  "start_rate lt shard =
    (case lts_Rate (lt_Spec lt) of
       Some rate \<Rightarrow>
         \<lparr>rr_Mode = rc_Mode rate,
          rr_RequestsPerSecond =
            (if rc_Mode rate = ''Constant'' then
               (case rc_RequestsPerSecond rate of
                  Some rps \<Rightarrow> splitRate rps (lst_TotalShards (lt_Status lt)) shard
                | None \<Rightarrow> 0)
             else 0),
          rr_TimeScale = (case rc_TimeScale rate of Some t \<Rightarrow> t | None \<Rightarrow> '''')\<rparr>
     | None \<Rightarrow> \<lparr>rr_Mode = ''OriginalTiming'', rr_RequestsPerSecond = 0, rr_TimeScale = ''''\<rparr>)"

definition start_filters :: "ReplayFilters \<Rightarrow> ReplayDataFilters" where
  "start_filters f =
    \<lparr>df_StartTime = rf_StartTime f, df_EndTime = rf_EndTime f,
     df_PathPrefix = (case rf_PathPrefix f of Some p \<Rightarrow> p | None \<Rightarrow> ''''),
     df_Methods = rf_Methods f,
     df_Limit = (case rf_Limit f of Some l \<Rightarrow> l | None \<Rightarrow> 0)\<rparr>"

definition buildStartDirective :: "CaptureLoadTest \<Rightarrow> int \<Rightarrow> ReplayDirective" where
  "buildStartDirective lt shard =
    (let spec = lt_Spec lt in
     \<lparr>rd_DirectiveId = lt_Namespace lt @ ''-'' @ lt_Name lt @ ''-shard-'' @ itoa shard,
      rd_Action = REPLAY_ACTION_START,
      rd_LoadTestName = lt_Name lt,
      rd_LoadTestNamespace = lt_Namespace lt,
      rd_Spec = Some
       \<lparr>sp_SourceCapture = lts_SourceRef spec,
        sp_StorageRefName = lts_StorageRef spec,
        sp_TargetHost = rt_Host (lts_Target spec),
        sp_TargetPort = (case rt_Port (lts_Target spec) of Some p \<Rightarrow> p | None \<Rightarrow> 0),
        sp_TargetTls = (case rt_TLS (lts_Target spec) of Some b \<Rightarrow> b | None \<Rightarrow> False),
        sp_Rate = Some (start_rate lt shard),
        sp_Shard = Some \<lparr>sh_Index = shard, sh_Count = lst_TotalShards (lt_Status lt),
          sh_Presharded = shard_presharded lt\<rparr>,
        sp_Concurrency =
          (case lts_Distribution spec of
             Some d \<Rightarrow> (case ld_ConcurrencyPerWorker d of Some c \<Rightarrow> c | None \<Rightarrow> defaultConcurrencyPerWorker)
           | None \<Rightarrow> defaultConcurrencyPerWorker),
        sp_Filters = map_option start_filters (lts_Filters spec),
        sp_EngineName = (case lts_Engine spec of Some e \<Rightarrow> re_Name e | None \<Rightarrow> ''''),
        sp_EngineConfigJson =
          (case lts_Engine spec of
             Some e \<Rightarrow> (case re_Config e of Some c \<Rightarrow> c | None \<Rightarrow> '''')
           | None \<Rightarrow> ''''),
        sp_AllowedHosts = (case lts_Safety spec of Some sf \<Rightarrow> sf_AllowedHosts sf | None \<Rightarrow> [])\<rparr>\<rparr>)"

definition stopDirective :: "CaptureLoadTest \<Rightarrow> ReplayDirective" where
  "stopDirective lt =
    \<lparr>rd_DirectiveId = lt_Namespace lt @ ''-'' @ lt_Name lt @ ''-stop'',
     rd_Action = REPLAY_ACTION_STOP,
     rd_LoadTestName = lt_Name lt, rd_LoadTestNamespace = lt_Namespace lt, rd_Spec = None\<rparr>"

section \<open>The plan is dense\<close>

lemma shard_indexes_eq:
  "0 \<le> a \<Longrightarrow> a + int n < 2 ^ 31 \<Longrightarrow> shard_indexes n a = (map int [nat a..<nat a + n], a + int n)"
proof (induction n arbitrary: a)
  case (Suc n)
  have wrap: "i32 (a + 1) = a + 1" using Suc.prems by (intro i32_id) (simp add: in_i32_def)
  have "shard_indexes n (a + 1) = (map int [nat (a + 1)..<nat (a + 1) + n], a + 1 + int n)"
    using Suc.prems by (intro Suc.IH) auto
  moreover have "nat (a + 1) = Suc (nat a)" using Suc.prems by simp
  moreover have "map int [nat a..<nat a + Suc n] = a # map int [Suc (nat a)..<Suc (nat a) + n]"
    using Suc.prems by (simp add: upt_conv_Cons)
  ultimately show ?case by (simp add: wrap)
qed simp

lemma assign_spokes_shards:
  assumes "0 \<le> a" and "0 \<le> w" and "a + w * int (length sels) < 2 ^ 31"
  shows "concat (map as_ShardIndexes (assign_spokes sels w a)) =
      map int [nat a..<nat a + nat w * length sels] \<and>
    map as_SpokeID (assign_spokes sels w a) = map sl_SpokeID sels \<and>
    map as_Cell (assign_spokes sels w a) = map sl_Cell sels \<and>
    (\<forall>asg\<in>set (assign_spokes sels w a). length (as_ShardIndexes asg) = nat w)"
  using assms
proof (induction sels arbitrary: a)
  case (Cons sel sels)
  have bound: "a + w + w * int (length sels) < 2 ^ 31" using Cons.prems by (simp add: algebra_simps)
  then have "a + w < 2 ^ 31"
    using Cons.prems(2) mult_nonneg_nonneg [of w "int (length sels)"] by linarith
  then have idx: "shard_indexes (nat w) a = (map int [nat a..<nat a + nat w], a + w)"
    using shard_indexes_eq [of a "nat w"] Cons.prems by simp
  have IH: "concat (map as_ShardIndexes (assign_spokes sels w (a + w))) =
      map int [nat (a + w)..<nat (a + w) + nat w * length sels] \<and>
    map as_SpokeID (assign_spokes sels w (a + w)) = map sl_SpokeID sels \<and>
    map as_Cell (assign_spokes sels w (a + w)) = map sl_Cell sels \<and>
    (\<forall>asg\<in>set (assign_spokes sels w (a + w)). length (as_ShardIndexes asg) = nat w)"
    using Cons.prems bound by (intro Cons.IH) auto
  have "nat (a + w) = nat a + nat w" using Cons.prems by (simp add: nat_add_distrib)
  then have "[nat a..<nat a + nat w] @ [nat (a + w)..<nat (a + w) + nat w * length sels] =
      [nat a..<nat a + nat w * length (sel # sels)]"
    using upt_add_eq_append [of "nat a" "nat a + nat w" "nat w * length sels"] by (simp add: algebra_simps)
  with IH idx show ?case by (simp flip: map_append)
qed simp

lemma countShards_eq: "countShards xs = i32 (\<Sum>a\<leftarrow>xs. int (length (as_ShardIndexes a)))"
proof -
  have "countShards xs = foldl (\<lambda>c a. i32 (c + int (length (as_ShardIndexes a)))) (i32 0) xs"
    by (simp add: countShards_def)
  then show ?thesis by (simp only: foldl_i32_sum) simp
qed

section \<open>Rate split\<close>

lemma sum_split_remainder:
  fixes q :: int
  assumes "0 \<le> r" and "r \<le> int n"
  shows "(\<Sum>i<n. if int i < r then q + 1 else q) = int n * q + r"
proof -
  have "(\<Sum>i<n. if int i < r then q + 1 else q) = (\<Sum>i<n. q) + (\<Sum>i<n. if int i < r then 1 else 0)"
    by (subst sum.distrib [symmetric]) (rule sum.cong, auto)
  also have "(\<Sum>i<n. if int i < r then 1 else 0 :: int) = (\<Sum>i\<in>{..<n} \<inter> {i. int i < r}. 1)"
    by (simp add: sum.If_cases)
  also have "{..<n} \<inter> {i. int i < r} = {..<nat r}" using assms by auto
  finally show ?thesis using assms by simp
qed

lemma splitRate_nonneg:
  assumes "0 \<le> t" and "t < 2 ^ 31 - 1" and "0 < n"
  shows "splitRate t n i = max 1 (if i < t mod n then t div n + 1 else t div n)"
proof -
  have "t sdiv n = t div n" and "t smod n = t mod n"
    using assms by (cases "t = 0"; simp add: signed_divide_int_def signed_modulo_int_def)+
  moreover have "t div n \<le> t" using assms zdiv_mono2 [of t 1 n] by simp
  moreover have "0 \<le> t div n" using assms by (simp add: pos_imp_zdiv_nonneg_iff)
  ultimately show ?thesis
    using assms by (simp add: splitRate_def Let_def i32_id in_i32_def max_def)
qed

lemma length_shard_indexes: "length (fst (shard_indexes n a)) = n"
  by (induction n arbitrary: a) (simp_all add: split_def)

lemma sum_assign_spokes:
  "(\<Sum>a\<leftarrow>assign_spokes sels w a0. int (length (as_ShardIndexes a))) = int (nat w) * int (length sels)"
proof (induction sels arbitrary: a0)
  case (Cons sel sels)
  then show ?case
    using length_shard_indexes [of "nat w" a0]
    by (cases "shard_indexes (nat w) a0") (simp add: algebra_simps)
qed simp

lemma planDistribution_InrD:
  assumes "planDistribution now srv lt = Inr asgs"
  shows "asgs = assign_spokes (SelectSpokes now (plan_cells lt) (plan_maxSpokes lt) srv) (plan_workers lt) 0 \<and>
    0 \<le> plan_workers lt \<and> SelectSpokes now (plan_cells lt) (plan_maxSpokes lt) srv \<noteq> []"
  using assms by (auto simp: planDistribution_def Let_def split: if_splits)

lemma assign_spokes_ids:
  "map as_SpokeID (assign_spokes sels w a) = map sl_SpokeID sels"
  "map as_Cell (assign_spokes sels w a) = map sl_Cell sels"
  by (induction sels arbitrary: a) (auto split: prod.splits)

section \<open>Properties\<close>

text \<open>
  C22. A plan is dense: as long as the shard indexes fit an int32, the indexes handed out, read in
  the order of the assignments, are exactly \<open>0, 1, ..., n - 1\<close> for the recorded total \<open>n\<close>, so every
  shard of the split has one spoke and no index is out of range; the spokes are distinct, in
  ascending order, and each is registered, fresh and in a wanted cell.
\<close>

theorem plan_dense:
  assumes "gm_ok (sv_spokes srv)" and "planDistribution now srv lt = Inr asgs"
    and "(\<Sum>a\<leftarrow>asgs. int (length (as_ShardIndexes a))) < 2 ^ 31"
  shows "concat (map as_ShardIndexes asgs) = map int [0..<nat (countShards asgs)] \<and>
    asgs \<noteq> [] \<and> sorted_wrt (<) (map as_SpokeID asgs) \<and>
    (\<forall>a\<in>set asgs. \<exists>e. (as_SpokeID a, e) \<in> set (sv_spokes srv) \<and> as_Cell a = si_Cell (se_info e) \<and>
       eligible now (plan_cells lt) e)"
proof -
  let ?sels = "SelectSpokes now (plan_cells lt) (plan_maxSpokes lt) srv" and ?w = "plan_workers lt"
  have asgs: "asgs = assign_spokes ?sels ?w 0" and w: "0 \<le> ?w" and ne: "?sels \<noteq> []"
    using planDistribution_InrD [OF assms(2)] by auto
  have total: "(\<Sum>a\<leftarrow>asgs. int (length (as_ShardIndexes a))) = ?w * int (length ?sels)"
    using w by (simp add: asgs sum_assign_spokes)
  then have small: "?w * int (length ?sels) < 2 ^ 31" and nn: "0 \<le> ?w * int (length ?sels)"
    using assms(3) w by simp_all
  then have count: "countShards asgs = ?w * int (length ?sels)"
    by (simp add: countShards_eq total i32_id in_i32_def)
  have "concat (map as_ShardIndexes asgs) = map int [0..<nat ?w * length ?sels]"
    using assign_spokes_shards [of 0 ?w ?sels] small w by (simp add: asgs)
  moreover have "nat (countShards asgs) = nat ?w * length ?sels" using w by (simp add: count nat_mult_distrib)
  moreover have ids: "map as_SpokeID asgs = map sl_SpokeID ?sels" "map as_Cell asgs = map sl_Cell ?sels"
    by (simp_all add: asgs assign_spokes_ids)
  moreover have "sorted_wrt (<) (map sl_SpokeID ?sels)"
    using assms(1) by (rule SelectSpokes_strict)
  moreover have "\<exists>e. (as_SpokeID a, e) \<in> set (sv_spokes srv) \<and> as_Cell a = si_Cell (se_info e) \<and> eligible now (plan_cells lt) e"
    if "a \<in> set asgs" for a
  proof -
    from that have "(as_SpokeID a, as_Cell a) \<in> set (zip (map as_SpokeID asgs) (map as_Cell asgs))"
      by (simp add: zip_map_map zip_same_conv_map)
    then obtain sel where sel: "sel \<in> set ?sels" "as_SpokeID a = sl_SpokeID sel" "as_Cell a = sl_Cell sel"
      unfolding ids by (auto simp: zip_map_map zip_same_conv_map)
    with SelectSpokes_eligible [OF sel(1)] show ?thesis by auto
  qed
  ultimately show ?thesis using ne by (auto simp: asgs)
qed

text \<open>
  C35. The shard rates of a constant-rate load test add up to the configured aggregate when the
  aggregate is at least the shard count; each shard gets the integer share, the lowest-indexed
  ones one more. With fewer requests per second than shards the floor of one request per second
  lifts the total to the shard count.
\<close>

theorem splitRate_total:
  assumes "0 \<le> t" and "t < 2 ^ 31 - 1" and "0 < n"
  shows "(\<Sum>i<n. splitRate t (int n) (int i)) = max t (int n)"
proof (cases "int n \<le> t")
  case True
  have "1 \<le> t div int n" using True assms by (simp add: pos_imp_zdiv_pos_iff int_one_le_iff_zero_less)
  then have "splitRate t (int n) (int i) = (if int i < t mod int n then t div int n + 1 else t div int n)" for i
    using splitRate_nonneg [of t "int n" "int i"] assms by simp
  then have "(\<Sum>i<n. splitRate t (int n) (int i)) = int n * (t div int n) + t mod int n"
    using sum_split_remainder [of "t mod int n" n "t div int n"] assms by (simp add: less_imp_le)
  with True show ?thesis by simp
next
  case False
  then have "t div int n = 0" using assms by (simp add: div_pos_pos_trivial)
  then have "splitRate t (int n) (int i) = 1" for i
    using splitRate_nonneg [of t "int n" "int i"] assms by simp
  with False show ?thesis by simp
qed

theorem splitRate_total_witness:
  "(\<Sum>i<3. splitRate 100 (int 3) (int i)) = 100 \<and> (\<Sum>i<3. splitRate 2 (int 3) (int i)) = 3"
  using splitRate_total [of 100 3] splitRate_total [of 2 3] by simp

text \<open>A constant-rate load test with two workers per spoke.\<close>

definition ex_lt :: CaptureLoadTest where
  "ex_lt = \<lparr>lt_Namespace = ''ns'', lt_Name = ''lt'', lt_Finalizers = [], lt_DeletionTimestamp = None,
     lt_Spec = \<lparr>lts_SourceRef = ''capture'', lts_StorageRef = ''bucket'',
       lts_Target = \<lparr>rt_Host = ''api.staging.internal'', rt_Port = Some 8080, rt_TLS = None\<rparr>,
       lts_Rate = Some \<lparr>rc_Mode = ''Constant'', rc_RequestsPerSecond = Some 100, rc_TimeScale = None\<rparr>,
       lts_Filters = None,
       lts_Distribution = Some \<lparr>ld_Cells = [], ld_MaxSpokes = None, ld_WorkersPerSpoke = Some 2,
         ld_ConcurrencyPerWorker = None, ld_Presharded = None\<rparr>,
       lts_Abort = Some \<lparr>la_MaxDuration = None, la_ErrorPercent = Some 5, la_MinSampleRequests = None\<rparr>,
       lts_Engine = None, lts_Safety = Some \<lparr>sf_AllowedHosts = [''*.staging.internal'']\<rparr>\<rparr>,
     lt_Status = \<lparr>lst_Phase = LoadTestPhaseNone, lst_StartTime = None, lst_CompletionTime = None,
       lst_TotalShards = 0, lst_AssignedSpokes = 0, lst_Assignments = [], lst_Cells = [],
       lst_TotalRequests = 0, lst_SentRequests = 0, lst_FailedRequests = 0, lst_FilteredRequests = 0,
       lst_CompletedShards = 0, lst_FailedShards = 0, lst_AchievedRPS = None, lst_Conditions = []\<rparr>\<rparr>"

definition ex_plan :: "LoadTestAssignment list" where
  "ex_plan = [\<lparr>as_SpokeID = ''a'', as_Cell = ''west'', as_ShardIndexes = [0, 1]\<rparr>,
     \<lparr>as_SpokeID = ''b'', as_Cell = ''east'', as_ShardIndexes = [2, 3]\<rparr>]"

theorem plan_dense_witness:
  "planDistribution (100 * second) ex_server ex_lt = Inr ex_plan \<and>
   concat (map as_ShardIndexes ex_plan) = map int [0..<nat (countShards ex_plan)] \<and>
   countShards ex_plan = 4"
proof -
  have "gm_ok (sv_spokes ex_server)" by code_simp
  moreover have p: "planDistribution (100 * second) ex_server ex_lt = Inr ex_plan" by code_simp
  moreover have "(\<Sum>a\<leftarrow>ex_plan. int (length (as_ShardIndexes a))) < 2 ^ 31" by (simp add: ex_plan_def)
  moreover have "countShards ex_plan = 4" by code_simp
  ultimately show ?thesis using plan_dense [of ex_server "100 * second" ex_lt ex_plan] by blast
qed

end
