(* ===== verification/Loadtest_Controller.thy ===== *)
theory Loadtest_Controller
  imports Loadtest_Plan
begin

text \<open>
  The CaptureLoadTest reconciler of the hub (\<^verbatim>\<open>internal/hub/loadtest_controller.go\<close>): aggregation of
  shard statuses, the abort policy, the STOP fan-out and the whole \<^verbatim>\<open>Reconcile\<close>. The Kubernetes
  client and the helpers of its libraries are the record \<open>lt_env\<close>: reading the resource, the two
  kinds of write (each returns the stored object or an error), \<^verbatim>\<open>meta.SetStatusCondition\<close> and the
  finalizer functions of \<^verbatim>\<open>controllerutil\<close>. The state \<^typ>\<open>'w\<close> of the API server is threaded through.
  One clock reading serves a whole call, and the hub server is not changed by others during it.
  Condition messages and log lines are left out; an event is its type and reason.
\<close>

section \<open>Environment\<close>

datatype k8s_error = K8sNotFound | K8sConflict | K8sOther

record 'w lt_env =
  le_get :: "'w \<Rightarrow> string \<Rightarrow> string \<Rightarrow> k8s_error + CaptureLoadTest"
  le_update :: "'w \<Rightarrow> CaptureLoadTest \<Rightarrow> 'w \<times> (k8s_error + CaptureLoadTest)"
  le_status_update :: "'w \<Rightarrow> CaptureLoadTest \<Rightarrow> 'w \<times> (k8s_error + CaptureLoadTest)"
  le_set_condition :: "Condition list \<Rightarrow> Condition \<Rightarrow> Condition list"
  le_contains_finalizer :: "string list \<Rightarrow> string \<Rightarrow> bool"
  le_add_finalizer :: "string list \<Rightarrow> string \<Rightarrow> string list"
  le_remove_finalizer :: "string list \<Rightarrow> string \<Rightarrow> string list"
  le_RequeueInterval :: duration

datatype lt_result = ResErr k8s_error | ResDone | ResRequeueAfter duration | ResPanic

datatype lt_event = NormalEvent string | WarningEvent string

type_synonym 'w lt_outcome = "'w \<times> Server option \<times> lt_event list \<times> lt_result"

definition LoadTestFinalizer :: string where
  "LoadTestFinalizer = ''capture.gateway.io/loadtest-cleanup''"

definition defaultLoadTestRequeue :: duration where
  "defaultLoadTestRequeue = 10 * second"

definition requeueInterval :: "'w lt_env \<Rightarrow> duration" where
  "requeueInterval env = (if 0 < le_RequeueInterval env then le_RequeueInterval env else defaultLoadTestRequeue)"

definition set_cond :: "'w lt_env \<Rightarrow> string \<Rightarrow> bool \<Rightarrow> string \<Rightarrow> CaptureLoadTestStatus \<Rightarrow> CaptureLoadTestStatus" where
  "set_cond env ty st reason status =
    status\<lparr>lst_Conditions := le_set_condition env (lst_Conditions status)
      \<lparr>mc_Type = ty, mc_Status = st, mc_Reason = reason\<rparr>\<rparr>"

section \<open>Aggregation\<close>

definition status_sum :: "(ReplayStatusSummary \<Rightarrow> int) \<Rightarrow> ReplayStatusSnapshot list \<Rightarrow> int" where
  "status_sum f statuses = foldl (\<lambda>acc snap. i64 (acc + f (sm_Summary snap))) 0 statuses"

definition phase_count :: "ReplayPhase \<Rightarrow> ReplayStatusSnapshot list \<Rightarrow> int" where
  "phase_count p statuses =
    foldl (\<lambda>c snap. if rs_Phase (sm_Summary snap) = p then i32 (c + 1) else c) 0 statuses"

definition rps_sum :: "ReplayStatusSnapshot list \<Rightarrow> f64" where
  "rps_sum statuses = foldl (\<lambda>acc snap. f_add acc (rs_AchievedRps (sm_Summary snap))) (Fin 0) statuses"

definition cell_totals_step ::
  "LoadTestAssignment \<Rightarrow> (string, LoadTestCellStatus) gomap \<Rightarrow> (string, LoadTestCellStatus) gomap" where
  "cell_totals_step a totals =
    (case gm_get totals (as_Cell a) of
       None \<Rightarrow> gm_put (as_Cell a)
         \<lparr>lc_Name = as_Cell a, lc_Spokes = 1, lc_Shards = i32 (int (length (as_ShardIndexes a))),
          lc_SentRequests = 0, lc_FailedRequests = 0\<rparr> totals
     | Some cell \<Rightarrow> gm_put (as_Cell a)
         (cell\<lparr>lc_Spokes := i32 (lc_Spokes cell + 1),
               lc_Shards := i32 (lc_Shards cell + i32 (int (length (as_ShardIndexes a))))\<rparr>) totals)"

text \<open>A Go map lookup of an absent key yields the zero value, here the empty cell name.\<close>

definition cell_requests_step ::
  "(string, string) gomap \<Rightarrow> ReplayStatusSnapshot \<Rightarrow> (string, LoadTestCellStatus) gomap \<Rightarrow>
    (string, LoadTestCellStatus) gomap" where
  "cell_requests_step spokeCells snap totals =
    (let cellName = (case gm_get spokeCells (sm_SpokeID snap) of Some c \<Rightarrow> c | None \<Rightarrow> '''') in
     gm_adjust cellName (\<lambda>cell. cell\<lparr>
       lc_SentRequests := i64 (lc_SentRequests cell + rs_SentRequests (sm_Summary snap)),
       lc_FailedRequests := i64 (lc_FailedRequests cell + rs_FailedRequests (sm_Summary snap))\<rparr>) totals)"

fun collect_cells ::
  "LoadTestAssignment list \<Rightarrow> (string, LoadTestCellStatus) gomap \<Rightarrow> LoadTestCellStatus list" where
  "collect_cells [] totals = []"
| "collect_cells (a # as) totals =
    (case gm_get totals (as_Cell a) of
       Some cell \<Rightarrow> cell # collect_cells as (gm_del (as_Cell a) totals)
     | None \<Rightarrow> collect_cells as totals)"

definition cell_statuses ::
  "LoadTestAssignment list \<Rightarrow> ReplayStatusSnapshot list \<Rightarrow> LoadTestCellStatus list" where
  "cell_statuses assignments statuses =
    (let totals = fold cell_totals_step assignments [];
         spokeCells = fold (\<lambda>a. gm_put (as_SpokeID a) (as_Cell a)) assignments [];
         totals = fold (cell_requests_step spokeCells) statuses totals
     in collect_cells assignments totals)"

definition finish :: "time \<Rightarrow> CaptureLoadTestPhase \<Rightarrow> CaptureLoadTestStatus \<Rightarrow> CaptureLoadTestStatus" where
  "finish now phase st =
    st\<lparr>lst_Phase := phase,
       lst_CompletionTime := (case lst_CompletionTime st of None \<Rightarrow> Some now | Some t \<Rightarrow> Some t)\<rparr>"

definition aggregate ::
  "time \<Rightarrow> CaptureLoadTest \<Rightarrow> ReplayStatusSnapshot list \<Rightarrow> CaptureLoadTest \<times> lt_event list" where
  "aggregate now lt statuses =
    (let completed = phase_count REPLAY_PHASE_COMPLETED statuses;
         failedShards = phase_count REPLAY_PHASE_FAILED statuses;
         running = phase_count REPLAY_PHASE_RUNNING statuses;
         rps = rps_sum statuses;
         st = (lt_Status lt)\<lparr>
           lst_TotalRequests := status_sum rs_TotalRequests statuses,
           lst_SentRequests := status_sum rs_SentRequests statuses,
           lst_FailedRequests := status_sum rs_FailedRequests statuses,
           lst_FilteredRequests := status_sum rs_FilteredRequests statuses,
           lst_CompletedShards := completed,
           lst_FailedShards := failedShards,
           lst_AchievedRPS := (if f_less (Fin 0) rps then Some (format_f1 rps) else lst_AchievedRPS (lt_Status lt)),
           lst_Cells := cell_statuses (lst_Assignments (lt_Status lt)) statuses\<rparr>;
         totalShards = lst_TotalShards st
     in if 0 < totalShards \<and> completed = totalShards then
          (lt\<lparr>lt_Status := finish now LoadTestPhaseCompleted st\<rparr>,
           if lst_Phase st \<noteq> LoadTestPhaseCompleted then [NormalEvent ''Completed''] else [])
        else if 0 < totalShards \<and> i32 (completed + failedShards) = totalShards then
          (lt\<lparr>lt_Status := finish now LoadTestPhaseFailed st\<rparr>,
           if lst_Phase st \<noteq> LoadTestPhaseFailed then [WarningEvent ''ShardsFailed''] else [])
        else if 0 < running \<or> 0 < completed \<or> 0 < failedShards then
          (lt\<lparr>lt_Status := st\<lparr>lst_Phase := LoadTestPhaseRunning\<rparr>\<rparr>, [])
        else (lt\<lparr>lt_Status := st\<rparr>, []))"

section \<open>Abort policy\<close>

datatype abort_reason = MaxDurationExceeded | ErrorRateExceeded

definition error_percent :: "int \<Rightarrow> int \<Rightarrow> f64" where
  "error_percent failed attempted = f_div (f_mul (f_of_int failed) (Fin 100)) (f_of_int attempted)"

definition error_rate_exceeded :: "LoadTestAbortPolicy \<Rightarrow> CaptureLoadTestStatus \<Rightarrow> bool" where
  "error_rate_exceeded policy st =
    (case la_ErrorPercent policy of
       None \<Rightarrow> False
     | Some percent \<Rightarrow>
         let minSample = (case la_MinSampleRequests policy of Some m \<Rightarrow> m | None \<Rightarrow> defaultAbortMinSample);
             attempted = i64 (lst_SentRequests st + lst_FailedRequests st)
         in minSample \<le> attempted \<and>
            f_less (f_of_int percent) (error_percent (lst_FailedRequests st) attempted))"

definition shouldAbort :: "time \<Rightarrow> CaptureLoadTest \<Rightarrow> abort_reason option" where
  "shouldAbort now lt =
    (case lts_Abort (lt_Spec lt) of
       None \<Rightarrow> None
     | Some policy \<Rightarrow>
         if lst_Phase (lt_Status lt) \<noteq> LoadTestPhaseDistributing \<and> lst_Phase (lt_Status lt) \<noteq> LoadTestPhaseRunning
         then None
         else if (case (la_MaxDuration policy, lst_StartTime (lt_Status lt)) of
                    (Some d, Some t) \<Rightarrow> d < time_sub now t
                  | _ \<Rightarrow> False)
         then Some MaxDurationExceeded
         else if error_rate_exceeded policy (lt_Status lt) then Some ErrorRateExceeded
         else None)"

section \<open>Sending directives\<close>

fun stop_loop :: "LoadTestAssignment list \<Rightarrow> ReplayDirective \<Rightarrow> Server \<Rightarrow> bool \<Rightarrow> Server \<times> bool" where
  "stop_loop [] d srv allDelivered = (srv, allDelivered)"
| "stop_loop (a # as) d srv allDelivered =
    (case SendReplayDirective (as_SpokeID a) (Some d) srv of
       (srv', None) \<Rightarrow> stop_loop as d srv' allDelivered
     | (srv', Some code) \<Rightarrow>
         if code = NotFound then stop_loop as d srv' allDelivered else stop_loop as d srv' False)"

definition stopAllShards :: "Server \<Rightarrow> CaptureLoadTest \<Rightarrow> Server \<times> bool" where
  "stopAllShards srv lt = stop_loop (lst_Assignments (lt_Status lt)) (stopDirective lt) srv True"

fun start_shards :: "CaptureLoadTest \<Rightarrow> int list \<Rightarrow> string \<Rightarrow> int list \<Rightarrow> Server \<Rightarrow> Server" where
  "start_shards lt reported spoke [] srv = srv"
| "start_shards lt reported spoke (shard # shards) srv =
    (if shard \<in> set reported then start_shards lt reported spoke shards srv
     else start_shards lt reported spoke shards
       (fst (SendReplayDirective spoke (Some (buildStartDirective lt shard)) srv)))"

fun start_loop :: "CaptureLoadTest \<Rightarrow> int list \<Rightarrow> LoadTestAssignment list \<Rightarrow> Server \<Rightarrow> Server" where
  "start_loop lt reported [] srv = srv"
| "start_loop lt reported (a # as) srv =
    start_loop lt reported as (start_shards lt reported (as_SpokeID a) (as_ShardIndexes a) srv)"

section \<open>Reconcile\<close>

definition finish_status ::
  "'w lt_env \<Rightarrow> 'w \<Rightarrow> Server option \<Rightarrow> CaptureLoadTest \<Rightarrow> lt_event list \<Rightarrow> lt_result \<Rightarrow> 'w lt_outcome" where
  "finish_status env w srv lt evs res =
    (case le_status_update env w lt of
       (w', Inl err) \<Rightarrow> (w', srv, evs, ResErr err)
     | (w', Inr _) \<Rightarrow> (w', srv, evs, res))"

definition is_terminal :: "CaptureLoadTestPhase \<Rightarrow> bool" where
  "is_terminal p \<longleftrightarrow> p = LoadTestPhaseCompleted \<or> p = LoadTestPhaseFailed \<or> p = LoadTestPhaseAborted"

definition reconcile_delete :: "'w lt_env \<Rightarrow> Server option \<Rightarrow> CaptureLoadTest \<Rightarrow> 'w \<Rightarrow> 'w lt_outcome" where
  "reconcile_delete env srv lt w =
    (if le_contains_finalizer env (lt_Finalizers lt) LoadTestFinalizer then
       let release = \<lambda>srv'.
             (case le_update env w (lt\<lparr>lt_Finalizers := le_remove_finalizer env (lt_Finalizers lt) LoadTestFinalizer\<rparr>) of
                (w', Inl err) \<Rightarrow> (w', srv', [], ResErr err)
              | (w', Inr _) \<Rightarrow> (w', srv', [], ResDone))
       in (case srv of
             None \<Rightarrow> release None
           | Some s \<Rightarrow>
               (case stopAllShards s lt of
                  (s', False) \<Rightarrow> (w, Some s', [], ResRequeueAfter (requeueInterval env))
                | (s', True) \<Rightarrow> release (Some (ClearReplayStatuses (lt_Namespace lt) (lt_Name lt) s'))))
     else (w, srv, [], ResDone))"

definition reconcile_run ::
  "'w lt_env \<Rightarrow> time \<Rightarrow> Server \<Rightarrow> CaptureLoadTest \<Rightarrow> 'w \<Rightarrow> lt_event list \<Rightarrow> 'w lt_outcome" where
  "reconcile_run env now srv lt w evs =
    (let statuses = ReplayStatuses (lt_Namespace lt) (lt_Name lt) srv;
         reported = map (\<lambda>snap. rs_ShardIndex (sm_Summary snap)) statuses;
         srv1 = start_loop lt reported (lst_Assignments (lt_Status lt)) srv;
         (lt1, evs1) = aggregate now lt statuses
     in case shouldAbort now lt1 of
       Some reason \<Rightarrow>
         (case stopAllShards srv1 lt1 of
            (srv2, False) \<Rightarrow>
              finish_status env w (Some srv2)
                (lt1\<lparr>lt_Status := set_cond env ''Aborted'' False ''AbortInProgress'' (lt_Status lt1)\<rparr>)
                (evs @ evs1) (ResRequeueAfter (requeueInterval env))
          | (srv2, True) \<Rightarrow>
              finish_status env w (Some srv2)
                (lt1\<lparr>lt_Status := set_cond env ''Aborted'' True ''AbortPolicy''
                  ((lt_Status lt1)\<lparr>lst_Phase := LoadTestPhaseAborted, lst_CompletionTime := Some now\<rparr>)\<rparr>)
                (evs @ evs1 @ [WarningEvent ''Aborted'']) ResDone)
     | None \<Rightarrow>
         (case le_status_update env w lt1 of
            (w', Inl err) \<Rightarrow> (w', Some srv1, evs @ evs1, ResErr err)
          | (w', Inr lt2) \<Rightarrow>
              (w', Some srv1, evs @ evs1,
               if lst_Phase (lt_Status lt2) = LoadTestPhaseCompleted \<or> lst_Phase (lt_Status lt2) = LoadTestPhaseFailed
               then ResDone else ResRequeueAfter (requeueInterval env))))"

definition record_plan :: "'w lt_env \<Rightarrow> time \<Rightarrow> LoadTestAssignment list \<Rightarrow> CaptureLoadTest \<Rightarrow> CaptureLoadTest" where
  "record_plan env now planned lt =
    lt\<lparr>lt_Status := set_cond env ''SpokesAssigned'' True ''SpokesAssigned''
      ((lt_Status lt)\<lparr>lst_Phase := LoadTestPhaseDistributing, lst_StartTime := Some now,
         lst_Assignments := planned, lst_AssignedSpokes := i32 (int (length planned)),
         lst_TotalShards := countShards planned\<rparr>)\<rparr>"

definition reconcile_active ::
  "'w lt_env \<Rightarrow> time \<Rightarrow> Server \<Rightarrow> CaptureLoadTest \<Rightarrow> 'w \<Rightarrow> 'w lt_outcome" where
  "reconcile_active env now srv lt w =
    (if lst_Assignments (lt_Status lt) = [] then
       (case planDistribution now srv lt of
          Inl MakesliceCap \<Rightarrow> (w, Some srv, [], ResPanic)
        | Inl _ \<Rightarrow>
            finish_status env w (Some srv)
              (lt\<lparr>lt_Status := set_cond env ''SpokesAssigned'' False ''NoEligibleSpokes''
                ((lt_Status lt)\<lparr>lst_Phase := LoadTestPhasePending\<rparr>)\<rparr>)
              [] (ResRequeueAfter (requeueInterval env))
        | Inr planned \<Rightarrow>
            (case le_status_update env w (record_plan env now planned lt) of
               (w', Inl err) \<Rightarrow> (w', Some srv, [NormalEvent ''ShardsDistributed''], ResErr err)
             | (w', Inr lt') \<Rightarrow> reconcile_run env now srv lt' w' [NormalEvent ''ShardsDistributed'']))
     else reconcile_run env now srv lt w [])"

definition target_denied :: "CaptureLoadTest \<Rightarrow> bool" where
  "target_denied lt =
    (case lts_Safety (lt_Spec lt) of
       None \<Rightarrow> False
     | Some sf \<Rightarrow> \<not> HostAllowed (rt_Host (lts_Target (lt_Spec lt))) (sf_AllowedHosts sf))"

definition reconcile_live ::
  "'w lt_env \<Rightarrow> time \<Rightarrow> Server option \<Rightarrow> CaptureLoadTest \<Rightarrow> 'w \<Rightarrow> 'w lt_outcome" where
  "reconcile_live env now srv lt w =
    (if is_terminal (lst_Phase (lt_Status lt)) then (w, srv, [], ResDone)
     else if target_denied lt then
       finish_status env w srv
         (lt\<lparr>lt_Status := set_cond env ''TargetAllowed'' False ''TargetDenied''
           ((lt_Status lt)\<lparr>lst_Phase := LoadTestPhaseFailed\<rparr>)\<rparr>)
         [WarningEvent ''TargetDenied''] ResDone
     else case srv of
       None \<Rightarrow>
         finish_status env w None
           (lt\<lparr>lt_Status := set_cond env ''SpokesAssigned'' False ''HubNotReady''
             ((lt_Status lt)\<lparr>lst_Phase := LoadTestPhasePending\<rparr>)\<rparr>)
           [] (ResRequeueAfter (requeueInterval env))
     | Some s \<Rightarrow> reconcile_active env now s lt w)"

definition Reconcile ::
  "'w lt_env \<Rightarrow> time \<Rightarrow> string \<Rightarrow> string \<Rightarrow> Server option \<Rightarrow> 'w \<Rightarrow> 'w lt_outcome" where
  "Reconcile env now ns name srv w =
    (case le_get env w ns name of
       Inl K8sNotFound \<Rightarrow> (w, srv, [], ResDone)
     | Inl err \<Rightarrow> (w, srv, [], ResErr err)
     | Inr lt \<Rightarrow>
         if \<not> (lt_DeletionTimestamp lt = None \<or> lt_DeletionTimestamp lt = Some 0)
         then reconcile_delete env srv lt w
         else if le_contains_finalizer env (lt_Finalizers lt) LoadTestFinalizer
         then reconcile_live env now srv lt w
         else (case le_update env w (lt\<lparr>lt_Finalizers := le_add_finalizer env (lt_Finalizers lt) LoadTestFinalizer\<rparr>) of
                 (w', Inl err) \<Rightarrow> (w', srv, [], ResErr err)
               | (w', Inr lt') \<Rightarrow> reconcile_live env now srv lt' w'))"

end
