(* ===== verification/Loadtest_Lemmas.thy ===== *)
theory Loadtest_Lemmas
  imports Loadtest_Controller
begin

text \<open>
  Correctness of the load test coordinator. What it relies on of the hub server is the locale
  \<open>directive_sender\<close>, proved for the server's \<open>SendReplayDirective\<close>; what it relies on of the
  Kubernetes API is the predicate \<open>lt_env_laws\<close>.
\<close>

section \<open>The sending interface\<close>

locale directive_sender =
  fixes send :: "string \<Rightarrow> 'd option \<Rightarrow> 's \<Rightarrow> 's \<times> grpc_code option"
    and queue :: "'s \<Rightarrow> string \<Rightarrow> 'm list option"
    and wrap :: "'d \<Rightarrow> 'm"
    and ok :: "'s \<Rightarrow> bool"
  assumes send_accepted: "ok s \<Longrightarrow> send i (Some d) s = (s', None) \<Longrightarrow>
      ok s' \<and> queue s i \<noteq> None \<and>
      queue s' j = (if j = i then map_option (\<lambda>q. q @ [wrap d]) (queue s j) else queue s j)"
    and send_rejected: "ok s \<Longrightarrow> send i (Some d) s = (s', Some c) \<Longrightarrow> s' = s"
    and send_unknown: "ok s \<Longrightarrow> send i (Some d) s = (s', Some NotFound) \<Longrightarrow> queue s i = None"
begin

primrec send_all :: "(string \<times> 'd) list \<Rightarrow> 's \<Rightarrow> 's \<times> (string \<times> 'd \<times> grpc_code option) list" where
  "send_all [] s = (s, [])"
| "send_all (x # xs) s =
    (case send (fst x) (Some (snd x)) s of (s', c) \<Rightarrow>
     case send_all xs s' of (s'', lg) \<Rightarrow> (s'', (fst x, snd x, c) # lg))"

definition delivered_to :: "string \<Rightarrow> (string \<times> 'd \<times> grpc_code option) list \<Rightarrow> 'm list" where
  "delivered_to j lg = map (\<lambda>(_, d, _). wrap d) (filter (\<lambda>(i, _, c). i = j \<and> c = None) lg)"

lemma send_any:
  assumes "ok s" and "send i (Some d) s = (s', c)"
  shows "ok s' \<and> queue s' j = map_option (\<lambda>q. q @ delivered_to j [(i, d, c)]) (queue s j) \<and>
    (c = Some NotFound \<longrightarrow> queue s i = None)"
proof (cases c)
  case None
  with assms send_accepted [of s i d s' j] show ?thesis
    by (auto simp: delivered_to_def option.map_ident)
next
  case (Some code)
  then have "s' = s" using assms send_rejected by blast
  moreover have "c = Some NotFound \<Longrightarrow> queue s i = None" using assms send_unknown by blast
  ultimately show ?thesis using assms(1) Some by (simp add: delivered_to_def option.map_ident)
qed

lemma send_all_queue:
  assumes "ok s" and "send_all xs s = (s', lg)"
  shows "ok s' \<and> queue s' j = map_option (\<lambda>q. q @ delivered_to j lg) (queue s j) \<and>
    map (\<lambda>(i, d, _). (i, d)) lg = xs"
  using assms
proof (induction xs arbitrary: s lg)
  case Nil
  then show ?case by (simp add: delivered_to_def option.map_ident)
next
  case (Cons x xs)
  obtain s1 c lg' where 1: "send (fst x) (Some (snd x)) s = (s1, c)" "send_all xs s1 = (s', lg')"
    and lg: "lg = (fst x, snd x, c) # lg'"
    using Cons.prems(2) by (auto split: prod.splits)
  have s1: "ok s1" "queue s1 j = map_option (\<lambda>q. q @ delivered_to j [(fst x, snd x, c)]) (queue s j)"
    using send_any [OF Cons.prems(1) 1(1), of j] by auto
  have "delivered_to j lg = delivered_to j [(fst x, snd x, c)] @ delivered_to j lg'"
    by (simp add: lg delivered_to_def)
  then show ?case
    using Cons.IH [OF s1(1) 1(2)] s1(2) by (simp add: lg option.map_comp comp_def)
qed

text \<open>When no send failed other than for an unknown receiver, every receiver known has its message.\<close>

lemma send_all_delivered:
  assumes "ok s" and "send_all xs s = (s', lg)" and "\<forall>(_, _, c)\<in>set lg. c = None \<or> c = Some NotFound"
    and "(i, d) \<in> set xs"
  shows "queue s' i = None \<or> (\<exists>q. queue s' i = Some q \<and> wrap d \<in> set q)"
proof -
  have q: "queue s' i = map_option (\<lambda>q. q @ delivered_to i lg) (queue s i)" and "map (\<lambda>(i, d, _). (i, d)) lg = xs"
    using send_all_queue [OF assms(1,2)] by auto
  then obtain c where "(i, d, c) \<in> set lg" using assms(4) by force
  moreover have "queue s i = None" if "(i, d, Some NotFound) \<in> set lg"
    using assms(1,2) that
  proof (induction xs arbitrary: s lg)
    case (Cons x xs)
    obtain s1 c lg' where 1: "send (fst x) (Some (snd x)) s = (s1, c)" "send_all xs s1 = (s', lg')"
      and lg: "lg = (fst x, snd x, c) # lg'"
      using Cons.prems(2) by (auto split: prod.splits)
    have s1: "ok s1" "queue s1 i = map_option (\<lambda>q. q @ delivered_to i [(fst x, snd x, c)]) (queue s i)"
      and nf: "c = Some NotFound \<longrightarrow> queue s (fst x) = None"
      using send_any [OF Cons.prems(1) 1(1), of i] by auto
    show ?case
      using Cons.prems(3) Cons.IH [OF s1(1) 1(2)] s1(2) nf by (auto simp: lg)
  qed simp
  ultimately have "queue s i = None \<or> (i, d, None) \<in> set lg" using assms(3) by fastforce
  then show ?thesis
    using q by (cases "queue s i") (force simp: delivered_to_def)+
qed

end

section \<open>The hub server implements it\<close>

definition spoke_queue :: "Server \<Rightarrow> string \<Rightarrow> WatchDirectivesResponse list option" where
  "spoke_queue s i = map_option se_directives (gm_get (sv_spokes s) i)"

definition replay_msg :: "ReplayDirective \<Rightarrow> WatchDirectivesResponse" where
  "replay_msg d = \<lparr>wd_Directive = None, wd_ReplayDirective = Some d\<rparr>"

lemma gm_get_on_entry:
  "gm_get (sv_spokes (on_entry n f s)) j = map_option (\<lambda>e. if se_id e = n then f e else e) (gm_get (sv_spokes s) j)"
  by (simp add: on_entry_def Let_def gm_get_map)

lemma registered_ids_distinct:
  assumes "srv_ok s" and "gm_get (sv_spokes s) i = Some e" and "gm_get (sv_spokes s) j = Some e'"
    and "se_id e = se_id e'"
  shows "i = j"
proof -
  have "e = e'"
    using registered_by_id [OF assms(1,2)] registered_by_id [OF assms(1,3)] assms(4) by (metis option.inject)
  moreover have "entry_ok i e" "entry_ok j e'" using assms(1-3) reg_ok_get by (auto simp: srv_ok_iff)
  ultimately show ?thesis by (simp add: entry_ok_def)
qed

lemma queueDirective_unfold:
  "queueDirective i r s =
    (if i = '''' then (s, Some InvalidArgument)
     else case gm_get (sv_spokes s) i of
       None \<Rightarrow> (s, Some NotFound)
     | Some e \<Rightarrow>
         if snd (push_entry (se_id e) r s) then (fst (push_entry (se_id e) r s), None)
         else (s, Some ResourceExhausted))"
proof -
  have "snd (push_entry n r s) \<or> fst (push_entry n r s) = s" for n
    by (simp add: push_entry_def split: option.split)
  then show ?thesis
    by (auto simp: queueDirective_def split_def split: option.split bool.split)
qed

lemma queueDirective_accepted:
  assumes "srv_ok s" and "queueDirective i r s = (s', None)"
  obtains e where "gm_get (sv_spokes s) i = Some e"
    and "s' = on_entry (se_id e) (\<lambda>e. e\<lparr>se_directives := se_directives e @ [r]\<rparr>) s" and "srv_ok s'"
proof -
  have i: "i \<noteq> ''''" using assms(2) by (auto simp: queueDirective_unfold)
  obtain e where e: "gm_get (sv_spokes s) i = Some e"
    using assms(2) i by (cases "gm_get (sv_spokes s) i") (simp_all add: queueDirective_unfold)
  have p: "push_entry (se_id e) r s = (s', True)"
    using assms(2) i e by (cases "push_entry (se_id e) r s") (simp add: queueDirective_unfold split: if_splits)
  have "srv_ok s'" using step_ok_push [OF assms(1) p] by (simp add: step_ok_def)
  moreover have "s' = on_entry (se_id e) (\<lambda>e. e\<lparr>se_directives := se_directives e @ [r]\<rparr>) s"
    using p unfolding push_entry_def by (simp split: option.splits if_splits)
  ultimately show thesis using that e by blast
qed

lemma queueDirective_rejected: "queueDirective i r s = (s', Some c) \<Longrightarrow> s' = s"
  by (auto simp: queueDirective_unfold split: if_splits option.splits)

lemma spoke_queue_accepted:
  assumes ok: "srv_ok s" and acc: "queueDirective i r s = (s', None)"
  shows "srv_ok s' \<and> spoke_queue s i \<noteq> None \<and>
    spoke_queue s' j = (if j = i then map_option (\<lambda>q. q @ [r]) (spoke_queue s j) else spoke_queue s j)"
proof -
  obtain e where e: "gm_get (sv_spokes s) i = Some e"
    and s': "s' = on_entry (se_id e) (\<lambda>e. e\<lparr>se_directives := se_directives e @ [r]\<rparr>) s" and ok': "srv_ok s'"
    using ok acc by (rule queueDirective_accepted)
  have "spoke_queue s' j = (if j = i then map_option (\<lambda>q. q @ [r]) (spoke_queue s j) else spoke_queue s j)"
  proof (cases "gm_get (sv_spokes s) j")
    case None
    then show ?thesis by (auto simp: spoke_queue_def s' gm_get_on_entry)
  next
    case (Some e')
    have "se_id e' = se_id e \<longleftrightarrow> j = i" using registered_ids_distinct [OF ok Some e] Some e by auto
    then show ?thesis using Some by (auto simp: spoke_queue_def s' gm_get_on_entry)
  qed
  with e ok' show ?thesis by (simp add: spoke_queue_def)
qed

lemma SendReplayDirective_queue: "SendReplayDirective i (Some d) s = queueDirective i (replay_msg d) s"
  by (simp add: SendReplayDirective_def replay_msg_def)

lemma spoke_queue_unknown: "queueDirective i r s = (s', Some NotFound) \<Longrightarrow> spoke_queue s i = None"
  by (cases "gm_get (sv_spokes s) i") (simp_all add: queueDirective_unfold spoke_queue_def split: if_splits)

interpretation hub: directive_sender SendReplayDirective spoke_queue replay_msg srv_ok
  by (unfold_locales, unfold SendReplayDirective_queue)
    (assumption | rule spoke_queue_accepted queueDirective_rejected spoke_queue_unknown)+

section \<open>The loops of the reconciler are uses of it\<close>

definition send_ok :: "string \<times> ReplayDirective \<times> grpc_code option \<Rightarrow> bool" where
  "send_ok x \<longleftrightarrow> snd (snd x) = None \<or> snd (snd x) = Some NotFound"

lemma stop_loop_send_all:
  "stop_loop as d srv b =
    (case hub.send_all (map (\<lambda>a. (as_SpokeID a, d)) as) srv of (srv', lg) \<Rightarrow> (srv', b \<and> list_all send_ok lg))"
proof (induction as arbitrary: srv b)
  case (Cons a as)
  obtain s1 c where 1: "SendReplayDirective (as_SpokeID a) (Some d) srv = (s1, c)" by fastforce
  show ?case
    using Cons by (cases c) (auto simp: 1 send_ok_def split: prod.splits)
qed simp

lemma start_shards_send_all:
  "start_shards lt reported spoke shards srv =
    fst (hub.send_all (map (\<lambda>shard. (spoke, buildStartDirective lt shard))
      (filter (\<lambda>shard. shard \<notin> set reported) shards)) srv)"
  by (induction shards arbitrary: srv) (simp_all add: split_def)

lemma send_all_append:
  "hub.send_all (xs @ ys) srv =
    (case hub.send_all xs srv of (s1, l1) \<Rightarrow> case hub.send_all ys s1 of (s2, l2) \<Rightarrow> (s2, l1 @ l2))"
  by (induction xs arbitrary: srv) (simp_all add: split_def)

definition start_list :: "CaptureLoadTest \<Rightarrow> int list \<Rightarrow> LoadTestAssignment list \<Rightarrow> (string \<times> ReplayDirective) list" where
  "start_list lt reported as =
    concat (map (\<lambda>a. map (\<lambda>shard. (as_SpokeID a, buildStartDirective lt shard))
      (filter (\<lambda>shard. shard \<notin> set reported) (as_ShardIndexes a))) as)"

lemma start_loop_send_all: "start_loop lt reported as srv = fst (hub.send_all (start_list lt reported as) srv)"
proof (induction as arbitrary: srv)
  case (Cons a as)
  then show ?case by (simp add: start_list_def start_shards_send_all send_all_append split_def)
qed (simp add: start_list_def)

lemma stop_all_sound:
  assumes "srv_ok s" and "stopAllShards s lt = (s', delivered)"
  shows "srv_ok s' \<and> (delivered \<longrightarrow> (\<forall>a\<in>set (lst_Assignments (lt_Status lt)).
    spoke_queue s' (as_SpokeID a) = None \<or>
    (\<exists>q. spoke_queue s' (as_SpokeID a) = Some q \<and> replay_msg (stopDirective lt) \<in> set q)))"
proof -
  let ?xs = "map (\<lambda>a. (as_SpokeID a, stopDirective lt)) (lst_Assignments (lt_Status lt))"
  obtain lg where lg: "hub.send_all ?xs s = (s', lg)" and del: "delivered = list_all send_ok lg"
    using assms(2) by (auto simp: stopAllShards_def stop_loop_send_all split: prod.splits)
  have "spoke_queue s' (as_SpokeID a) = None \<or>
      (\<exists>q. spoke_queue s' (as_SpokeID a) = Some q \<and> replay_msg (stopDirective lt) \<in> set q)"
    if "delivered" and "a \<in> set (lst_Assignments (lt_Status lt))" for a
    using that by (intro hub.send_all_delivered [OF assms(1) lg])
      (auto simp: del list_all_iff send_ok_def)
  with hub.send_all_queue [OF assms(1) lg] show ?thesis by blast
qed

lemma send_all_sends:
  assumes "srv_ok s" and "hub.send_all xs s = (s', lg)"
  obtains ds where "spoke_queue s' i = map_option (\<lambda>q. q @ ds) (spoke_queue s i)"
    and "\<forall>m\<in>set ds. \<exists>d. (i, d) \<in> set xs \<and> m = replay_msg d"
proof (rule that)
  show "spoke_queue s' i = map_option (\<lambda>q. q @ hub.delivered_to i lg) (spoke_queue s i)"
    using hub.send_all_queue [OF assms, of i] by blast
  show "\<forall>m\<in>set (hub.delivered_to i lg). \<exists>d. (i, d) \<in> set xs \<and> m = replay_msg d"
    using hub.send_all_queue [OF assms, of i] by (force simp: hub.delivered_to_def)
qed

end
