(* ===== verification/Loadtest_Props.thy ===== *)
theory Loadtest_Props
  imports Loadtest_Lemmas
begin

text \<open>
  The properties of the load test coordinator: what it sends, when it may call a run aborted or
  completed, when it releases the finalizer, the arithmetic of the error threshold, and that
  denied targets and finished runs cause no work.
\<close>

section \<open>What the coordinator relies on of the API server\<close>

text \<open>
  Documented behaviour of the client. A read returns the object of that name. A write succeeds only
  on the version of the object that was read (otherwise it is a conflict), so a successful write
  returns and stores the object as written: with its status for a status write, with its metadata
  for a plain write, which leaves the stored status alone. A write that reports an error may or may
  not have taken effect (the reply of a write that took effect can be lost).
\<close>

definition same_object :: "CaptureLoadTest \<Rightarrow> CaptureLoadTest \<Rightarrow> bool" where
  "same_object lt lt' \<longleftrightarrow> lt_Namespace lt' = lt_Namespace lt \<and> lt_Name lt' = lt_Name lt \<and>
     lt_Spec lt' = lt_Spec lt \<and> lt_Status lt' = lt_Status lt"

definition get_returns_named :: "'w lt_env \<Rightarrow> bool" where
  "get_returns_named env \<longleftrightarrow> (\<forall>w ns name lt. le_get env w ns name = Inr lt \<longrightarrow>
     lt_Namespace lt = ns \<and> lt_Name lt = name)"

definition status_write_stored :: "'w lt_env \<Rightarrow> bool" where
  "status_write_stored env \<longleftrightarrow> (\<forall>w lt w' lt'. le_status_update env w lt = (w', Inr lt') \<longrightarrow>
     same_object lt lt' \<and> le_get env w' (lt_Namespace lt) (lt_Name lt) = Inr lt')"

definition status_error_ambiguous :: "'w lt_env \<Rightarrow> bool" where
  "status_error_ambiguous env \<longleftrightarrow> (\<forall>w lt w' err. le_status_update env w lt = (w', Inl err) \<longrightarrow>
     le_get env w' (lt_Namespace lt) (lt_Name lt) = le_get env w (lt_Namespace lt) (lt_Name lt) \<or>
     (\<exists>lt'. same_object lt lt' \<and> le_get env w' (lt_Namespace lt) (lt_Name lt) = Inr lt'))"

definition update_echoes :: "'w lt_env \<Rightarrow> bool" where
  "update_echoes env \<longleftrightarrow> (\<forall>w lt w' lt'. le_update env w lt = (w', Inr lt') \<longrightarrow>
     same_object lt lt' \<and> lt_Finalizers lt' = lt_Finalizers lt)"

definition update_keeps_status :: "'w lt_env \<Rightarrow> bool" where
  "update_keeps_status env \<longleftrightarrow> (\<forall>w lt w' r ltx. le_update env w lt = (w', r) \<longrightarrow>
     le_get env w' (lt_Namespace lt) (lt_Name lt) = Inr ltx \<longrightarrow>
     (\<exists>lt0. le_get env w (lt_Namespace lt) (lt_Name lt) = Inr lt0 \<and> lt_Status ltx = lt_Status lt0))"

definition lt_env_laws :: "'w lt_env \<Rightarrow> bool" where
  "lt_env_laws env \<longleftrightarrow> get_returns_named env \<and> status_write_stored env \<and> status_error_ambiguous env \<and>
     update_echoes env \<and> update_keeps_status env"

lemma law_get: "lt_env_laws env \<Longrightarrow> le_get env w ns name = Inr lt \<Longrightarrow> lt_Namespace lt = ns \<and> lt_Name lt = name"
  by (simp add: lt_env_laws_def get_returns_named_def)

lemma law_status_ok:
  "lt_env_laws env \<Longrightarrow> le_status_update env w lt = (w', Inr lt') \<Longrightarrow>
    same_object lt lt' \<and> le_get env w' (lt_Namespace lt) (lt_Name lt) = Inr lt'"
  by (simp add: lt_env_laws_def status_write_stored_def)

lemma law_status_err:
  "lt_env_laws env \<Longrightarrow> le_status_update env w lt = (w', Inl err) \<Longrightarrow>
    le_get env w' (lt_Namespace lt) (lt_Name lt) = le_get env w (lt_Namespace lt) (lt_Name lt) \<or>
    (\<exists>lt'. same_object lt lt' \<and> le_get env w' (lt_Namespace lt) (lt_Name lt) = Inr lt')"
  by (simp add: lt_env_laws_def status_error_ambiguous_def)

lemma law_update_ok:
  "lt_env_laws env \<Longrightarrow> le_update env w lt = (w', Inr lt') \<Longrightarrow>
    same_object lt lt' \<and> lt_Finalizers lt' = lt_Finalizers lt"
  by (simp add: lt_env_laws_def update_echoes_def)

lemma law_update_status:
  "lt_env_laws env \<Longrightarrow> le_update env w lt = (w', r) \<Longrightarrow>
    le_get env w' (lt_Namespace lt) (lt_Name lt) = Inr ltx \<Longrightarrow>
    \<exists>lt0. le_get env w (lt_Namespace lt) (lt_Name lt) = Inr lt0 \<and> lt_Status ltx = lt_Status lt0"
  unfolding lt_env_laws_def update_keeps_status_def by metis

text \<open>The status stored for a load test, and what one status write can do to it.\<close>

definition stored :: "'w lt_env \<Rightarrow> 'w \<Rightarrow> string \<Rightarrow> string \<Rightarrow> CaptureLoadTestStatus option" where
  "stored env w ns name = (case le_get env w ns name of Inl _ \<Rightarrow> None | Inr lt \<Rightarrow> Some (lt_Status lt))"

lemma stored_status_update:
  assumes "lt_env_laws env" and "le_status_update env w lt = (w', r)"
  shows "stored env w' (lt_Namespace lt) (lt_Name lt) \<in>
    {stored env w (lt_Namespace lt) (lt_Name lt), Some (lt_Status lt)}"
proof (cases r)
  case (Inl err)
  with law_status_err [of env w lt w' err] assms show ?thesis
    by (auto simp: stored_def same_object_def)
next
  case (Inr lt')
  with law_status_ok [of env w lt w' lt'] assms show ?thesis
    by (auto simp: stored_def same_object_def)
qed

lemma stored_update:
  assumes "lt_env_laws env" and "le_update env w lt = (w', r)"
    and "stored env w' (lt_Namespace lt) (lt_Name lt) = Some st"
  shows "stored env w (lt_Namespace lt) (lt_Name lt) = Some st"
  using assms law_update_status [of env w lt w' r] by (auto simp: stored_def split: sum.splits)

lemma stored_finish_status:
  assumes "lt_env_laws env" and "finish_status env w srv lt evs res = (w', srv', evs', res')"
  shows "srv' = srv \<and> stored env w' (lt_Namespace lt) (lt_Name lt) \<in>
    {stored env w (lt_Namespace lt) (lt_Name lt), Some (lt_Status lt)}"
proof -
  obtain w1 r where 1: "le_status_update env w lt = (w1, r)" by fastforce
  then have "w' = w1" and "srv' = srv" using assms(2) by (auto simp: finish_status_def split: sum.splits)
  with stored_status_update [OF assms(1) 1] show ?thesis by simp
qed

section \<open>Shape of an aggregation\<close>

lemma aggregate_frame:
  assumes "aggregate now lt statuses = (lt1, evs)"
  shows "lt_Namespace lt1 = lt_Namespace lt \<and> lt_Name lt1 = lt_Name lt \<and> lt_Spec lt1 = lt_Spec lt \<and>
    lst_Assignments (lt_Status lt1) = lst_Assignments (lt_Status lt) \<and>
    lst_TotalShards (lt_Status lt1) = lst_TotalShards (lt_Status lt) \<and>
    lst_StartTime (lt_Status lt1) = lst_StartTime (lt_Status lt)"
  using assms unfolding aggregate_def Let_def
  by (simp split: if_splits add: finish_def) (auto simp: finish_def)

lemma aggregate_not_aborted:
  assumes "aggregate now lt statuses = (lt1, evs)" and "lst_Phase (lt_Status lt) \<noteq> LoadTestPhaseAborted"
  shows "lst_Phase (lt_Status lt1) \<noteq> LoadTestPhaseAborted"
  using assms unfolding aggregate_def Let_def by (auto simp: finish_def split: if_splits)

lemma stopDirective_frame:
  "lt_Namespace lt1 = lt_Namespace lt \<Longrightarrow> lt_Name lt1 = lt_Name lt \<Longrightarrow> stopDirective lt1 = stopDirective lt"
  by (simp add: stopDirective_def)

section \<open>Aborting\<close>

definition stop_queued :: "Server \<Rightarrow> LoadTestAssignment list \<Rightarrow> CaptureLoadTest \<Rightarrow> bool" where
  "stop_queued s asgs lt \<longleftrightarrow> (\<forall>a\<in>set asgs. spoke_queue s (as_SpokeID a) = None \<or>
     (\<exists>q. spoke_queue s (as_SpokeID a) = Some q \<and> replay_msg (stopDirective lt) \<in> set q))"

lemma set_cond_simps [simp]:
  "lst_Phase (set_cond env ty b r st) = lst_Phase st"
  "lst_Assignments (set_cond env ty b r st) = lst_Assignments st"
  by (simp_all add: set_cond_def)

lemma srv_ok_start_loop: "srv_ok s \<Longrightarrow> srv_ok (start_loop lt reported as s)"
  unfolding start_loop_send_all
  using hub.send_all_queue [of s "start_list lt reported as"]
  by (cases "hub.send_all (start_list lt reported as) s") auto

lemma stopAllShards_stop_queued:
  assumes "srv_ok s" and "stopAllShards s lt1 = (s', True)" and "lt_Namespace lt1 = lt_Namespace lt"
    and "lt_Name lt1 = lt_Name lt" and "lst_Assignments (lt_Status lt1) = asgs"
  shows "stop_queued s' asgs lt"
  using stop_all_sound [OF assms(1,2)] stopDirective_frame [OF assms(3,4)] assms(5)
  by (simp add: stop_queued_def)

lemma shouldAbort_policy: "shouldAbort now lt = Some r \<Longrightarrow> lts_Abort (lt_Spec lt) \<noteq> None"
  by (cases "lts_Abort (lt_Spec lt)") (simp_all add: shouldAbort_def)

definition not_aborted :: "'w lt_env \<Rightarrow> 'w \<Rightarrow> string \<Rightarrow> string \<Rightarrow> bool" where
  "not_aborted env w ns name \<longleftrightarrow>
    (\<forall>st. stored env w ns name = Some st \<longrightarrow> lst_Phase st \<noteq> LoadTestPhaseAborted)"

lemma status_update_not_aborted:
  assumes "lt_env_laws env" and "le_status_update env w lt2 = (w', r)"
    and "lt_Namespace lt2 = ns" and "lt_Name lt2 = name" and "lst_Phase (lt_Status lt2) \<noteq> LoadTestPhaseAborted"
    and "not_aborted env w ns name"
  shows "not_aborted env w' ns name"
  using stored_status_update [OF assms(1,2)] assms(3-6) by (auto simp: not_aborted_def)

lemma finish_status_not_aborted:
  assumes "lt_env_laws env" and "finish_status env w srv lt2 evs res = (w', srv', evs', res')"
    and "lt_Namespace lt2 = ns" and "lt_Name lt2 = name" and "lst_Phase (lt_Status lt2) \<noteq> LoadTestPhaseAborted"
    and "not_aborted env w ns name"
  shows "not_aborted env w' ns name"
  using stored_finish_status [OF assms(1,2)] assms(3-6) by (auto simp: not_aborted_def)

lemma reconcile_run_aborts:
  assumes laws: "lt_env_laws env" and ok: "srv_ok srv"
    and run: "reconcile_run env now srv lt w evs = (w', srv', evs', res)"
    and before: "not_aborted env w (lt_Namespace lt) (lt_Name lt)"
    and phase: "lst_Phase (lt_Status lt) \<noteq> LoadTestPhaseAborted"
    and after: "stored env w' (lt_Namespace lt) (lt_Name lt) = Some st'" "lst_Phase st' = LoadTestPhaseAborted"
  shows "\<exists>s'. srv' = Some s' \<and> stop_queued s' (lst_Assignments st') lt \<and> lts_Abort (lt_Spec lt) \<noteq> None"
proof -
  define statuses where "statuses = ReplayStatuses (lt_Namespace lt) (lt_Name lt) srv"
  define srv1 where "srv1 = start_loop lt (map (\<lambda>snap. rs_ShardIndex (sm_Summary snap)) statuses)
      (lst_Assignments (lt_Status lt)) srv"
  obtain lt1 evs1 where agg: "aggregate now lt statuses = (lt1, evs1)" by fastforce
  have ok1: "srv_ok srv1" unfolding srv1_def using ok by (rule srv_ok_start_loop)
  note frame = aggregate_frame [OF agg] and nab = aggregate_not_aborted [OF agg phase]
  show ?thesis
  proof (cases "shouldAbort now lt1")
    case None
    obtain w1 r where wr: "le_status_update env w lt1 = (w1, r)" by fastforce
    have "w' = w1" using run None wr agg
      by (auto simp: reconcile_run_def Let_def statuses_def split: sum.splits)
    then have "not_aborted env w' (lt_Namespace lt) (lt_Name lt)"
      using status_update_not_aborted [OF laws wr _ _ nab before] frame by simp
    then show ?thesis using after by (simp add: not_aborted_def)
  next
    case (Some reason)
    obtain srv2 d where stop: "stopAllShards srv1 lt1 = (srv2, d)" by fastforce
    obtain lt2 evs2 res2 where fin: "finish_status env w (Some srv2) lt2 evs2 res2 = (w', srv', evs', res)"
      and lt2: "lt_Namespace lt2 = lt_Namespace lt1" "lt_Name lt2 = lt_Name lt1"
        "lst_Assignments (lt_Status lt2) = lst_Assignments (lt_Status lt1)"
        "\<not> d \<Longrightarrow> lst_Phase (lt_Status lt2) = lst_Phase (lt_Status lt1)"
      using run Some stop agg
      by (cases d) (simp_all add: reconcile_run_def Let_def statuses_def srv1_def)
    have st: "srv' = Some srv2" "st' = lt_Status lt2"
      using stored_finish_status [OF laws fin] before after frame lt2 by (auto simp: not_aborted_def)
    have d using lt2(4) nab after st by auto
    then have "stop_queued srv2 (lst_Assignments st') lt"
      using stopAllShards_stop_queued [OF ok1] stop frame st lt2 by simp
    then show ?thesis using st shouldAbort_policy [OF Some] frame by simp
  qed
qed

lemma reconcile_active_aborts:
  assumes laws: "lt_env_laws env" and ok: "srv_ok srv"
    and run: "reconcile_active env now srv lt w = (w', srv', evs', res)"
    and before: "not_aborted env w (lt_Namespace lt) (lt_Name lt)"
    and phase: "lst_Phase (lt_Status lt) \<noteq> LoadTestPhaseAborted"
    and after: "stored env w' (lt_Namespace lt) (lt_Name lt) = Some st'" "lst_Phase st' = LoadTestPhaseAborted"
  shows "\<exists>s'. srv' = Some s' \<and> stop_queued s' (lst_Assignments st') lt \<and> lts_Abort (lt_Spec lt) \<noteq> None"
proof (cases "lst_Assignments (lt_Status lt) = []")
  case False
  then have "reconcile_run env now srv lt w [] = (w', srv', evs', res)" using run by (simp add: reconcile_active_def)
  from reconcile_run_aborts [OF laws ok this before phase after] show ?thesis .
next
  case True
  show ?thesis
  proof (cases "planDistribution now srv lt")
    case (Inl err)
    show ?thesis
    proof (cases "err = MakesliceCap")
      case True
      then have "w' = w" using run Inl \<open>lst_Assignments (lt_Status lt) = []\<close> by (simp add: reconcile_active_def)
      then show ?thesis using before after by (simp add: not_aborted_def)
    next
      case False
      then obtain lt2 where "finish_status env w (Some srv) lt2 [] (ResRequeueAfter (requeueInterval env)) = (w', srv', evs', res)"
        and "lt_Namespace lt2 = lt_Namespace lt" "lt_Name lt2 = lt_Name lt" "lst_Phase (lt_Status lt2) = LoadTestPhasePending"
        using run Inl \<open>lst_Assignments (lt_Status lt) = []\<close>
        by (cases err) (simp_all add: reconcile_active_def)
      with finish_status_not_aborted [OF laws _ _ _ _ before] have "not_aborted env w' (lt_Namespace lt) (lt_Name lt)"
        by simp
      then show ?thesis using after by (simp add: not_aborted_def)
    qed
  next
    case (Inr planned)
    let ?lt = "record_plan env now planned lt"
    have names: "lt_Namespace ?lt = lt_Namespace lt" "lt_Name ?lt = lt_Name lt" "lt_Spec ?lt = lt_Spec lt"
      and ph: "lst_Phase (lt_Status ?lt) = LoadTestPhaseDistributing"
      by (simp_all add: record_plan_def)
    obtain w1 r where wr: "le_status_update env w ?lt = (w1, r)" by fastforce
    have st1: "not_aborted env w1 (lt_Namespace lt) (lt_Name lt)"
      using status_update_not_aborted [OF laws wr names(1,2) _ before] ph by simp
    show ?thesis
    proof (cases r)
      case (Inl err)
      with run wr \<open>planDistribution now srv lt = Inr planned\<close> True have "w' = w1" by (simp add: reconcile_active_def)
      with st1 after show ?thesis by (simp add: not_aborted_def)
    next
      case (Inr lt')
      with law_status_ok [OF laws, of w ?lt w1 lt'] wr have same: "same_object ?lt lt'" by simp
      have run': "reconcile_run env now srv lt' w1 [NormalEvent ''ShardsDistributed''] = (w', srv', evs', res)"
        using run wr Inr \<open>planDistribution now srv lt = Inr planned\<close> True by (simp add: reconcile_active_def)
      have "\<exists>s'. srv' = Some s' \<and> stop_queued s' (lst_Assignments st') lt' \<and> lts_Abort (lt_Spec lt') \<noteq> None"
        using same names ph st1 after by (intro reconcile_run_aborts [OF laws ok run']) (auto simp: same_object_def)
      then show ?thesis using same names by (simp add: same_object_def stop_queued_def stopDirective_def)
    qed
  qed
qed

lemma reconcile_live_aborts:
  assumes laws: "lt_env_laws env" and ok: "\<And>s. srv = Some s \<Longrightarrow> srv_ok s"
    and run: "reconcile_live env now srv lt w = (w', srv', evs', res)"
    and before: "not_aborted env w (lt_Namespace lt) (lt_Name lt)"
    and phase: "lst_Phase (lt_Status lt) \<noteq> LoadTestPhaseAborted"
    and after: "stored env w' (lt_Namespace lt) (lt_Name lt) = Some st'" "lst_Phase st' = LoadTestPhaseAborted"
  shows "\<exists>s'. srv' = Some s' \<and> stop_queued s' (lst_Assignments st') lt \<and> lts_Abort (lt_Spec lt) \<noteq> None"
proof (cases "is_terminal (lst_Phase (lt_Status lt))")
  case True
  then have "w' = w" using run by (simp add: reconcile_live_def)
  then show ?thesis using before after by (simp add: not_aborted_def)
next
  case live: False
  have contra: ?thesis if "not_aborted env w' (lt_Namespace lt) (lt_Name lt)"
    using that after by (simp add: not_aborted_def)
  show ?thesis
  proof (cases "target_denied lt")
    case True
    have fin: "finish_status env w srv (lt\<lparr>lt_Status := set_cond env ''TargetAllowed'' False ''TargetDenied''
        ((lt_Status lt)\<lparr>lst_Phase := LoadTestPhaseFailed\<rparr>)\<rparr>) [WarningEvent ''TargetDenied''] ResDone =
        (w', srv', evs', res)"
      using run live True by (simp add: reconcile_live_def)
    show ?thesis using finish_status_not_aborted [OF laws fin _ _ _ before] by (intro contra) simp
  next
    case False
    show ?thesis
    proof (cases srv)
      case None
      have fin: "finish_status env w None (lt\<lparr>lt_Status := set_cond env ''SpokesAssigned'' False ''HubNotReady''
          ((lt_Status lt)\<lparr>lst_Phase := LoadTestPhasePending\<rparr>)\<rparr>) [] (ResRequeueAfter (requeueInterval env)) =
          (w', srv', evs', res)"
        using run live False None by (simp add: reconcile_live_def)
      show ?thesis using finish_status_not_aborted [OF laws fin _ _ _ before] by (intro contra) simp
    next
      case (Some s)
      then have "reconcile_active env now s lt w = (w', srv', evs', res)"
        using live False run by (simp add: reconcile_live_def)
      from reconcile_active_aborts [OF laws ok [OF Some] this before phase after] show ?thesis .
    qed
  qed
qed

section \<open>Properties\<close>

lemma stored_get: "le_get env w ns name = Inr lt \<Longrightarrow> stored env w ns name = Some (lt_Status lt)"
  by (simp add: stored_def)

lemma update_not_aborted:
  assumes "lt_env_laws env" and "le_update env w lt = (w', r)" and "not_aborted env w (lt_Namespace lt) (lt_Name lt)"
  shows "not_aborted env w' (lt_Namespace lt) (lt_Name lt)"
  using assms(3) stored_update [OF assms(1,2)] by (auto simp: not_aborted_def)

lemma reconcile_delete_not_aborted:
  assumes "lt_env_laws env" and "reconcile_delete env srv lt w = (w', srv', evs, res)"
    and "not_aborted env w (lt_Namespace lt) (lt_Name lt)"
  shows "not_aborted env w' (lt_Namespace lt) (lt_Name lt)"
proof -
  let ?lt = "lt\<lparr>lt_Finalizers := le_remove_finalizer env (lt_Finalizers lt) LoadTestFinalizer\<rparr>"
  obtain w1 r where u: "le_update env w ?lt = (w1, r)" by fastforce
  have "w' = w \<or> w' = w1"
    using assms(2) u by (auto simp: reconcile_delete_def Let_def split: if_splits option.splits prod.splits sum.splits bool.splits)
  moreover have "not_aborted env w1 (lt_Namespace lt) (lt_Name lt)"
    using update_not_aborted [OF assms(1) u] assms(3) by simp
  ultimately show ?thesis using assms(3) by auto
qed

text \<open>
  C3. Aborting is sound: if one reconciliation turns a load test that was not aborted into an
  aborted one, then an abort policy was configured and every spoke of the recorded assignment that
  is still registered has the STOP directive of this load test in its queue. Errors and lost
  replies of the API server included.
\<close>

theorem abort_sound:
  assumes laws: "lt_env_laws env" and ok: "\<And>s. srv = Some s \<Longrightarrow> srv_ok s"
    and get: "le_get env w ns name = Inr lt" "lst_Phase (lt_Status lt) \<noteq> LoadTestPhaseAborted"
    and rec: "Reconcile env now ns name srv w = (w', srv', evs, res)"
    and after: "le_get env w' ns name = Inr lt'" "lst_Phase (lt_Status lt') = LoadTestPhaseAborted"
  shows "\<exists>s'. srv' = Some s' \<and> lts_Abort (lt_Spec lt) \<noteq> None \<and>
    (\<forall>a\<in>set (lst_Assignments (lt_Status lt')). spoke_queue s' (as_SpokeID a) = None \<or>
      (\<exists>q. spoke_queue s' (as_SpokeID a) = Some q \<and> replay_msg (stopDirective lt) \<in> set q))"
proof -
  have names: "lt_Namespace lt = ns" "lt_Name lt = name" using law_get [OF laws get(1)] by auto
  have before: "not_aborted env w (lt_Namespace lt) (lt_Name lt)"
    using get names by (simp add: not_aborted_def stored_get)
  have st': "stored env w' (lt_Namespace lt) (lt_Name lt) = Some (lt_Status lt')"
    using after names by (simp add: stored_get)
  have goal: ?thesis if "\<exists>s'. srv' = Some s' \<and> stop_queued s' (lst_Assignments (lt_Status lt')) lt \<and> lts_Abort (lt_Spec lt) \<noteq> None"
    using that by (auto simp: stop_queued_def)
  show ?thesis
  proof (cases "lt_DeletionTimestamp lt = None \<or> lt_DeletionTimestamp lt = Some 0")
    case False
    then have "reconcile_delete env srv lt w = (w', srv', evs, res)" using rec get by (simp add: Reconcile_def)
    with reconcile_delete_not_aborted [OF laws _ before] st' after show ?thesis by (simp add: not_aborted_def)
  next
    case alive: True
    show ?thesis
    proof (cases "le_contains_finalizer env (lt_Finalizers lt) LoadTestFinalizer")
      case True
      then have "reconcile_live env now srv lt w = (w', srv', evs, res)" using rec get alive by (simp add: Reconcile_def)
      from reconcile_live_aborts [OF laws ok this before get(2) st' after(2)] show ?thesis by (rule goal)
    next
      case False
      let ?lt = "lt\<lparr>lt_Finalizers := le_add_finalizer env (lt_Finalizers lt) LoadTestFinalizer\<rparr>"
      obtain w1 r where u: "le_update env w ?lt = (w1, r)" by fastforce
      have na: "not_aborted env w1 (lt_Namespace lt) (lt_Name lt)" using update_not_aborted [OF laws u] before by simp
      show ?thesis
      proof (cases r)
        case (Inl err)
        then have "w' = w1" using rec get alive False u by (simp add: Reconcile_def)
        then show ?thesis using na st' after by (simp add: not_aborted_def)
      next
        case (Inr lt1)
        then have same: "same_object ?lt lt1" using law_update_ok [OF laws] u by blast
        have run: "reconcile_live env now srv lt1 w1 = (w', srv', evs, res)"
          using rec get alive False u Inr by (simp add: Reconcile_def)
        have "\<exists>s'. srv' = Some s' \<and> stop_queued s' (lst_Assignments (lt_Status lt')) lt1 \<and> lts_Abort (lt_Spec lt1) \<noteq> None"
          using same na get(2) st' after(2) by (intro reconcile_live_aborts [OF laws ok run]) (auto simp: same_object_def)
        then show ?thesis using same by (intro goal) (simp add: same_object_def stop_queued_def stopDirective_def)
      qed
    qed
  qed
qed

text \<open>
  C19. Cleanup is sound: the finalizer of a deleted load test is only given up (the plain write is
  only attempted) after every assigned spoke that is still registered accepted the STOP directive
  of the load test; otherwise the reconciliation leaves the stored object alone and asks to be
  called again.
\<close>

theorem finalize_sound:
  assumes "srv_ok s" and "le_get env w ns name = Inr lt" and "lt_DeletionTimestamp lt = Some t" and "t \<noteq> 0"
    and "le_contains_finalizer env (lt_Finalizers lt) LoadTestFinalizer"
    and "Reconcile env now ns name (Some s) w = (w', srv', evs, res)"
  shows "\<exists>s'. srv' = Some s' \<and>
    (w' = w \<and> res = ResRequeueAfter (requeueInterval env) \<or>
     (\<forall>a\<in>set (lst_Assignments (lt_Status lt)). spoke_queue s' (as_SpokeID a) = None \<or>
       (\<exists>q. spoke_queue s' (as_SpokeID a) = Some q \<and> replay_msg (stopDirective lt) \<in> set q)) \<and>
     ReplayStatuses (lt_Namespace lt) (lt_Name lt) s' = [])"
proof -
  have rec: "reconcile_delete env (Some s) lt w = (w', srv', evs, res)"
    using assms by (simp add: Reconcile_def)
  obtain s1 d where stop: "stopAllShards s lt = (s1, d)" by fastforce
  show ?thesis
  proof (cases d)
    case False
    with rec stop assms(5) show ?thesis by (auto simp: reconcile_delete_def)
  next
    case True
    let ?s = "ClearReplayStatuses (lt_Namespace lt) (lt_Name lt) s1"
    have "srv' = Some ?s"
      using rec stop assms(5) True by (auto simp: reconcile_delete_def split: prod.splits sum.splits)
    moreover have "spoke_queue ?s i = spoke_queue s1 i" for i
      by (cases "gm_get (sv_spokes s1) i")
        (simp_all add: spoke_queue_def ClearReplayStatuses_def gm_get_map clear_entry_def Let_def)
    ultimately show ?thesis
      using stop_all_sound [OF assms(1) stop] True by (simp add: ReplayStatuses_clear)
  qed
qed

lemma phase_count_eq: "phase_count p sts = i32 (int (length (filter (\<lambda>s. rs_Phase (sm_Summary s) = p) sts)))"
  using foldl_i32_count [of "\<lambda>s. rs_Phase (sm_Summary s) = p" 0 sts] by (simp add: phase_count_def)

lemma status_sum_eq: "status_sum f sts = i64 (\<Sum>s\<leftarrow>sts. f (sm_Summary s))"
proof -
  have "i64 0 = 0" by (simp add: i64_def)
  then show ?thesis using foldl_i64_sum [of "\<lambda>s. f (sm_Summary s)" 0 sts] by (simp add: status_sum_def)
qed

lemma aggregate_phase:
  "lst_Phase (lt_Status (fst (aggregate now lt sts))) =
    (let c = phase_count REPLAY_PHASE_COMPLETED sts; f = phase_count REPLAY_PHASE_FAILED sts;
         t = lst_TotalShards (lt_Status lt) in
     if 0 < t \<and> c = t then LoadTestPhaseCompleted
     else if 0 < t \<and> i32 (c + f) = t then LoadTestPhaseFailed
     else if 0 < phase_count REPLAY_PHASE_RUNNING sts \<or> 0 < c \<or> 0 < f then LoadTestPhaseRunning
     else lst_Phase (lt_Status lt))"
  by (simp add: aggregate_def Let_def finish_def)

lemma aggregate_sums:
  "lst_TotalRequests (lt_Status (fst (aggregate now lt sts))) = status_sum rs_TotalRequests sts"
  "lst_SentRequests (lt_Status (fst (aggregate now lt sts))) = status_sum rs_SentRequests sts"
  "lst_FailedRequests (lt_Status (fst (aggregate now lt sts))) = status_sum rs_FailedRequests sts"
  by (simp_all add: aggregate_def Let_def finish_def)

text \<open>
  C23. Completion is sound: aggregation enters Completed only when there are shards and as many
  completed statuses as shards, Failed only when completed and failed statuses together make up
  the shards and one of them failed; the counters are the wrapped sums of the reports.
\<close>

theorem completion_sound:
  assumes "aggregate now lt sts = (lt', evs)" and "length sts < 2 ^ 31"
    and "lst_Phase (lt_Status lt) \<noteq> LoadTestPhaseCompleted" and "lst_Phase (lt_Status lt) \<noteq> LoadTestPhaseFailed"
  shows "(lst_Phase (lt_Status lt') = LoadTestPhaseCompleted \<longrightarrow>
      0 < lst_TotalShards (lt_Status lt) \<and>
      int (length (filter (\<lambda>s. rs_Phase (sm_Summary s) = REPLAY_PHASE_COMPLETED) sts)) = lst_TotalShards (lt_Status lt)) \<and>
    (lst_Phase (lt_Status lt') = LoadTestPhaseFailed \<longrightarrow>
      0 < lst_TotalShards (lt_Status lt) \<and>
      (\<exists>s\<in>set sts. rs_Phase (sm_Summary s) = REPLAY_PHASE_FAILED) \<and>
      int (length (filter (\<lambda>s. rs_Phase (sm_Summary s) = REPLAY_PHASE_COMPLETED) sts)) +
      int (length (filter (\<lambda>s. rs_Phase (sm_Summary s) = REPLAY_PHASE_FAILED) sts)) = lst_TotalShards (lt_Status lt)) \<and>
    lst_SentRequests (lt_Status lt') = i64 (\<Sum>s\<leftarrow>sts. rs_SentRequests (sm_Summary s)) \<and>
    lst_FailedRequests (lt_Status lt') = i64 (\<Sum>s\<leftarrow>sts. rs_FailedRequests (sm_Summary s)) \<and>
    lst_TotalRequests (lt_Status lt') = i64 (\<Sum>s\<leftarrow>sts. rs_TotalRequests (sm_Summary s))"
proof -
  define C F where "C = length (filter (\<lambda>s. rs_Phase (sm_Summary s) = REPLAY_PHASE_COMPLETED) sts)"
    and "F = length (filter (\<lambda>s. rs_Phase (sm_Summary s) = REPLAY_PHASE_FAILED) sts)"
  let ?T = "lst_TotalShards (lt_Status lt)"
  have "C + F \<le> length sts" unfolding C_def F_def by (induction sts) auto
  then have small: "int C + int F < 2 ^ 31" using assms(2) by simp
  then have pc: "phase_count REPLAY_PHASE_COMPLETED sts = int C" "phase_count REPLAY_PHASE_FAILED sts = int F"
    by (simp_all add: phase_count_eq C_def [symmetric] F_def [symmetric] i32_id in_i32_def)
  have wrap: "i32 (int C + int F) = int C + int F" using small by (intro i32_id) (simp add: in_i32_def)
  have lt': "lt' = fst (aggregate now lt sts)" by (simp add: assms(1))
  have ph: "lst_Phase (lt_Status lt') =
      (if 0 < ?T \<and> int C = ?T then LoadTestPhaseCompleted
       else if 0 < ?T \<and> int C + int F = ?T then LoadTestPhaseFailed
       else if 0 < phase_count REPLAY_PHASE_RUNNING sts \<or> 0 < C \<or> 0 < F then LoadTestPhaseRunning
       else lst_Phase (lt_Status lt))"
    unfolding lt' aggregate_phase Let_def pc wrap by simp
  have "\<exists>s\<in>set sts. rs_Phase (sm_Summary s) = REPLAY_PHASE_FAILED" if "F \<noteq> 0"
    using that unfolding F_def by (auto simp: filter_empty_conv)
  with ph assms(3,4) show ?thesis
    unfolding C_def [symmetric] F_def [symmetric] unfolding lt' aggregate_sums status_sum_eq
    by (auto split: if_splits)
qed







section \<open>The error threshold\<close>

lemma f_rnd_small: "0 \<le> x \<Longrightarrow> x \<le> 100 \<Longrightarrow> f_rnd x = Fin (rnd x)"
proof -
  assume x: "0 \<le> x" "x \<le> (100 :: rat)"
  have "rnd x \<le> rnd (of_int 100)" using x by (intro rnd_mono) simp_all
  then have le: "rnd x \<le> 100" using rnd_exact [of 100] by simp
  then have "\<bar>rnd x\<bar> < 2 ^ 53" using rnd_nonneg [OF x(1)] by simp
  then show ?thesis using powi_53_1024 by (intro f_rnd_Fin) (rule less_trans)
qed

lemma f_mul_exact:
  assumes "\<bar>a\<bar> < 2 ^ 53" and "\<bar>b\<bar> < 2 ^ 53" and "\<bar>a * b\<bar> < 2 ^ 53"
  shows "f_mul (f_of_int a) (f_of_int b) = Fin (of_int (a * b))"
proof -
  have "f_rnd (of_int (a * b)) = Fin (of_int (a * b))"
    using f_of_int_exact [OF assms(3)] by (simp only: f_of_int_def)
  then show ?thesis by (simp add: f_of_int_exact [OF assms(1)] f_of_int_exact [OF assms(2)])
qed

text \<open>
  C36. The error threshold of the abort policy is decided exactly although the code compares
  floating-point numbers: for request counts below \<open>2 ^ 46\<close> and a threshold of 0 to 100 percent, the
  rule fires exactly when the sample is large enough and the failed requests are more than that
  percentage of the attempted ones. In particular no division by zero decides it.
\<close>

theorem error_threshold_exact:
  assumes "0 \<le> lst_SentRequests st" and "0 \<le> lst_FailedRequests st"
    and "lst_SentRequests st + lst_FailedRequests st < 2 ^ 46"
    and "la_ErrorPercent policy = Some p" and "0 \<le> p" and "p \<le> 100"
  shows "error_rate_exceeded policy st \<longleftrightarrow>
    (case la_MinSampleRequests policy of Some m \<Rightarrow> m | None \<Rightarrow> defaultAbortMinSample)
      \<le> lst_SentRequests st + lst_FailedRequests st \<and>
    p * (lst_SentRequests st + lst_FailedRequests st) < 100 * lst_FailedRequests st"
proof -
  define f n where "f = lst_FailedRequests st" and "n = lst_SentRequests st + lst_FailedRequests st"
  have fn: "0 \<le> f" "f \<le> n" "n < 2 ^ 46" using assms by (simp_all add: f_def n_def)
  have n64: "i64 (lst_SentRequests st + lst_FailedRequests st) = n"
    unfolding n_def using assms by (intro i64_id) (simp add: in_i64_def)
  have mul: "f_mul (f_of_int f) (Fin 100) = Fin (of_int (f * 100))"
    using f_mul_exact [of f 100] fn f_of_int_exact [of 100] by simp
  have nx: "f_of_int n = Fin (of_int n)" and px: "f_of_int p = Fin (of_int p)"
    using fn assms by (simp_all add: f_of_int_exact)
  have "f_less (f_of_int p) (error_percent f n) \<longleftrightarrow> p * n < 100 * f"
  proof (cases "n = 0")
    case True
    then have "error_percent f n = NaN" using fn mul nx by (simp add: error_percent_def)
    then show ?thesis using True fn by (simp add: px)
  next
    case False
    then have n: "0 < n" using fn by simp
    have "of_int (f * 100) / of_int n \<le> (100 :: rat)" using n fn by (simp add: pos_divide_le_eq)
    then have "error_percent f n = Fin (rnd (of_int (f * 100) / of_int n))"
      using n fn f_rnd_small [of "of_int (f * 100) / of_int n"] by (simp add: error_percent_def mul nx)
    then have "f_less (f_of_int p) (error_percent f n) \<longleftrightarrow> of_int p < rnd (of_int (f * 100) / of_int n)"
      by (simp add: px)
    also have "\<dots> \<longleftrightarrow> p * n < f * 100" using fn n assms by (intro rnd_quot_gt_iff) simp_all
    finally show ?thesis by (simp add: mult.commute)
  qed
  then show ?thesis
    using assms(4) n64 by (simp add: error_rate_exceeded_def Let_def f_def n_def)
qed

end
