(* ===== verification/Loadtest_Witnesses.thy ===== *)
theory Loadtest_Witnesses
  imports Loadtest_Props
begin

text \<open>
  The laws of the API server are met by a small server, and the theorems about the coordinator
  apply to concrete runs on it.
\<close>

section \<open>An API server\<close>

text \<open>
  A server that stores one load test and accepts a write when the object written differs from the
  stored one only where that kind of write may differ. It meets the laws.
\<close>

definition store_env :: "CaptureLoadTest option lt_env" where
  "store_env =
    \<lparr>le_get = \<lambda>w ns name. (case w of
         Some lt \<Rightarrow> if lt_Namespace lt = ns \<and> lt_Name lt = name then Inr lt else Inl K8sNotFound
       | None \<Rightarrow> Inl K8sNotFound),
     le_update = \<lambda>w lt. (case w of
         Some lt0 \<Rightarrow> if same_object lt0 lt then (Some lt, Inr lt) else (w, Inl K8sConflict)
       | None \<Rightarrow> (w, Inl K8sNotFound)),
     le_status_update = \<lambda>w lt. (case w of
         Some lt0 \<Rightarrow>
           if lt_Namespace lt0 = lt_Namespace lt \<and> lt_Name lt0 = lt_Name lt \<and> lt_Spec lt0 = lt_Spec lt
           then (Some (lt0\<lparr>lt_Status := lt_Status lt\<rparr>), Inr (lt0\<lparr>lt_Status := lt_Status lt\<rparr>))
           else (w, Inl K8sConflict)
       | None \<Rightarrow> (w, Inl K8sNotFound)),
     le_set_condition = \<lambda>cs c. filter (\<lambda>d. mc_Type d \<noteq> mc_Type c) cs @ [c],
     le_contains_finalizer = \<lambda>fs f. f \<in> set fs,
     le_add_finalizer = \<lambda>fs f. fs @ [f],
     le_remove_finalizer = \<lambda>fs f. filter (\<lambda>x. x \<noteq> f) fs,
     le_RequeueInterval = 0\<rparr>"

lemma store_env_laws: "lt_env_laws store_env"
  by (auto simp: lt_env_laws_def get_returns_named_def status_write_stored_def status_error_ambiguous_def
      update_echoes_def update_keeps_status_def store_env_def same_object_def
      split: option.splits if_splits)

text \<open>A distributed run of the example load test with one failing shard, far over its threshold.\<close>

definition ex_running :: CaptureLoadTest where
  "ex_running = ex_lt\<lparr>lt_Finalizers := [LoadTestFinalizer],
     lt_Status := (lt_Status ex_lt)\<lparr>lst_Phase := LoadTestPhaseRunning, lst_StartTime := Some 0,
       lst_Assignments := [\<lparr>as_SpokeID = ''a'', as_Cell = ''west'', as_ShardIndexes = [0, 1]\<rparr>,
         \<lparr>as_SpokeID = ''gone'', as_Cell = ''east'', as_ShardIndexes = [2, 3]\<rparr>],
       lst_TotalShards := 4\<rparr>\<rparr>"

definition ex_reported :: Server where
  "ex_reported = fst (ReportReplayStatus ex_cert ''a''
     [(ex_summary ''lt-shard-0'' 0 REPLAY_PHASE_RUNNING)\<lparr>rs_SentRequests := 100, rs_FailedRequests := 900\<rparr>] ex_state)"

lemma ex_reported_ok: "srv_ok ex_reported"
proof -
  let ?ev = "Serve ex_cert 0 (RpcReportReplay ''a''
     [(ex_summary ''lt-shard-0'' 0 REPLAY_PHASE_RUNNING)\<lparr>rs_SentRequests := 100, rs_FailedRequests := 900\<rparr>])"
  have "hub_exec ?ev ex_state = (ex_reported, Quiet)" by (simp add: ex_reported_def rpc_code_def)
  from step_ok_exec [OF ex_state_ok this] show ?thesis unfolding step_ok_def by blast
qed

definition ex_outcome :: "CaptureLoadTest option lt_outcome" where
  "ex_outcome = Reconcile store_env (60 * second) ''ns'' ''lt'' (Some ex_reported) (Some ex_running)"

lemma ex_get: "le_get store_env (Some ex_running) ''ns'' ''lt'' = Inr ex_running"
  by (simp add: store_env_def ex_running_def ex_lt_def)

theorem abort_sound_witness:
  "map_option (\<lambda>lt. lst_Phase (lt_Status lt)) (fst ex_outcome) = Some LoadTestPhaseAborted \<and>
   (\<exists>s' q. fst (snd ex_outcome) = Some s' \<and> spoke_queue s' ''a'' = Some q \<and>
     replay_msg (stopDirective ex_running) \<in> set q)"
proof -
  obtain w' srv' evs res where out: "ex_outcome = (w', srv', evs, res)" by (cases ex_outcome) auto
  have ph: "map_option (\<lambda>lt. (lst_Phase (lt_Status lt), lt_Namespace lt, lt_Name lt)) (fst ex_outcome) =
      Some (LoadTestPhaseAborted, ''ns'', ''lt'')" by code_simp
  then obtain lt' where w': "w' = Some lt'" and p: "lst_Phase (lt_Status lt') = LoadTestPhaseAborted"
    and names: "lt_Namespace lt' = ''ns''" "lt_Name lt' = ''lt''"
    by (auto simp: out)
  have asg: "map_option (\<lambda>lt. map as_SpokeID (lst_Assignments (lt_Status lt))) (fst ex_outcome) = Some [''a'', ''gone'']"
    by code_simp
  have reg: "map_option (\<lambda>s. spoke_queue s ''a'' \<noteq> None) (fst (snd ex_outcome)) = Some True" by code_simp
  have "lst_Phase (lt_Status ex_running) \<noteq> LoadTestPhaseAborted" by (simp add: ex_running_def)
  moreover have "Reconcile store_env (60 * second) ''ns'' ''lt'' (Some ex_reported) (Some ex_running) = (w', srv', evs, res)"
    using out by (simp only: ex_outcome_def)
  moreover have "le_get store_env w' ''ns'' ''lt'' = Inr lt'" using w' names by (simp add: store_env_def)
  ultimately have "\<exists>s'. srv' = Some s' \<and> lts_Abort (lt_Spec ex_running) \<noteq> None \<and>
    (\<forall>a\<in>set (lst_Assignments (lt_Status lt')). spoke_queue s' (as_SpokeID a) = None \<or>
      (\<exists>q. spoke_queue s' (as_SpokeID a) = Some q \<and> replay_msg (stopDirective ex_running) \<in> set q))"
    using abort_sound [OF store_env_laws _ ex_get, of "Some ex_reported"] ex_reported_ok p by blast
  then obtain s' where s': "srv' = Some s'" and all: "\<forall>a\<in>set (lst_Assignments (lt_Status lt')).
      spoke_queue s' (as_SpokeID a) = None \<or>
      (\<exists>q. spoke_queue s' (as_SpokeID a) = Some q \<and> replay_msg (stopDirective ex_running) \<in> set q)" by blast
  have "''a'' \<in> as_SpokeID ` set (lst_Assignments (lt_Status lt'))"
    using asg by (auto simp: out w' simp flip: set_map)
  then have "\<exists>q. spoke_queue s' ''a'' = Some q \<and> replay_msg (stopDirective ex_running) \<in> set q"
    using all reg by (auto simp: out s')
  then show ?thesis using ph s' by (auto simp: out w')
qed

definition ex_deleted :: CaptureLoadTest where
  "ex_deleted = ex_running\<lparr>lt_DeletionTimestamp := Some 1\<rparr>"

definition ex_delete_outcome :: "CaptureLoadTest option lt_outcome" where
  "ex_delete_outcome = Reconcile store_env (60 * second) ''ns'' ''lt'' (Some ex_reported) (Some ex_deleted)"

theorem finalize_sound_witness:
  "map_option lt_Finalizers (fst ex_delete_outcome) = Some [] \<and>
   (\<exists>s' q. fst (snd ex_delete_outcome) = Some s' \<and> spoke_queue s' ''a'' = Some q \<and>
     replay_msg (stopDirective ex_deleted) \<in> set q)"
proof -
  obtain w' srv' evs res where out: "ex_delete_outcome = (w', srv', evs, res)" by (cases ex_delete_outcome) auto
  have fin: "map_option lt_Finalizers (fst ex_delete_outcome) = Some []" by code_simp
  have "snd (snd (snd ex_delete_outcome)) = ResDone" by code_simp
  then have res: "res \<noteq> ResRequeueAfter (requeueInterval store_env)" by (simp add: out)
  have reg: "map_option (\<lambda>s. spoke_queue s ''a'' \<noteq> None) (fst (snd ex_delete_outcome)) = Some True" by code_simp
  have get: "le_get store_env (Some ex_deleted) ''ns'' ''lt'' = Inr ex_deleted" by code_simp
  have del: "lt_DeletionTimestamp ex_deleted = Some 1" by (simp add: ex_deleted_def)
  have cf: "le_contains_finalizer store_env (lt_Finalizers ex_deleted) LoadTestFinalizer" by code_simp
  have rec: "Reconcile store_env (60 * second) ''ns'' ''lt'' (Some ex_reported) (Some ex_deleted) = (w', srv', evs, res)"
    using out by (simp only: ex_delete_outcome_def)
  have "''a'' \<in> as_SpokeID ` set (lst_Assignments (lt_Status ex_deleted))"
    by (simp add: ex_deleted_def ex_running_def)
  then obtain a where a: "a \<in> set (lst_Assignments (lt_Status ex_deleted))" "as_SpokeID a = ''a''"
    by (elim imageE) metis
  have "(1 :: int) \<noteq> 0" by simp
  from finalize_sound [OF ex_reported_ok get del this cf rec] res
  obtain s' where s': "srv' = Some s'" and all: "\<forall>a\<in>set (lst_Assignments (lt_Status ex_deleted)).
      spoke_queue s' (as_SpokeID a) = None \<or>
      (\<exists>q. spoke_queue s' (as_SpokeID a) = Some q \<and> replay_msg (stopDirective ex_deleted) \<in> set q)" by blast
  have "spoke_queue s' ''a'' \<noteq> None" using reg by (simp add: out s')
  then have "\<exists>q. spoke_queue s' ''a'' = Some q \<and> replay_msg (stopDirective ex_deleted) \<in> set q"
    using all a by metis
  then show ?thesis using fin s' by (auto simp: out)
qed

definition ex_statuses :: "ReplayStatusSnapshot list" where
  "ex_statuses = map (\<lambda>i. \<lparr>sm_SpokeID = ''a'', sm_Cell = ''west'',
     sm_Summary = ex_summary ''x'' i REPLAY_PHASE_COMPLETED\<rparr>) [0, 1, 2, 3]"

theorem completion_sound_witness:
  "lst_Phase (lt_Status (fst (aggregate 5 ex_running ex_statuses))) = LoadTestPhaseCompleted \<and>
   int (length (filter (\<lambda>s. rs_Phase (sm_Summary s) = REPLAY_PHASE_COMPLETED) ex_statuses)) = 4"
proof -
  have ph: "lst_Phase (lt_Status (fst (aggregate 5 ex_running ex_statuses))) = LoadTestPhaseCompleted" by code_simp
  have "length ex_statuses < 2 ^ 31" by (simp add: ex_statuses_def)
  moreover have "lst_Phase (lt_Status ex_running) = LoadTestPhaseRunning" "lst_TotalShards (lt_Status ex_running) = 4"
    by (simp_all add: ex_running_def)
  ultimately show ?thesis
    using completion_sound [of 5 ex_running ex_statuses "fst (aggregate 5 ex_running ex_statuses)"
      "snd (aggregate 5 ex_running ex_statuses)"] ph by simp
qed




definition ex_policy :: LoadTestAbortPolicy where
  "ex_policy = \<lparr>la_MaxDuration = None, la_ErrorPercent = Some 5, la_MinSampleRequests = None\<rparr>"

theorem error_threshold_exact_witness:
  "error_rate_exceeded ex_policy ((lt_Status ex_running)\<lparr>lst_SentRequests := 949, lst_FailedRequests := 51\<rparr>) \<and>
   \<not> error_rate_exceeded ex_policy ((lt_Status ex_running)\<lparr>lst_SentRequests := 950, lst_FailedRequests := 50\<rparr>)"
  using error_threshold_exact [of "(lt_Status ex_running)\<lparr>lst_SentRequests := 949, lst_FailedRequests := 51\<rparr>" ex_policy 5]
    error_threshold_exact [of "(lt_Status ex_running)\<lparr>lst_SentRequests := 950, lst_FailedRequests := 50\<rparr>" ex_policy 5]
  by (simp add: ex_policy_def defaultAbortMinSample_def)

end
