(* ===== verification/Spoke_Directives.thy ===== *)
theory Spoke_Directives
  imports Loadtest_Controller
begin

text \<open>
  The spoke side of the load test protocol: applying replay directives
  (\<^verbatim>\<open>internal/spoke/replay_directives.go\<close>) and garbage-collecting shards whose load test is gone
  (\<^verbatim>\<open>internal/spoke/orphan_gc.go\<close>). The Kubernetes client of the spoke is the record \<open>tr_client\<close> over
  a state \<^typ>\<open>'w\<close>; its documented behaviour is \<open>tr_client_laws\<close>.
\<close>

section \<open>The client\<close>

record 'w tr_client =
  tc_get :: "'w \<Rightarrow> string \<Rightarrow> string \<Rightarrow> k8s_error + TrafficReplay"
  tc_create :: "'w \<Rightarrow> TrafficReplay \<Rightarrow> 'w \<times> k8s_error option"
  tc_deleteAllOf :: "'w \<Rightarrow> string \<Rightarrow> (string \<times> string) \<Rightarrow> 'w \<times> k8s_error option"
  tc_list :: "'w \<Rightarrow> k8s_error + TrafficReplay list"
  tc_delete :: "'w \<Rightarrow> TrafficReplay \<Rightarrow> 'w \<times> k8s_error option"

section \<open>Directives\<close>

definition LabelLoadTest :: string where
  "LabelLoadTest = ''capture.gateway.io/load-test''"

definition LabelShardIndex :: string where
  "LabelShardIndex = ''capture.gateway.io/shard-index''"

datatype directive_error = NoSpec | MissingIdentity | ClientError k8s_error

definition ReplayShardName :: "string \<Rightarrow> int \<Rightarrow> string" where
  "ReplayShardName loadTestName shardIndex = loadTestName @ ''-shard-'' @ itoa shardIndex"

definition rate_from_directive :: "ReplayRate \<Rightarrow> ReplayRateConfig" where
  "rate_from_directive rate =
    \<lparr>rc_Mode = rr_Mode rate,
     rc_RequestsPerSecond = (if 0 < rr_RequestsPerSecond rate then Some (rr_RequestsPerSecond rate) else None),
     rc_TimeScale = (if rr_TimeScale rate \<noteq> '''' then Some (rr_TimeScale rate) else None)\<rparr>"

definition filters_from_directive :: "ReplayDataFilters \<Rightarrow> ReplayFilters" where
  "filters_from_directive f =
    \<lparr>rf_StartTime = df_StartTime f, rf_EndTime = df_EndTime f,
     rf_PathPrefix = (if df_PathPrefix f \<noteq> '''' then Some (df_PathPrefix f) else None),
     rf_Methods = df_Methods f,
     rf_Limit = (if 0 < df_Limit f then Some (df_Limit f) else None)\<rparr>"

text \<open>
  The object that a START creates, from the directive and its spec. The API server fills in the
  creation time; the status starts empty.
\<close>

definition replayFromDirective :: "ReplayDirective \<Rightarrow> ReplaySpec \<Rightarrow> TrafficReplay" where
  "replayFromDirective directive spec =
    (let shardIndex = (case sp_Shard spec of Some s \<Rightarrow> sh_Index s | None \<Rightarrow> 0);
         shardCount = (case sp_Shard spec of Some s \<Rightarrow> sh_Count s | None \<Rightarrow> 1);
         presharded = (case sp_Shard spec of Some s \<Rightarrow> if sh_Presharded s then Some True else None | None \<Rightarrow> None)
     in \<lparr>tr_Namespace = rd_LoadTestNamespace directive,
         tr_Name = ReplayShardName (rd_LoadTestName directive) shardIndex,
         tr_Labels = [(LabelLoadTest, rd_LoadTestName directive), (LabelShardIndex, itoa shardIndex)],
         tr_CreationTimestamp = 0,
         tr_DeletionTimestamp = None, tr_Finalizers = [],
         tr_Spec = \<lparr>
           trs_SourceRef = sp_SourceCapture spec,
           trs_StorageRef = sp_StorageRefName spec,
           trs_Target = \<lparr>rt_Host = sp_TargetHost spec,
             rt_Port = (if sp_TargetPort spec \<noteq> 0 then Some (sp_TargetPort spec) else None),
             rt_TLS = (if sp_TargetTls spec then Some True else None)\<rparr>,
           trs_Rate = map_option rate_from_directive (sp_Rate spec),
           trs_Filters = map_option filters_from_directive (sp_Filters spec),
           trs_Transforms = [],
           trs_Concurrency = (if 0 < sp_Concurrency spec then Some (sp_Concurrency spec) else None),
           trs_Shard = Some \<lparr>ss_Index = shardIndex, ss_Count = shardCount, ss_Presharded = presharded\<rparr>,
           trs_LoadTestRef = Some (rd_LoadTestName directive),
           trs_Engine =
             (if sp_EngineName spec \<noteq> '''' \<or> sp_EngineConfigJson spec \<noteq> '''' then
                Some \<lparr>re_Name = sp_EngineName spec,
                  re_Config = (if sp_EngineConfigJson spec \<noteq> '''' then Some (sp_EngineConfigJson spec) else None)\<rparr>
              else None),
           trs_Safety = (if sp_AllowedHosts spec \<noteq> [] then Some \<lparr>sf_AllowedHosts = sp_AllowedHosts spec\<rparr> else None)\<rparr>,
         tr_Status = \<lparr>trst_Phase = ReplayPhaseNone, trst_StartTime = None, trst_CompletionTime = None,
           trst_TotalRequests = 0, trst_SentRequests = 0, trst_FailedRequests = 0, trst_FilteredRequests = 0,
           trst_MeanLatency = None, trst_P50Latency = None, trst_P95Latency = None, trst_P99Latency = None,
           trst_AchievedRPS = None, trst_Conditions = []\<rparr>\<rparr>)"

definition handleStart :: "'w tr_client \<Rightarrow> ReplayDirective \<Rightarrow> 'w \<Rightarrow> 'w \<times> directive_error option" where
  "handleStart c directive w =
    (case rd_Spec directive of
       None \<Rightarrow> (w, Some NoSpec)
     | Some spec \<Rightarrow>
         if rd_LoadTestName directive = '''' \<or> rd_LoadTestNamespace directive = '''' then (w, Some MissingIdentity)
         else let replay = replayFromDirective directive spec in
           (case tc_get c w (tr_Namespace replay) (tr_Name replay) of
              Inl K8sNotFound \<Rightarrow>
                (case tc_create c w replay of (w', err) \<Rightarrow> (w', map_option ClientError err))
            | Inl err \<Rightarrow> (w, Some (ClientError err))
            | Inr _ \<Rightarrow> (w, None)))"

definition handleStop :: "'w tr_client \<Rightarrow> ReplayDirective \<Rightarrow> 'w \<Rightarrow> 'w \<times> directive_error option" where
  "handleStop c directive w =
    (if rd_LoadTestName directive = '''' \<or> rd_LoadTestNamespace directive = '''' then (w, Some MissingIdentity)
     else case tc_deleteAllOf c w (rd_LoadTestNamespace directive) (LabelLoadTest, rd_LoadTestName directive) of
       (w', err) \<Rightarrow> (w', map_option ClientError err))"

definition Handle :: "'w tr_client \<Rightarrow> ReplayDirective option \<Rightarrow> 'w \<Rightarrow> 'w \<times> directive_error option" where
  "Handle c directive w =
    (case directive of
       None \<Rightarrow> (w, None)
     | Some d \<Rightarrow>
         (case rd_Action d of
            REPLAY_ACTION_START \<Rightarrow> handleStart c d w
          | REPLAY_ACTION_STOP \<Rightarrow> handleStop c d w
          | _ \<Rightarrow> (w, None)))"

section \<open>Orphan collection\<close>

definition DefaultOrphanMinAge :: duration where
  "DefaultOrphanMinAge = 120 * second"

definition orphaned :: "duration \<Rightarrow> string list \<Rightarrow> time \<Rightarrow> TrafficReplay \<Rightarrow> bool" where
  "orphaned minAge activeSet now tr =
    (case trs_LoadTestRef (tr_Spec tr) of
       None \<Rightarrow> False
     | Some lt \<Rightarrow>
         \<not> tr_Namespace tr @ ''/'' @ lt \<in> set activeSet \<and>
         \<not> time_sub now (tr_CreationTimestamp tr) < minAge)"

fun collect_loop :: "'w tr_client \<Rightarrow> duration \<Rightarrow> string list \<Rightarrow> time \<Rightarrow> TrafficReplay list \<Rightarrow> 'w \<Rightarrow> 'w" where
  "collect_loop c minAge activeSet now [] w = w"
| "collect_loop c minAge activeSet now (tr # trs) w =
    collect_loop c minAge activeSet now trs
      (if orphaned minAge activeSet now tr then fst (tc_delete c w tr) else w)"

definition Collect :: "'w tr_client \<Rightarrow> duration \<Rightarrow> LoadTestKey list \<Rightarrow> time \<Rightarrow> 'w \<Rightarrow> 'w" where
  "Collect c minAge0 active now w =
    (let minAge = (if minAge0 \<le> 0 then DefaultOrphanMinAge else minAge0);
         activeSet = map (\<lambda>k. lk_Namespace k @ ''/'' @ lk_Name k) active
     in case tc_list c w of
       Inl _ \<Rightarrow> w
     | Inr replays \<Rightarrow> collect_loop c minAge activeSet now replays w)"

section \<open>Laws of the client\<close>

definition has_label :: "TrafficReplay \<Rightarrow> string \<times> string \<Rightarrow> bool" where
  "has_label tr kv \<longleftrightarrow> gm_get (tr_Labels tr) (fst kv) = Some (snd kv)"

text \<open>
  A read returns the object of that name. A successful creation stores the object (the server sets
  its creation time) and nothing else; a deletion by label removes exactly the matching objects of
  the namespace, or marks them for deletion while a finalizer holds them; a deletion touches at most
  the object named; a list returns stored objects; an operation that fails leaves every other object
  alone.
\<close>

definition created :: "TrafficReplay \<Rightarrow> TrafficReplay \<Rightarrow> bool" where
  "created tr tr' \<longleftrightarrow> (\<exists>t. tr' = tr\<lparr>tr_CreationTimestamp := t\<rparr>)"

definition get_named :: "'w tr_client \<Rightarrow> bool" where
  "get_named c \<longleftrightarrow> (\<forall>w ns n tr. tc_get c w ns n = Inr tr \<longrightarrow> tr_Namespace tr = ns \<and> tr_Name tr = n)"

definition create_law :: "'w tr_client \<Rightarrow> bool" where
  "create_law c \<longleftrightarrow> (\<forall>w tr w' r. tc_create c w tr = (w', r) \<longrightarrow>
     (\<forall>ns n. (ns, n) \<noteq> (tr_Namespace tr, tr_Name tr) \<longrightarrow> tc_get c w' ns n = tc_get c w ns n) \<and>
     (r = None \<longrightarrow> (\<exists>tr'. created tr tr' \<and> tc_get c w' (tr_Namespace tr) (tr_Name tr) = Inr tr')))"

definition delete_all_law :: "'w tr_client \<Rightarrow> bool" where
  "delete_all_law c \<longleftrightarrow> (\<forall>w ns kv w'. tc_deleteAllOf c w ns kv = (w', None) \<longrightarrow>
     (\<forall>ns' n. case tc_get c w ns' n of
          Inl e \<Rightarrow> tc_get c w' ns' n = Inl e
        | Inr tr \<Rightarrow>
            if ns' = ns \<and> has_label tr kv
            then tc_get c w' ns' n = Inl K8sNotFound \<or>
              (\<exists>t. tc_get c w' ns' n = Inr (tr\<lparr>tr_DeletionTimestamp := Some t\<rparr>))
            else tc_get c w' ns' n = Inr tr))"

definition delete_law :: "'w tr_client \<Rightarrow> bool" where
  "delete_law c \<longleftrightarrow> (\<forall>w tr w' r. tc_delete c w tr = (w', r) \<longrightarrow>
     (\<forall>ns n. (ns, n) \<noteq> (tr_Namespace tr, tr_Name tr) \<longrightarrow> tc_get c w' ns n = tc_get c w ns n))"

definition list_law :: "'w tr_client \<Rightarrow> bool" where
  "list_law c \<longleftrightarrow> (\<forall>w trs. tc_list c w = Inr trs \<longrightarrow>
     (\<forall>tr\<in>set trs. tc_get c w (tr_Namespace tr) (tr_Name tr) = Inr tr))"

definition tr_client_laws :: "'w tr_client \<Rightarrow> bool" where
  "tr_client_laws c \<longleftrightarrow> get_named c \<and> create_law c \<and> delete_all_law c \<and> delete_law c \<and> list_law c"

section \<open>Names of shards\<close>

lemma itoa_nonneg_chars: "0 \<le> i \<Longrightarrow> c \<in> set (itoa i) \<Longrightarrow> c \<noteq> CHR ''-''"
  using digits10_chars [of c "nat i"] by (auto simp: itoa_def)

lemma append_last_sep:
  assumes "xs @ sep # as = ys @ sep # bs" and "sep \<notin> set as" and "sep \<notin> set bs"
  shows "xs = ys \<and> as = bs"
proof -
  have "rev as @ sep # rev xs = rev bs @ sep # rev ys" using arg_cong [OF assms(1), of rev] by simp
  then have "takeWhile (\<lambda>c. c \<noteq> sep) (rev as @ sep # rev xs) = takeWhile (\<lambda>c. c \<noteq> sep) (rev bs @ sep # rev ys)" by simp
  moreover have "takeWhile (\<lambda>c. c \<noteq> sep) (rev zs @ sep # ws) = rev zs" if "sep \<notin> set zs" for zs ws
    using that by (subst takeWhile_append2) auto
  ultimately have "as = bs" using assms(2,3) by simp
  with assms(1) show ?thesis by simp
qed

lemma shard_name_eq:
  assumes "ReplayShardName a i = ReplayShardName b j" and "0 \<le> i" and "0 \<le> j"
  shows "a = b \<and> i = j"
proof -
  have "(a @ ''-shard'') @ CHR ''-'' # itoa i = (b @ ''-shard'') @ CHR ''-'' # itoa j"
    using assms(1) by (simp add: ReplayShardName_def)
  then have "a @ ''-shard'' = b @ ''-shard'' \<and> itoa i = itoa j"
    using assms(2,3) itoa_nonneg_chars by (intro append_last_sep) blast+
  then show ?thesis using itoa_inject by auto
qed

section \<open>Properties\<close>



lemma handleStart_cases:
  assumes "handleStart c d w = (w', None)"
  obtains spec where "rd_Spec d = Some spec" and "rd_LoadTestName d \<noteq> ''''" and "rd_LoadTestNamespace d \<noteq> ''''"
    and "w' = w \<and> (\<exists>tr. tc_get c w (tr_Namespace (replayFromDirective d spec)) (tr_Name (replayFromDirective d spec)) = Inr tr) \<or>
      tc_create c w (replayFromDirective d spec) = (w', None)"
  using assms unfolding handleStart_def Let_def
  by (auto split: option.splits if_splits sum.splits k8s_error.splits prod.splits)

lemma handleStart_present:
  assumes "rd_Spec d = Some spec" and "rd_LoadTestName d \<noteq> ''''" and "rd_LoadTestNamespace d \<noteq> ''''"
    and "tc_get c w (tr_Namespace (replayFromDirective d spec)) (tr_Name (replayFromDirective d spec)) = Inr tr"
  shows "handleStart c d w = (w, None)"
  using assms by (simp add: handleStart_def Let_def)

text \<open>
  C31. START is an idempotent upsert: after a START was applied without error the shard's replay
  exists, sending the same START again changes nothing, and no other object was touched; a replay
  that existed before is left exactly as it was, so counts are never reset mid-run.
\<close>

theorem start_idempotent:
  assumes "tr_client_laws c" and "rd_Action d = REPLAY_ACTION_START" and "Handle c (Some d) w = (w', None)"
  shows "Handle c (Some d) w' = (w', None) \<and>
    (\<exists>spec tr. rd_Spec d = Some spec \<and>
      tc_get c w' (rd_LoadTestNamespace d) (tr_Name (replayFromDirective d spec)) = Inr tr \<and>
      (created (replayFromDirective d spec) tr \<or> w' = w) \<and>
      (\<forall>ns n. (ns, n) \<noteq> (rd_LoadTestNamespace d, tr_Name (replayFromDirective d spec)) \<longrightarrow>
        tc_get c w' ns n = tc_get c w ns n))"
proof -
  have "handleStart c d w = (w', None)" using assms(2,3) by (simp add: Handle_def)
  then obtain spec where spec: "rd_Spec d = Some spec" "rd_LoadTestName d \<noteq> ''''" "rd_LoadTestNamespace d \<noteq> ''''"
    and alt: "w' = w \<and> (\<exists>tr. tc_get c w (tr_Namespace (replayFromDirective d spec)) (tr_Name (replayFromDirective d spec)) = Inr tr) \<or>
      tc_create c w (replayFromDirective d spec) = (w', None)"
    by (rule handleStart_cases)
  let ?r = "replayFromDirective d spec"
  have ns: "tr_Namespace ?r = rd_LoadTestNamespace d" by (simp add: replayFromDirective_def Let_def)
  have "create_law c" using assms(1) by (simp add: tr_client_laws_def)
  then obtain tr where tr: "tc_get c w' (tr_Namespace ?r) (tr_Name ?r) = Inr tr" "created ?r tr \<or> w' = w"
    and frame: "\<forall>ns n. (ns, n) \<noteq> (tr_Namespace ?r, tr_Name ?r) \<longrightarrow> tc_get c w' ns n = tc_get c w ns n"
    using alt unfolding create_law_def by metis
  have "handleStart c d w' = (w', None)" using handleStart_present [OF spec tr(1)] .
  then show ?thesis using assms(2) spec(1) tr frame unfolding ns by (auto simp: Handle_def)
qed

text \<open>
  A run of a spoke: directives handled without error, and steps of everything else in the cluster,
  which may change other objects, statuses and finalizers and finish pending deletions but neither
  creates, relabels nor deletes live objects with the name of a shard.
\<close>

definition live_labels :: "'w tr_client \<Rightarrow> 'w \<Rightarrow> string \<Rightarrow> string \<Rightarrow> (string \<times> string) list option" where
  "live_labels c w ns n =
    (case tc_get c w ns n of
       Inl _ \<Rightarrow> None
     | Inr tr \<Rightarrow> if tr_DeletionTimestamp tr = None then Some (tr_Labels tr) else None)"

definition present :: "'w tr_client \<Rightarrow> 'w \<Rightarrow> string \<Rightarrow> string \<Rightarrow> bool" where
  "present c w ns n \<longleftrightarrow> (case tc_get c w ns n of Inl _ \<Rightarrow> False | Inr _ \<Rightarrow> True)"

definition others_step :: "'w tr_client \<Rightarrow> 'w \<Rightarrow> 'w \<Rightarrow> bool" where
  "others_step c w w' \<longleftrightarrow> (\<forall>ns lt i.
     live_labels c w' ns (ReplayShardName lt i) = live_labels c w ns (ReplayShardName lt i) \<and>
     (present c w' ns (ReplayShardName lt i) \<longrightarrow> present c w ns (ReplayShardName lt i)))"

inductive spoke_run :: "'w tr_client \<Rightarrow> 'w \<Rightarrow> ReplayDirective list \<Rightarrow> 'w \<Rightarrow> bool" for c w0 where
  run_start: "spoke_run c w0 [] w0"
| run_directive: "spoke_run c w0 ds w \<Longrightarrow> Handle c (Some d) w = (w', None) \<Longrightarrow> spoke_run c w0 (ds @ [d]) w'"
| run_others: "spoke_run c w0 ds w \<Longrightarrow> others_step c w w' \<Longrightarrow> spoke_run c w0 ds w'"

definition directive_index :: "ReplayDirective \<Rightarrow> int" where
  "directive_index d = (case rd_Spec d of None \<Rightarrow> 0 | Some spec \<Rightarrow> (case sp_Shard spec of Some s \<Rightarrow> sh_Index s | None \<Rightarrow> 0))"

definition for_test :: "string \<Rightarrow> string \<Rightarrow> ReplayDirective \<Rightarrow> bool" where
  "for_test ns lt d \<longleftrightarrow> rd_LoadTestNamespace d = ns \<and> rd_LoadTestName d = lt"

definition started_by :: "string \<Rightarrow> string \<Rightarrow> ReplayDirective \<Rightarrow> int set \<Rightarrow> int set" where
  "started_by ns lt d S =
    (if \<not> for_test ns lt d then S
     else case rd_Action d of REPLAY_ACTION_START \<Rightarrow> insert (directive_index d) S | REPLAY_ACTION_STOP \<Rightarrow> {} | _ \<Rightarrow> S)"

definition started :: "string \<Rightarrow> string \<Rightarrow> ReplayDirective list \<Rightarrow> int set" where
  "started ns lt ds = fold (started_by ns lt) ds {}"

definition shard_inv :: "'w tr_client \<Rightarrow> string \<Rightarrow> string \<Rightarrow> ReplayDirective list \<Rightarrow> 'w \<Rightarrow> int \<Rightarrow> bool" where
  "shard_inv c ns lt ds w i \<longleftrightarrow>
    (\<forall>L. live_labels c w ns (ReplayShardName lt i) = Some L \<longrightarrow>
       gm_get L LabelLoadTest = Some lt \<and> i \<in> started ns lt ds) \<and>
    (\<not> (\<exists>d\<in>set ds. for_test ns lt d \<and> rd_Action d = REPLAY_ACTION_STOP) \<longrightarrow>
       (present c w ns (ReplayShardName lt i) \<longleftrightarrow> live_labels c w ns (ReplayShardName lt i) \<noteq> None) \<and>
       (i \<in> started ns lt ds \<longrightarrow> present c w ns (ReplayShardName lt i)))"

lemma started_snoc [simp]: "started ns lt (ds @ [d]) = started_by ns lt d (started ns lt ds)"
  by (simp add: started_def)

lemma same_get_obs:
  "tc_get c w' ns n = tc_get c w ns n \<Longrightarrow> live_labels c w' ns n = live_labels c w ns n \<and> present c w' ns n = present c w ns n"
  by (simp add: live_labels_def present_def)

lemma shard_inv_same:
  assumes "shard_inv c ns lt ds w i" and "tc_get c w' ns (ReplayShardName lt i) = tc_get c w ns (ReplayShardName lt i)"
    and "i \<in> started_by ns lt d (started ns lt ds) \<longleftrightarrow> i \<in> started ns lt ds"
  shows "shard_inv c ns lt (ds @ [d]) w' i"
  using assms(1,3) same_get_obs [OF assms(2)] by (auto simp: shard_inv_def)

lemma replay_name:
  "rd_Spec d = Some spec \<Longrightarrow> tr_Name (replayFromDirective d spec) = ReplayShardName (rd_LoadTestName d) (directive_index d)"
  by (simp add: replayFromDirective_def directive_index_def Let_def)

lemma replay_fields [simp]:
  "tr_Namespace (replayFromDirective d spec) = rd_LoadTestNamespace d"
  "tr_DeletionTimestamp (replayFromDirective d spec) = None"
  "gm_get (tr_Labels (replayFromDirective d spec)) LabelLoadTest = Some (rd_LoadTestName d)"
  by (simp_all add: replayFromDirective_def Let_def gm_get_def)

lemma shard_inv_start:
  assumes "tr_client_laws c" and inv: "shard_inv c ns lt ds w i" and "0 \<le> i" and "0 \<le> directive_index d"
    and act: "rd_Action d = REPLAY_ACTION_START" and "Handle c (Some d) w = (w', None)"
  shows "shard_inv c ns lt (ds @ [d]) w' i"
proof -
  have law: "create_law c" using assms(1) by (simp add: tr_client_laws_def)
  have "handleStart c d w = (w', None)" using act assms(6) by (simp add: Handle_def)
  then obtain spec where spec: "rd_Spec d = Some spec"
    and alt: "w' = w \<and> (\<exists>tr. tc_get c w (tr_Namespace (replayFromDirective d spec)) (tr_Name (replayFromDirective d spec)) = Inr tr) \<or>
      tc_create c w (replayFromDirective d spec) = (w', None)"
    by (rule handleStart_cases)
  show ?thesis
  proof (cases "for_test ns lt d \<and> directive_index d = i")
    case False
    then have "(ns, ReplayShardName lt i) \<noteq> (tr_Namespace (replayFromDirective d spec), tr_Name (replayFromDirective d spec))"
      using shard_name_eq [OF _ assms(3,4)] by (auto simp: replay_name [OF spec] for_test_def)
    then have "tc_get c w' ns (ReplayShardName lt i) = tc_get c w ns (ReplayShardName lt i)"
      using alt law unfolding create_law_def by metis
    then show ?thesis using False act by (intro shard_inv_same [OF inv]) (auto simp: started_by_def)
  next
    case True
    then have key: "rd_LoadTestNamespace d = ns" "tr_Name (replayFromDirective d spec) = ReplayShardName lt i" "rd_LoadTestName d = lt"
      by (auto simp: replay_name [OF spec] for_test_def)
    from alt show ?thesis
    proof
      assume "w' = w \<and> (\<exists>tr. tc_get c w (tr_Namespace (replayFromDirective d spec)) (tr_Name (replayFromDirective d spec)) = Inr tr)"
      then show ?thesis using inv True act by (auto simp: shard_inv_def started_by_def key present_def)
    next
      assume "tc_create c w (replayFromDirective d spec) = (w', None)"
      then obtain tr where "created (replayFromDirective d spec) tr" "tc_get c w' ns (ReplayShardName lt i) = Inr tr"
        using law unfolding create_law_def by (metis key(1,2) replay_fields(1))
      then have "live_labels c w' ns (ReplayShardName lt i) = Some (tr_Labels (replayFromDirective d spec))"
        "present c w' ns (ReplayShardName lt i)"
        by (auto simp: live_labels_def present_def created_def)
      then show ?thesis using True act by (auto simp: shard_inv_def started_by_def key)
    qed
  qed
qed

lemma shard_inv_stop:
  assumes "tr_client_laws c" and inv: "shard_inv c ns lt ds w i"
    and act: "rd_Action d = REPLAY_ACTION_STOP" and "Handle c (Some d) w = (w', None)"
  shows "shard_inv c ns lt (ds @ [d]) w' i"
proof -
  let ?n = "ReplayShardName lt i"
  have "tc_deleteAllOf c w (rd_LoadTestNamespace d) (LabelLoadTest, rd_LoadTestName d) = (w', None)"
    using act assms(4) by (auto simp: Handle_def handleStop_def split: if_splits prod.splits)
  then have law: "case tc_get c w ns ?n of Inl e \<Rightarrow> tc_get c w' ns ?n = Inl e
      | Inr tr \<Rightarrow> if ns = rd_LoadTestNamespace d \<and> has_label tr (LabelLoadTest, rd_LoadTestName d)
          then tc_get c w' ns ?n = Inl K8sNotFound \<or> (\<exists>t. tc_get c w' ns ?n = Inr (tr\<lparr>tr_DeletionTimestamp := Some t\<rparr>))
          else tc_get c w' ns ?n = Inr tr"
    using assms(1) unfolding tr_client_laws_def delete_all_law_def by blast
  show ?thesis
  proof (cases "for_test ns lt d")
    case True
    then have "live_labels c w' ns ?n = None"
      using law inv by (auto simp: shard_inv_def for_test_def live_labels_def has_label_def split: sum.splits if_splits)
    then show ?thesis using True act by (auto simp: shard_inv_def)
  next
    case False
    then have "live_labels c w' ns ?n = live_labels c w ns ?n \<and> (present c w' ns ?n \<longrightarrow> present c w ns ?n) \<and>
        (live_labels c w ns ?n \<noteq> None \<longrightarrow> present c w' ns ?n)"
      using law inv by (auto simp: shard_inv_def for_test_def live_labels_def present_def has_label_def split: sum.splits if_splits)
    then show ?thesis using False inv by (auto simp: shard_inv_def started_by_def)
  qed
qed

text \<open>
  C6. The shards that live on a spoke are those the directives asked for: in a namespace that held
  none of the load test's shards, after any sequence of directives, each handled without error and
  with the rest of the cluster moving in between, every live shard of the load test was started
  after the last STOP for it - so after a STOP none is live. As long as no STOP came, exactly the
  started shards are live, however often their STARTs were repeated and in whatever order they came.
\<close>

theorem directives_live:
  assumes "tr_client_laws c" and "spoke_run c w0 ds w" and "\<forall>d\<in>set ds. 0 \<le> directive_index d"
    and "\<forall>i. \<not> present c w0 ns (ReplayShardName lt i)" and "0 \<le> i"
  shows "(live_labels c w ns (ReplayShardName lt i) \<noteq> None \<longrightarrow> i \<in> started ns lt ds) \<and>
    ((\<forall>d\<in>set ds. for_test ns lt d \<longrightarrow> rd_Action d \<noteq> REPLAY_ACTION_STOP) \<longrightarrow>
      (live_labels c w ns (ReplayShardName lt i) \<noteq> None \<longleftrightarrow> i \<in> started ns lt ds))"
proof -
  have "shard_inv c ns lt ds w i" using assms(2,3)
  proof (induction rule: spoke_run.induct)
    case run_start
    then show ?case using assms(4) by (auto simp: shard_inv_def started_def live_labels_def present_def split: sum.splits if_splits)
  next
    case (run_directive ds w d w')
    then have inv: "shard_inv c ns lt ds w i" and idx: "0 \<le> directive_index d" by auto
    show ?case
    proof (cases "rd_Action d = REPLAY_ACTION_START \<or> rd_Action d = REPLAY_ACTION_STOP")
      case True
      then show ?thesis
        using shard_inv_start [OF assms(1) inv assms(5) idx] shard_inv_stop [OF assms(1) inv] run_directive.hyps(2) by blast
    next
      case False
      then have "w' = w" using run_directive.hyps(2) by (auto simp: Handle_def split: ReplayAction.splits)
      then show ?thesis using False by (intro shard_inv_same [OF inv]) (auto simp: started_by_def split: ReplayAction.splits)
    qed
  next
    case (run_others ds w w')
    then have inv: "shard_inv c ns lt ds w i" and same: "live_labels c w' ns (ReplayShardName lt i) = live_labels c w ns (ReplayShardName lt i)"
      "present c w' ns (ReplayShardName lt i) \<longrightarrow> present c w ns (ReplayShardName lt i)"
      by (auto simp: others_step_def)
    have "live_labels c w' ns (ReplayShardName lt i) \<noteq> None \<longrightarrow> present c w' ns (ReplayShardName lt i)"
      by (auto simp: live_labels_def present_def split: sum.splits)
    then show ?case using inv same unfolding shard_inv_def by auto
  qed
  then show ?thesis unfolding shard_inv_def by auto
qed

lemma collect_loop_keeps:
  assumes "delete_law c" and "\<forall>tr'\<in>set trs. orphaned minAge act now tr' \<longrightarrow> (tr_Namespace tr', tr_Name tr') \<noteq> (ns, n)"
  shows "tc_get c (collect_loop c minAge act now trs w) ns n = tc_get c w ns n"
  using assms(2)
proof (induction trs arbitrary: w)
  case (Cons tr trs)
  have "tc_get c (fst (tc_delete c w tr)) ns n = tc_get c w ns n" if "orphaned minAge act now tr"
  proof -
    have "(ns, n) \<noteq> (tr_Namespace tr, tr_Name tr)" using that Cons.prems by auto
    then show ?thesis using assms(1) unfolding delete_law_def by (metis prod.collapse)
  qed
  with Cons show ?case by simp
qed simp

text \<open>
  C18. Garbage collection is safe: a replay survives a collection unless it belongs to a load test
  that is missing from the hub's list and is at least the minimum age old. Replays created by
  users, and shards of load tests on the list, are never deleted.
\<close>

theorem gc_safe:
  assumes "tr_client_laws c" and "tc_get c w ns n = Inr tr"
    and "trs_LoadTestRef (tr_Spec tr) = None \<or>
      (\<exists>lt. trs_LoadTestRef (tr_Spec tr) = Some lt \<and>
        (\<lparr>lk_Namespace = ns, lk_Name = lt\<rparr> \<in> set active \<or>
         time_sub now (tr_CreationTimestamp tr) < (if minAge \<le> 0 then DefaultOrphanMinAge else minAge)))"
  shows "tc_get c (Collect c minAge active now w) ns n = Inr tr"
proof (cases "tc_list c w")
  case (Inl e)
  then show ?thesis using assms(2) by (simp add: Collect_def Let_def)
next
  case (Inr trs)
  let ?age = "if minAge \<le> 0 then DefaultOrphanMinAge else minAge"
  let ?act = "map (\<lambda>k. lk_Namespace k @ ''/'' @ lk_Name k) active"
  have named: "tr_Namespace tr = ns" "tr_Name tr = n"
    using assms(1,2) by (auto simp: tr_client_laws_def get_named_def)
  have keep: "\<not> orphaned ?age ?act now tr"
    using assms(3) named by (force simp: orphaned_def split: option.splits)
  have "tr' = tr" if "tr' \<in> set trs" "(tr_Namespace tr', tr_Name tr') = (ns, n)" for tr'
    using that Inr assms(1,2) by (auto simp: tr_client_laws_def list_law_def)
  then have "tc_get c (collect_loop c ?age ?act now trs w) ns n = tc_get c w ns n"
    using keep assms(1) by (intro collect_loop_keeps) (auto simp: tr_client_laws_def)
  then show ?thesis using Inr assms(2) by (simp add: Collect_def Let_def)
qed

section \<open>A store that meets the laws\<close>

definition store_get :: "TrafficReplay list \<Rightarrow> string \<Rightarrow> string \<Rightarrow> k8s_error + TrafficReplay" where
  "store_get w ns n =
    (case find (\<lambda>tr. tr_Namespace tr = ns \<and> tr_Name tr = n) w of None \<Rightarrow> Inl K8sNotFound | Some tr \<Rightarrow> Inr tr)"

definition store_client :: "TrafficReplay list tr_client" where
  "store_client =
    \<lparr>tc_get = store_get,
     tc_create = (\<lambda>w tr. (tr\<lparr>tr_CreationTimestamp := 7\<rparr> # w, None)),
     tc_deleteAllOf = (\<lambda>w ns kv. (map (\<lambda>tr. if tr_Namespace tr = ns \<and> has_label tr kv
       then tr\<lparr>tr_DeletionTimestamp := Some 9\<rparr> else tr) w, None)),
     tc_list = (\<lambda>w. Inr (filter (\<lambda>tr. store_get w (tr_Namespace tr) (tr_Name tr) = Inr tr) w)),
     tc_delete = (\<lambda>w tr. (filter (\<lambda>tr'. \<not> (tr_Namespace tr' = tr_Namespace tr \<and> tr_Name tr' = tr_Name tr)) w, None))\<rparr>"

lemma store_get_mark:
  "store_get (map (\<lambda>tr. if tr_Namespace tr = ns \<and> has_label tr kv then tr\<lparr>tr_DeletionTimestamp := Some t\<rparr> else tr) w) ns' n =
    (case store_get w ns' n of
       Inl e \<Rightarrow> Inl e
     | Inr tr \<Rightarrow> Inr (if ns' = ns \<and> has_label tr kv then tr\<lparr>tr_DeletionTimestamp := Some t\<rparr> else tr))"
  by (induction w) (auto simp: store_get_def)

lemma store_get_filter:
  "(ns = a \<longrightarrow> n \<noteq> b) \<Longrightarrow>
    store_get (filter (\<lambda>tr'. tr_Namespace tr' = a \<longrightarrow> tr_Name tr' \<noteq> b) w) ns n = store_get w ns n"
  by (induction w) (auto simp: store_get_def)

lemma store_get_named: "store_get w ns n = Inr tr \<Longrightarrow> tr_Namespace tr = ns \<and> tr_Name tr = n"
  by (auto simp: store_get_def find_Some_iff split: option.splits)

lemma store_client_laws: "tr_client_laws store_client"
proof -
  have "get_named store_client" by (auto simp: get_named_def store_client_def dest: store_get_named)
  moreover have "create_law store_client" by (auto simp: create_law_def store_client_def created_def store_get_def)
  moreover have "delete_all_law store_client"
    by (auto simp: delete_all_law_def store_client_def store_get_mark split: sum.splits)
  moreover have "delete_law store_client" by (simp add: delete_law_def store_client_def store_get_filter)
  moreover have "list_law store_client" by (simp add: list_law_def store_client_def)
  ultimately show ?thesis by (simp add: tr_client_laws_def)
qed

definition ex_start :: "int \<Rightarrow> ReplayDirective" where
  "ex_start i = buildStartDirective ex_lt i"

definition ex_world :: "TrafficReplay list" where
  "ex_world = [(replayFromDirective (ex_start 1) (the (rd_Spec (ex_start 1))))\<lparr>tr_CreationTimestamp := 7\<rparr>,
    (replayFromDirective (ex_start 0) (the (rd_Spec (ex_start 0))))\<lparr>tr_CreationTimestamp := 7\<rparr>]"

lemma ex_start_runs:
  "Handle store_client (Some (ex_start 0)) [] = ([(replayFromDirective (ex_start 0) (the (rd_Spec (ex_start 0))))\<lparr>tr_CreationTimestamp := 7\<rparr>], None)"
  "Handle store_client (Some (ex_start 1)) [(replayFromDirective (ex_start 0) (the (rd_Spec (ex_start 0))))\<lparr>tr_CreationTimestamp := 7\<rparr>] = (ex_world, None)"
  by code_simp+

theorem start_idempotent_witness:
  "Handle store_client (Some (ex_start 1)) ex_world = (ex_world, None)"
  using start_idempotent [OF store_client_laws _ ex_start_runs(2)]
  by (simp add: ex_start_def buildStartDirective_def Let_def)

theorem directives_live_witness:
  "live_labels store_client ex_world ''ns'' (ReplayShardName ''lt'' 1) \<noteq> None \<and>
    live_labels store_client ex_world ''ns'' (ReplayShardName ''lt'' 2) = None"
proof -
  let ?ds = "[ex_start 0, ex_start 1]"
  have "spoke_run store_client [] ([] @ [ex_start 0])
      [(replayFromDirective (ex_start 0) (the (rd_Spec (ex_start 0))))\<lparr>tr_CreationTimestamp := 7\<rparr>]"
    by (intro run_directive [OF run_start] ex_start_runs)
  then have "spoke_run store_client [] (([] @ [ex_start 0]) @ [ex_start 1]) ex_world"
    by (rule run_directive) (rule ex_start_runs)
  then have run: "spoke_run store_client [] ?ds ex_world" by simp
  have idx: "\<forall>d\<in>set ?ds. 0 \<le> directive_index d" by code_simp
  have clean: "\<forall>i. \<not> present store_client [] ''ns'' (ReplayShardName ''lt'' i)"
    by (simp add: present_def store_client_def store_get_def)
  have st: "started ''ns'' ''lt'' ?ds = {0, 1}" "\<forall>d\<in>set ?ds. for_test ''ns'' ''lt'' d \<longrightarrow> rd_Action d \<noteq> REPLAY_ACTION_STOP"
    by code_simp+
  show ?thesis
    using directives_live [OF store_client_laws run idx clean, of 1] directives_live [OF store_client_laws run idx clean, of 2] st by simp
qed

theorem gc_safe_witness:
  "tc_get store_client (Collect store_client 0 [] (60 * second) ex_world) ''ns'' ''lt-shard-1'' = Inr (hd ex_world)"
proof -
  have "tc_get store_client ex_world ''ns'' ''lt-shard-1'' = Inr (hd ex_world)" by code_simp
  moreover have "trs_LoadTestRef (tr_Spec (hd ex_world)) = Some ''lt''"
    "time_sub (60 * second) (tr_CreationTimestamp (hd ex_world)) < (if (0 :: int) \<le> 0 then DefaultOrphanMinAge else 0)"
    by code_simp+
  ultimately show ?thesis by (intro gc_safe [OF store_client_laws]) auto
qed

end
