(* ===== verification/Captured_Requests.thy ===== *)
theory Captured_Requests
  imports Sharding Float64
begin

text \<open>
  The captured request (\<^verbatim>\<open>internal/storage/interface.go\<close>), the copies and header rewrites that
  transformers make of it (\<^verbatim>\<open>internal/plugin/payload/plugin.go\<close>, \<^verbatim>\<open>internal/plugin/replay/engine.go\<close>),
  and the selection of requests by read options (\<^verbatim>\<open>internal/plugin/replay/reader_s3.go\<close>). A nil map
  and an empty map are the same association list, a nil and an empty body the same byte string:
  no code under consideration tells them apart.
\<close>

record CapturedRequest =
  cr_ID :: string
  cr_Timestamp :: time
  cr_Method :: string
  cr_Path :: string
  cr_Headers :: "(string, string list) gomap"
  cr_Body :: string
  cr_ContentLength :: int
  cr_Protocol :: string
  cr_Metadata :: "(string, string) gomap"

text \<open>An error is kept as the class that \<^verbatim>\<open>errors.Is\<close> and \<^verbatim>\<open>errors.As\<close> tell apart.\<close>

datatype go_error = Canceled | DeadlineExceeded | NetTimeout | EOF | OtherError string

section \<open>Copies and header rewriting\<close>

text \<open>
  Values are immutable here, so a copy is the request itself; that the code copies before it
  writes is what makes this faithful.
\<close>

definition CopyRequest :: "CapturedRequest option \<Rightarrow> CapturedRequest option" where
  "CopyRequest req =
    (case req of
       None \<Rightarrow> None
     | Some r \<Rightarrow> Some (r\<lparr>cr_Headers := map (\<lambda>(k, v). (k, v)) (cr_Headers r), cr_Metadata := map (\<lambda>(k, v). (k, v)) (cr_Metadata r)\<rparr>))"

record HeaderRewriter =
  hr_Set :: "(string, string) gomap"
  hr_Add :: "(string, string) gomap"
  hr_Remove :: "string list"

definition header_add :: "string \<Rightarrow> string \<Rightarrow> (string, string list) gomap \<Rightarrow> (string, string list) gomap" where
  "header_add name value h =
    gm_put name ((case gm_get h name of None \<Rightarrow> [] | Some vs \<Rightarrow> vs) @ [value]) h"

definition HeaderRewriter_Transform :: "HeaderRewriter \<Rightarrow> CapturedRequest \<Rightarrow> go_error + CapturedRequest option" where
  "HeaderRewriter_Transform h req =
    Inr (map_option (\<lambda>cp.
      cp\<lparr>cr_Headers :=
        fold (\<lambda>(name, value). header_add name value) (hr_Add h)
          (fold (\<lambda>(name, value). gm_put name [value]) (hr_Set h)
            (fold gm_del (hr_Remove h) (cr_Headers cp)))\<rparr>) (CopyRequest (Some req)))"

lemma CopyRequest_id [simp]: "CopyRequest req = req"
  by (cases req) (simp_all add: CopyRequest_def)

lemma gm_ok_dels: "gm_ok m \<Longrightarrow> gm_ok (fold gm_del ks m)"
  by (induction ks arbitrary: m) (auto intro: gm.ok_del)

lemma gm_get_dels: "gm_ok m \<Longrightarrow> gm_get (fold gm_del ks m) k = (if k \<in> set ks then None else gm_get m k)"
  by (induction ks arbitrary: m) (auto simp: gm.get_del gm.ok_del)

lemma gm_get_sets:
  "gm_get (fold (\<lambda>(n, v). gm_put n [v]) kvs m) k =
    (case gm_get (rev kvs) k of Some v \<Rightarrow> Some [v] | None \<Rightarrow> gm_get m k)"
  by (induction kvs arbitrary: m rule: rev_induct) (auto simp: gm_get_def gm_put_def update_conv split: option.splits)

lemma gm_get_adds:
  "gm_ok kvs \<Longrightarrow> gm_get (fold (\<lambda>(n, v). header_add n v) kvs m) k =
    (case gm_get kvs k of
       None \<Rightarrow> gm_get m k
     | Some v \<Rightarrow> Some ((case gm_get m k of None \<Rightarrow> [] | Some vs \<Rightarrow> vs) @ [v]))"
proof (induction kvs arbitrary: m)
  case (Cons kv kvs)
  obtain n v where kv: "kv = (n, v)" by force
  have *: "gm_ok kvs" "gm_get kvs n = None" using Cons.prems by (auto simp: kv gm_ok_def gm_get_None_iff)
  show ?case
    using Cons.IH [OF *(1)] *(2)
    by (auto simp: kv header_add_def gm.get_put gm_get_def [of "(n, v) # kvs"] gm_get_def [symmetric] split: option.splits)
qed simp

lemma gm_get_rev: "gm_ok m \<Longrightarrow> gm_get (rev m) k = gm_get m k"
proof -
  assume ok: "gm_ok m"
  then have "gm_ok (rev m)" by (simp add: gm_ok_def flip: rev_map)
  then have "gm_get (rev m) k = Some v \<longleftrightarrow> gm_get m k = Some v" for v
    using ok by (simp add: gm_get_iff)
  then show ?thesis by (metis option.exhaust)
qed

text \<open>
  What the rewriter leaves under each name: removals come first, then the set values, then the
  added ones, independently of the order in which the maps are visited.
\<close>

lemma HeaderRewriter_headers:
  assumes "gm_ok (cr_Headers req)" and "gm_ok (hr_Set h)" and "gm_ok (hr_Add h)"
  obtains r where "HeaderRewriter_Transform h req = Inr (Some r)" and "cr_ID r = cr_ID req"
    and "\<And>k. gm_get (cr_Headers r) k =
      (let base = (case gm_get (hr_Set h) k of
          Some v \<Rightarrow> Some [v]
        | None \<Rightarrow> if k \<in> set (hr_Remove h) then None else gm_get (cr_Headers req) k)
       in case gm_get (hr_Add h) k of
         None \<Rightarrow> base
       | Some v \<Rightarrow> Some ((case base of None \<Rightarrow> [] | Some vs \<Rightarrow> vs) @ [v]))"
proof
  let ?r = "req\<lparr>cr_Headers :=
        fold (\<lambda>(name, value). header_add name value) (hr_Add h)
          (fold (\<lambda>(name, value). gm_put name [value]) (hr_Set h) (fold gm_del (hr_Remove h) (cr_Headers req)))\<rparr>"
  show "HeaderRewriter_Transform h req = Inr (Some ?r)" by (simp add: HeaderRewriter_Transform_def)
  show "cr_ID ?r = cr_ID req" by simp
  show "gm_get (cr_Headers ?r) k =
      (let base = (case gm_get (hr_Set h) k of
          Some v \<Rightarrow> Some [v]
        | None \<Rightarrow> if k \<in> set (hr_Remove h) then None else gm_get (cr_Headers req) k)
       in case gm_get (hr_Add h) k of
         None \<Rightarrow> base
       | Some v \<Rightarrow> Some ((case base of None \<Rightarrow> [] | Some vs \<Rightarrow> vs) @ [v]))" for k
    using assms by (simp add: gm_get_adds gm_get_sets [of "hr_Set h" _ k] gm_get_dels gm_get_rev Let_def split: option.splits)
qed

section \<open>Read options\<close>

record ReadOptions =
  ro_CaptureID :: string
  ro_StartTime :: time
  ro_EndTime :: time
  ro_PathPrefix :: string
  ro_Methods :: "string list"
  ro_Limit :: int

definition equal_fold :: "string \<Rightarrow> string \<Rightarrow> bool" where
  "equal_fold a b \<longleftrightarrow> to_lower a = to_lower b"

definition matchesReadOptions :: "CapturedRequest \<Rightarrow> ReadOptions \<Rightarrow> bool" where
  "matchesReadOptions req opts =
    (if ro_StartTime opts \<noteq> 0 \<and> cr_Timestamp req < ro_StartTime opts then False
     else if ro_EndTime opts \<noteq> 0 \<and> ro_EndTime opts < cr_Timestamp req then False
     else if ro_PathPrefix opts \<noteq> '''' \<and> \<not> prefix (ro_PathPrefix opts) (cr_Path req) then False
     else if ro_Methods opts \<noteq> [] \<and> \<not> list_ex (equal_fold (cr_Method req)) (ro_Methods opts) then False
     else True)"

end
