(* ===== verification/Replay_Summary.thy ===== *)
theory Replay_Summary
  imports Captured_Requests
begin

text \<open>
  Results of a replay and their summary: the default result handler and its statistics
  (\<^verbatim>\<open>internal/plugin/replay/plugin.go\<close>) and the run report made of them
  (\<^verbatim>\<open>internal/plugin/replay/report.go\<close>). Durations wrap at 64 bits where the code adds them;
  percentile indexes and rates are computed in double precision as the code does.
\<close>

section \<open>Results\<close>

record Result =
  r_RequestID :: string
  r_StatusCode :: int
  r_ResponseHeaders :: "(string, string list) gomap"
  r_ResponseBody :: string
  r_Duration :: duration
  r_Error :: "go_error option"
  r_Timestamp :: time

record Summary =
  s_TotalRequests :: int
  s_SuccessCount :: int
  s_ErrorCount :: int
  s_FilteredCount :: int
  s_MeanLatency :: duration
  s_P50Latency :: duration
  s_P95Latency :: duration
  s_P99Latency :: duration
  s_StatusCodeDist :: "(int, int) gomap"
  s_StartTime :: time
  s_EndTime :: time
  s_TotalDuration :: duration
  s_BytesSent :: int
  s_BytesReceived :: int
  s_ErrorsByType :: "(string, int) gomap"

definition HandleResult :: "Result list \<Rightarrow> Result \<Rightarrow> Result list \<times> go_error option" where
  "HandleResult results result = (results @ [result], None)"

definition errorCategory :: "go_error option \<Rightarrow> string" where
  "errorCategory err =
    (case err of
       None \<Rightarrow> ''''
     | Some Canceled \<Rightarrow> ''canceled''
     | Some DeadlineExceeded \<Rightarrow> ''deadline_exceeded''
     | Some NetTimeout \<Rightarrow> ''timeout''
     | Some EOF \<Rightarrow> ''connection_closed''
     | Some (OtherError _) \<Rightarrow> ''unknown'')"

section \<open>Sorting and percentiles\<close>

text \<open>
  The insertion sort in place: \<open>sift ds key i\<close> is the inner loop with \<^verbatim>\<open>j + 1 = i\<close>, which moves larger
  elements up until the place of the key is found.
\<close>

fun sift :: "duration list \<Rightarrow> duration \<Rightarrow> nat \<Rightarrow> duration list" where
  "sift ds key 0 = ds[0 := key]"
| "sift ds key (Suc j) = (if key < ds ! j then sift (ds[Suc j := ds ! j]) key j else ds[Suc j := key])"

lemma length_sift [simp]: "length (sift ds key i) = length ds"
  by (induction ds key i rule: sift.induct) auto

function sort_from :: "duration list \<Rightarrow> nat \<Rightarrow> duration list" where
  "sort_from ds i = (if i < length ds then sort_from (sift ds (ds ! i) i) (Suc i) else ds)"
  by auto
termination by (relation "measure (\<lambda>(ds, i). length ds - i)") auto

declare sort_from.simps [simp del]

definition sortDurations :: "duration list \<Rightarrow> duration list" where
  "sortDurations ds = sort_from ds 1"

definition f_trunc :: "f64 \<Rightarrow> int" where
  "f_trunc x =
    (case x of
       Fin q \<Rightarrow> let t = (if 0 \<le> q then \<lfloor>q\<rfloor> else \<lceil>q\<rceil>) in if in_i64 t then t else - (2 ^ 63)
     | _ \<Rightarrow> - (2 ^ 63))"

definition percentileDuration :: "duration list \<Rightarrow> f64 \<Rightarrow> duration" where
  "percentileDuration ds p =
    (if length ds = 0 then 0
     else let sorted = sortDurations ds;
              idx = f_trunc (f_mul (f_of_int (int (length sorted) - 1)) p)
          in sorted ! nat idx)"

definition meanDuration :: "duration list \<Rightarrow> duration" where
  "meanDuration ds =
    (if length ds = 0 then 0 else (foldl (\<lambda>total d. i64 (total + d)) 0 ds) sdiv int (length ds))"

section \<open>The summary\<close>

definition gm_incr :: "'k \<Rightarrow> ('k, int) gomap \<Rightarrow> ('k, int) gomap" where
  "gm_incr k m = gm_put k ((case gm_get m k of None \<Rightarrow> 0 | Some n \<Rightarrow> n) + 1) m"

definition empty_summary :: Summary where
  "empty_summary = \<lparr>s_TotalRequests = 0, s_SuccessCount = 0, s_ErrorCount = 0, s_FilteredCount = 0,
    s_MeanLatency = 0, s_P50Latency = 0, s_P95Latency = 0, s_P99Latency = 0, s_StatusCodeDist = [],
    s_StartTime = 0, s_EndTime = 0, s_TotalDuration = 0, s_BytesSent = 0, s_BytesReceived = 0, s_ErrorsByType = []\<rparr>"

definition summarize_step :: "Summary \<Rightarrow> Result \<Rightarrow> Summary" where
  "summarize_step s r =
    (let s1 = (case r_Error r of
           Some _ \<Rightarrow> s\<lparr>s_ErrorCount := s_ErrorCount s + 1, s_ErrorsByType := gm_incr (errorCategory (r_Error r)) (s_ErrorsByType s)\<rparr>
         | None \<Rightarrow> s\<lparr>s_SuccessCount := s_SuccessCount s + 1\<rparr>);
         s2 = (if 0 < r_StatusCode r then s1\<lparr>s_StatusCodeDist := gm_incr (r_StatusCode r) (s_StatusCodeDist s1)\<rparr> else s1);
         s3 = s2\<lparr>s_BytesSent := s_BytesSent s2 + int (length (r_ResponseBody r))\<rparr>;
         s4 = (if s_StartTime s3 = 0 \<or> r_Timestamp r < s_StartTime s3 then s3\<lparr>s_StartTime := r_Timestamp r\<rparr> else s3)
     in if s_EndTime s4 < r_Timestamp r then s4\<lparr>s_EndTime := r_Timestamp r\<rparr> else s4)"

definition Summarize :: "Result list \<Rightarrow> go_error + Summary" where
  "Summarize results =
    (if results = [] then Inr empty_summary
     else let s = foldl summarize_step (empty_summary\<lparr>s_TotalRequests := int (length results)\<rparr>) results;
              latencies = map r_Duration results
          in Inr (s\<lparr>
            s_TotalDuration := time_sub (s_EndTime s) (s_StartTime s),
            s_MeanLatency := meanDuration latencies,
            s_P50Latency := percentileDuration latencies (f_rnd (1 / 2)),
            s_P95Latency := percentileDuration latencies (f_rnd (95 / 100)),
            s_P99Latency := percentileDuration latencies (f_rnd (99 / 100))\<rparr>))"

section \<open>The run report\<close>

record RunReport =
  rp_TotalRequests :: int
  rp_SentRequests :: int
  rp_FailedRequests :: int
  rp_FilteredRequests :: int
  rp_DurationMs :: int
  rp_AchievedRPS :: f64
  rp_MeanLatencyMs :: int
  rp_P50LatencyMs :: int
  rp_P95LatencyMs :: int
  rp_P99LatencyMs :: int

definition milliseconds :: "duration \<Rightarrow> int" where
  "milliseconds d = d sdiv 1000000"

definition dur_seconds :: "duration \<Rightarrow> f64" where
  "dur_seconds d = f_add (f_of_int (d sdiv second)) (f_div (f_of_int (d smod second)) (f_of_int second))"

definition NewRunReport :: "Summary \<Rightarrow> RunReport" where
  "NewRunReport s =
    \<lparr>rp_TotalRequests = s_TotalRequests s, rp_SentRequests = s_SuccessCount s, rp_FailedRequests = s_ErrorCount s,
     rp_FilteredRequests = s_FilteredCount s, rp_DurationMs = milliseconds (s_TotalDuration s),
     rp_AchievedRPS = (if 0 < s_TotalDuration s then f_div (f_of_int (s_SuccessCount s)) (dur_seconds (s_TotalDuration s)) else Fin 0),
     rp_MeanLatencyMs = milliseconds (s_MeanLatency s), rp_P50LatencyMs = milliseconds (s_P50Latency s),
     rp_P95LatencyMs = milliseconds (s_P95Latency s), rp_P99LatencyMs = milliseconds (s_P99Latency s)\<rparr>"

section \<open>Correctness\<close>

lemma insort_snoc_less: "sorted xs \<Longrightarrow> k < y \<Longrightarrow> insort k (xs @ [y]) = insort k xs @ [y]"
  for k y :: int
  by (induction xs) auto

lemma sift_insort:
  "i < length ds \<Longrightarrow> sorted (take i ds) \<Longrightarrow> sift ds key i = insort key (take i ds) @ drop (Suc i) ds"
proof (induction i arbitrary: ds)
  case 0
  then show ?case by (cases ds) auto
next
  case (Suc j)
  have tk: "take (Suc j) ds = take j ds @ [ds ! j]" using Suc.prems(1) by (simp add: take_Suc_conv_app_nth)
  have srt: "sorted (take j ds)" "\<forall>x\<in>set (take j ds). x \<le> ds ! j" using Suc.prems(2) by (auto simp: tk sorted_append)
  show ?case
  proof (cases "key < ds ! j")
    case True
    let ?ds = "ds[Suc j := ds ! j]"
    have "sift ?ds key j = insort key (take j ?ds) @ drop (Suc j) ?ds"
      using Suc.prems(1) srt(1) by (intro Suc.IH) auto
    also have "drop (Suc j) ?ds = ds ! j # drop (Suc (Suc j)) ds"
      using Suc.prems(1) by (simp add: drop_update_swap flip: Cons_nth_drop_Suc)
    finally show ?thesis using True srt(1) by (simp add: tk insort_snoc_less)
  next
    case False
    then have "insort key (take (Suc j) ds) = take (Suc j) ds @ [key]"
      using Suc.prems(2) srt(2) unfolding tk by (intro sorted_insort_is_snoc) auto
    then show ?thesis using False Suc.prems(1) by (simp add: upd_conv_take_nth_drop)
  qed
qed

lemma sort_from_sort: "i \<le> length ds \<Longrightarrow> sorted (take i ds) \<Longrightarrow> sort_from ds i = sort ds"
proof (induction ds i rule: sort_from.induct)
  case (1 ds i)
  show ?case
  proof (cases "i < length ds")
    case True
    let ?ds = "sift ds (ds ! i) i"
    have eq: "?ds = insort (ds ! i) (take i ds) @ drop (Suc i) ds" using True 1(3) by (rule sift_insort)
    have "take (Suc i) ?ds = insort (ds ! i) (take i ds)" using True by (simp add: eq)
    then have "sorted (take (Suc i) ?ds)" using 1(3) by (simp add: sorted_insort)
    then have "sort_from ?ds (Suc i) = sort ?ds" using 1(1) [OF True] True by simp
    moreover have "mset ?ds = mset ds"
      using True by (metis eq id_take_nth_drop mset_append mset.simps(2) mset_insort union_mset_add_mset_left union_mset_add_mset_right)
    ultimately show ?thesis using True by (simp add: sort_from.simps [of ds] properties_for_sort)
  next
    case False
    then show ?thesis using 1(2,3) by (simp add: sort_from.simps [of ds] sorted_sort_id)
  qed
qed

lemma sortDurations_sort: "sortDurations ds = sort ds"
proof (cases ds)
  case (Cons d ds')
  then show ?thesis unfolding sortDurations_def by (intro sort_from_sort) (auto simp: sorted_sort_id)
qed (simp add: sortDurations_def sort_from.simps)

lemma f_trunc_Fin: "0 \<le> q \<Longrightarrow> q < 2 ^ 63 \<Longrightarrow> f_trunc (Fin q) = \<lfloor>q\<rfloor>"
  by (auto simp: f_trunc_def in_i64_def Let_def floor_less_iff intro: order_trans [of _ 0])

definition percentile_index :: "nat \<Rightarrow> f64 \<Rightarrow> int" where
  "percentile_index n p = f_trunc (f_mul (f_of_int (int n - 1)) p)"

lemma percentile_index_floor:
  assumes "0 < n" and "int n < 2 ^ 53" and "0 \<le> p" and "p \<le> 1"
  shows "percentile_index n (Fin p) = \<lfloor>rnd (of_int (int n - 1) * p)\<rfloor> \<and>
    0 \<le> rnd (of_int (int n - 1) * p) \<and> rnd (of_int (int n - 1) * p) \<le> of_int (int n - 1)"
proof -
  let ?m = "of_int (int n - 1) :: rat"
  have m: "\<bar>int n - 1\<bar> < 2 ^ 53" "0 \<le> ?m" using assms by auto
  have "?m * p \<le> ?m" using assms m(2) by (intro mult_left_le) auto
  then have ub: "rnd (?m * p) \<le> ?m"
    using rnd_mono [of "?m * p" ?m] rnd_exact [OF m(1)] assms(3) m(2) by simp
  have lb: "0 \<le> rnd (?m * p)" using assms(3) m(2) by (intro rnd_nonneg) simp
  have "?m < of_int (2 ^ 53)" using m(1) by (simp only: of_int_less_iff)
  then have small: "rnd (?m * p) < 2 ^ 53" using ub by simp
  then have "\<bar>rnd (?m * p)\<bar> < 2 powi 1024" using lb powi_53_1024 by simp
  then have "f_mul (f_of_int (int n - 1)) (Fin p) = Fin (rnd (?m * p))"
    by (simp add: f_of_int_exact [OF m(1)] f_rnd_Fin)
  then show ?thesis using lb ub small by (simp add: percentile_index_def f_trunc_Fin)
qed

lemma percentile_index_bounds:
  assumes "0 < n" and "int n < 2 ^ 53" and "0 \<le> p" and "p \<le> 1"
  shows "0 \<le> percentile_index n (Fin p) \<and> percentile_index n (Fin p) < int n"
proof -
  note pf = percentile_index_floor [OF assms]
  then have "\<lfloor>rnd (of_int (int n - 1) * p)\<rfloor> \<le> int n - 1" by (metis floor_mono floor_of_int)
  then show ?thesis using pf by simp
qed

lemma percentile_index_mono:
  assumes "0 < n" and "int n < 2 ^ 53" and "0 \<le> p" and "p \<le> q" and "q \<le> 1"
  shows "percentile_index n (Fin p) \<le> percentile_index n (Fin q)"
proof -
  have "rnd (of_int (int n - 1) * p) \<le> rnd (of_int (int n - 1) * q)"
    using assms by (intro rnd_mono mult_left_mono) auto
  then show ?thesis
    using percentile_index_floor [OF assms(1,2), of p] percentile_index_floor [OF assms(1,2), of q] assms by (simp add: floor_mono)
qed

lemma percentile_nth:
  "ds \<noteq> [] \<Longrightarrow> percentileDuration ds p = sort ds ! nat (percentile_index (length ds) p)"
  by (simp add: percentileDuration_def percentile_index_def sortDurations_sort Let_def)

text \<open>The three levels as the doubles that the literals of the code denote.\<close>

lemma levels:
  obtains a b c where "f_rnd (1 / 2) = Fin a" and "f_rnd (95 / 100) = Fin b" and "f_rnd (99 / 100) = Fin c"
    and "0 \<le> a" and "a \<le> b" and "b \<le> c" and "c \<le> 1"
proof -
  have "rnd (99 / 100) \<le> rnd (of_int 1)" by (rule rnd_mono) auto
  also have "\<dots> = 1" using rnd_exact [of 1] by simp
  finally have c: "rnd (99 / 100) \<le> 1" .
  have b: "rnd (95 / 100) \<le> rnd (99 / 100)" by (rule rnd_mono) auto
  have a: "rnd (1 / 2) \<le> rnd (95 / 100)" by (rule rnd_mono) auto
  have z: "0 \<le> rnd (1 / 2)" by (rule rnd_nonneg) simp
  have big: "(1 :: rat) < 2 powi 1024" using powi_53_1024 by (rule order.strict_trans [rotated]) simp
  have "f_rnd (1 / 2) = Fin (rnd (1 / 2))" using a b c z big by (intro f_rnd_Fin) simp
  moreover have "f_rnd (95 / 100) = Fin (rnd (95 / 100))" using a b c z big by (intro f_rnd_Fin) simp
  moreover have "f_rnd (99 / 100) = Fin (rnd (99 / 100))" using a b c z big by (intro f_rnd_Fin) simp
  ultimately show thesis using z a b c by (rule that)
qed

section \<open>Properties\<close>

lemma summarize_step_simps [simp]:
  "s_TotalRequests (summarize_step s r) = s_TotalRequests s"
  "s_FilteredCount (summarize_step s r) = s_FilteredCount s"
  "s_SuccessCount (summarize_step s r) = s_SuccessCount s + (if r_Error r = None then 1 else 0)"
  "s_ErrorCount (summarize_step s r) = s_ErrorCount s + (if r_Error r = None then 0 else 1)"
  "s_StatusCodeDist (summarize_step s r) =
    (if 0 < r_StatusCode r then gm_incr (r_StatusCode r) (s_StatusCodeDist s) else s_StatusCodeDist s)"
  "s_ErrorsByType (summarize_step s r) =
    (if r_Error r = None then s_ErrorsByType s else gm_incr (errorCategory (r_Error r)) (s_ErrorsByType s))"
  "s_StartTime (summarize_step s r) = (if s_StartTime s = 0 \<or> r_Timestamp r < s_StartTime s then r_Timestamp r else s_StartTime s)"
  "s_EndTime (summarize_step s r) = max (s_EndTime s) (r_Timestamp r)"
  by (auto simp: summarize_step_def Let_def split: option.splits)

definition tally :: "('k, int) gomap \<Rightarrow> 'k \<Rightarrow> int" where
  "tally m k = (case gm_get m k of None \<Rightarrow> 0 | Some n \<Rightarrow> n)"

lemma tally_incr [simp]: "tally (gm_incr k m) k' = tally m k' + (if k' = k then 1 else 0)"
  by (simp add: tally_def gm_incr_def gm.get_put)

lemma summarize_foldl:
  "let s' = foldl summarize_step s rs in
    s_TotalRequests s' = s_TotalRequests s \<and> s_FilteredCount s' = s_FilteredCount s \<and>
    s_SuccessCount s' = s_SuccessCount s + int (length (filter (\<lambda>r. r_Error r = None) rs)) \<and>
    s_ErrorCount s' = s_ErrorCount s + int (length (filter (\<lambda>r. r_Error r \<noteq> None) rs)) \<and>
    tally (s_StatusCodeDist s') c = tally (s_StatusCodeDist s) c + (if 0 < c then int (length (filter (\<lambda>r. r_StatusCode r = c) rs)) else 0) \<and>
    tally (s_ErrorsByType s') k = tally (s_ErrorsByType s) k +
      int (length (filter (\<lambda>r. r_Error r \<noteq> None \<and> errorCategory (r_Error r) = k) rs)) \<and>
    s_EndTime s' = fold max (map r_Timestamp rs) (s_EndTime s)"
  unfolding Let_def by (induction rs arbitrary: s) (auto simp: max.commute)

lemma summarize_start:
  "\<forall>r\<in>set rs. 0 < r_Timestamp r \<Longrightarrow> 0 < a \<Longrightarrow> s_StartTime s = a \<Longrightarrow>
    s_StartTime (foldl summarize_step s rs) = fold min (map r_Timestamp rs) a"
  by (induction rs arbitrary: s a) (auto simp: min_def)

text \<open>
  C33. The summary counts every result once: totals, successes and failures add up, the status code
  and error tables tally exactly the results that carry the code or the category, and the session
  spans from the earliest to the latest result.
\<close>

theorem summary_counts:
  assumes "rs \<noteq> []" and "\<forall>r\<in>set rs. 0 < r_Timestamp r"
  shows "\<exists>s. Summarize rs = Inr s \<and> s_TotalRequests s = int (length rs) \<and>
    s_SuccessCount s = int (length (filter (\<lambda>r. r_Error r = None) rs)) \<and>
    s_SuccessCount s + s_ErrorCount s = s_TotalRequests s \<and>
    (\<forall>c>0. tally (s_StatusCodeDist s) c = int (length (filter (\<lambda>r. r_StatusCode r = c) rs))) \<and>
    (\<forall>k. tally (s_ErrorsByType s) k = int (length (filter (\<lambda>r. r_Error r \<noteq> None \<and> errorCategory (r_Error r) = k) rs))) \<and>
    s_StartTime s = Min (r_Timestamp ` set rs) \<and> s_EndTime s = Max (r_Timestamp ` set rs)"
proof -
  let ?init = "empty_summary\<lparr>s_TotalRequests := int (length rs)\<rparr>"
  let ?s = "foldl summarize_step ?init rs"
  obtain r rs' where rs: "rs = r # rs'" using assms(1) by (cases rs) auto
  have "s_StartTime (foldl summarize_step (summarize_step ?init r) rs') = fold min (map r_Timestamp rs') (r_Timestamp r)"
    by (rule summarize_start) (use assms(2) in \<open>auto simp: rs empty_summary_def\<close>)
  then have "s_StartTime ?s = fold min (map r_Timestamp rs') (r_Timestamp r)" by (simp only: rs foldl_Cons)
  then have start: "s_StartTime ?s = Min (r_Timestamp ` set rs)"
    using Min.set_eq_fold [of "r_Timestamp r" "map r_Timestamp rs'"] by (simp add: rs)
  have "fold max (map r_Timestamp rs') (max 0 (r_Timestamp r)) = Max (set (max 0 (r_Timestamp r) # map r_Timestamp rs'))"
    by (rule Max.set_eq_fold [symmetric])
  then have "fold max (map r_Timestamp rs) 0 = Max (r_Timestamp ` set rs)"
    using assms(2) by (simp add: rs max_def max.commute)
  then have stop: "s_EndTime ?s = Max (r_Timestamp ` set rs)"
    using summarize_foldl [of ?init rs] by (simp add: Let_def empty_summary_def)
  have "length (filter (\<lambda>r. r_Error r = None) rs) + length (filter (\<lambda>r. r_Error r \<noteq> None) rs) = length rs"
    by (rule sum_length_filter_compl)
  then show ?thesis
    using assms(1) summarize_foldl [of ?init rs] start stop
    by (simp add: Summarize_def Let_def empty_summary_def tally_def)
qed

text \<open>
  C34. The percentiles are order statistics: the in-place insertion sort is sorting, the index
  computed in floating point is always within the slice, and the reported latencies are latencies
  of results with P50 at most P95 and P95 at most P99.
\<close>

theorem percentiles_ordered:
  assumes "ds \<noteq> []" and "int (length ds) < 2 ^ 53"
  shows "sortDurations ds = sort ds \<and>
    (\<forall>p\<in>{f_rnd (1 / 2), f_rnd (95 / 100), f_rnd (99 / 100)}.
      0 \<le> percentile_index (length ds) p \<and> percentile_index (length ds) p < int (length ds) \<and>
      percentileDuration ds p \<in> set ds) \<and>
    percentileDuration ds (f_rnd (1 / 2)) \<le> percentileDuration ds (f_rnd (95 / 100)) \<and>
    percentileDuration ds (f_rnd (95 / 100)) \<le> percentileDuration ds (f_rnd (99 / 100))"
proof -
  obtain a b c where lv: "f_rnd (1 / 2) = Fin a" "f_rnd (95 / 100) = Fin b" "f_rnd (99 / 100) = Fin c"
    and ord: "0 \<le> a" "a \<le> b" "b \<le> c" "c \<le> 1" by (rule levels)
  have n: "0 < length ds" using assms(1) by simp
  have bounds: "0 \<le> percentile_index (length ds) (Fin p) \<and> percentile_index (length ds) (Fin p) < int (length ds)"
    if "0 \<le> p" "p \<le> 1" for p using percentile_index_bounds [OF n assms(2) that] .
  have mem: "percentileDuration ds (Fin p) \<in> set ds" if "0 \<le> p" "p \<le> 1" for p
  proof -
    have "sort ds ! nat (percentile_index (length ds) (Fin p)) \<in> set (sort ds)"
      using bounds [OF that] by (intro nth_mem) (simp add: nat_less_iff)
    then show ?thesis using assms(1) by (simp add: percentile_nth)
  qed
  have mono: "percentileDuration ds (Fin p) \<le> percentileDuration ds (Fin q)" if "0 \<le> p" "p \<le> q" "q \<le> 1" for p q
  proof -
    have "nat (percentile_index (length ds) (Fin p)) \<le> nat (percentile_index (length ds) (Fin q))"
      using percentile_index_mono [OF n assms(2) that] by simp
    moreover have "nat (percentile_index (length ds) (Fin q)) < length (sort ds)" using bounds [of q] that by (simp add: nat_less_iff)
    ultimately show ?thesis using assms(1) by (simp add: percentile_nth sorted_nth_mono)
  qed
  show ?thesis
    unfolding lv using ord bounds [of a] bounds [of b] bounds [of c] mem [of a] mem [of b] mem [of c] mono [of a b] mono [of b c]
    by (auto simp: sortDurations_sort)
qed

definition ex_result :: "int \<Rightarrow> int \<Rightarrow> go_error option \<Rightarrow> Result" where
  "ex_result d t e = \<lparr>r_RequestID = ''a'', r_StatusCode = 200, r_ResponseHeaders = [], r_ResponseBody = [],
    r_Duration = d, r_Error = e, r_Timestamp = t\<rparr>"

theorem summary_counts_witness:
  "\<exists>s. Summarize [ex_result 5 7 None, ex_result 3 6 (Some EOF)] = Inr s \<and> s_TotalRequests s = 2 \<and> s_SuccessCount s = 1 \<and>
    s_StartTime s = 6 \<and> s_EndTime s = 7"
  using summary_counts [of "[ex_result 5 7 None, ex_result 3 6 (Some EOF)]"] by (force simp: ex_result_def)

theorem percentiles_ordered_witness:
  "sortDurations [30, 10, 20] = [10, 20, 30] \<and>
    percentileDuration [30, 10, 20] (f_rnd (1 / 2)) \<le> percentileDuration [30, 10, 20] (f_rnd (95 / 100))"
  using percentiles_ordered [of "[30, 10, 20]"] by simp

end
