(* ===== verification/Replay_Engine.thy ===== *)
theory Replay_Engine
  imports Replay_Summary
begin

text \<open>
  The replay engine (\<^verbatim>\<open>internal/plugin/replay/engine.go\<close>). A run is one reader goroutine, a bounded
  channel and a number of sender goroutines; its state is a record and every point at which the
  goroutines interleave is an event, so a schedule is a list of events. The reader is the script of
  what successive calls of \<^verbatim>\<open>Next\<close> return, transformers are functions, the sender works on a state of
  the network \<^typ>\<open>'n\<close> and returns a result, or an error with or without a result, and the result
  handler works on a state \<^typ>\<open>'h\<close>.
\<close>

section \<open>Configuration\<close>

datatype RateMode = RateModeConstant | RateModeOriginalTiming | RateModeUnlimited

type_synonym reader = "(go_error + CapturedRequest) list"
type_synonym transformer = "CapturedRequest \<Rightarrow> go_error + CapturedRequest option"
type_synonym 'n sender = "'n \<Rightarrow> CapturedRequest \<Rightarrow> 'n \<times> (go_error \<times> Result option + Result)"

record 'h result_handler =
  rh_HandleResult :: "'h \<Rightarrow> Result \<Rightarrow> 'h \<times> go_error option"
  rh_Summarize :: "'h \<Rightarrow> go_error + Summary"

record ('n, 'h) EngineConfig =
  ec_Reader :: "reader option"
  ec_Sender :: "'n sender option"
  ec_Transformers :: "transformer list"
  ec_ResultHandler :: "'h result_handler option"
  ec_RateMode :: RateMode
  ec_RatePerSecond :: f64
  ec_TimeScale :: f64
  ec_Concurrency :: int
  ec_ShardIndex :: int
  ec_ShardCount :: int

record ('n, 'h) Engine =
  en_reader :: reader
  en_sender :: "'n sender"
  en_transformers :: "transformer list"
  en_resultHandler :: "'h result_handler"
  en_rateMode :: RateMode
  en_ratePerSecond :: f64
  en_timeScale :: f64
  en_concurrency :: int
  en_shardIndex :: "64 word"
  en_shardCount :: "64 word"

datatype engine_error = ReaderRequired | SenderRequired | ShardIndexOutOfRange int int

definition not_positive :: "f64 \<Rightarrow> bool" where
  "not_positive x \<longleftrightarrow> x \<noteq> NaN \<and> \<not> f_less (Fin 0) x"

text \<open>The default handler is passed in, since its state type is the caller's choice.\<close>

definition NewEngine :: "'h result_handler \<Rightarrow> ('n, 'h) EngineConfig \<Rightarrow> engine_error + ('n, 'h) Engine" where
  "NewEngine dflt cfg =
    (case ec_Reader cfg of
       None \<Rightarrow> Inl ReaderRequired
     | Some rd \<Rightarrow>
         (case ec_Sender cfg of
            None \<Rightarrow> Inl SenderRequired
          | Some sn \<Rightarrow>
              if 1 < ec_ShardCount cfg \<and> (ec_ShardIndex cfg < 0 \<or> ec_ShardCount cfg \<le> ec_ShardIndex cfg)
              then Inl (ShardIndexOutOfRange (ec_ShardIndex cfg) (ec_ShardCount cfg))
              else Inr \<lparr>
                en_reader = rd, en_sender = sn, en_transformers = ec_Transformers cfg,
                en_resultHandler = (case ec_ResultHandler cfg of None \<Rightarrow> dflt | Some h \<Rightarrow> h),
                en_rateMode = ec_RateMode cfg, en_ratePerSecond = ec_RatePerSecond cfg,
                en_timeScale = (if not_positive (ec_TimeScale cfg) then Fin 1 else ec_TimeScale cfg),
                en_concurrency = (if ec_Concurrency cfg \<le> 0 then 1 else ec_Concurrency cfg),
                en_shardIndex = word_of_int (if 1 < ec_ShardCount cfg then ec_ShardIndex cfg else 0),
                en_shardCount = word_of_int (if 1 < ec_ShardCount cfg then ec_ShardCount cfg else 1)\<rparr>))"

section \<open>The read loop\<close>

fun apply_transformers :: "transformer list \<Rightarrow> CapturedRequest \<Rightarrow> CapturedRequest option" where
  "apply_transformers [] current = Some current"
| "apply_transformers (t # ts) current =
    (case t current of
       Inl _ \<Rightarrow> None
     | Inr None \<Rightarrow> None
     | Inr (Some current') \<Rightarrow> apply_transformers ts current')"

datatype wait = NoWait | WaitTick | WaitFor duration

datatype limiter = NoLimiter | Ticker duration | TickerPanic

definition rate_limiter :: "('n, 'h) Engine \<Rightarrow> limiter" where
  "rate_limiter e =
    (if en_rateMode e = RateModeConstant \<and> f_less (Fin 0) (en_ratePerSecond e)
     then let interval = f_trunc (f_div (f_of_int second) (en_ratePerSecond e))
          in if interval \<le> 0 then TickerPanic else Ticker interval
     else NoLimiter)"

definition rate_wait :: "('n, 'h) Engine \<Rightarrow> time \<Rightarrow> CapturedRequest \<Rightarrow> wait \<times> time" where
  "rate_wait e prev req =
    (case en_rateMode e of
       RateModeConstant \<Rightarrow> (if rate_limiter e = NoLimiter then NoWait else WaitTick, prev)
     | RateModeOriginalTiming \<Rightarrow>
         (if prev \<noteq> 0 \<and> cr_Timestamp req \<noteq> 0
          then let delay = time_sub (cr_Timestamp req) prev
               in if 0 < delay then WaitFor (f_trunc (f_mul (f_of_int delay) (en_timeScale e))) else NoWait
          else NoWait, cr_Timestamp req)
     | RateModeUnlimited \<Rightarrow> (NoWait, prev))"

definition shard_skips :: "('n, 'h) Engine \<Rightarrow> CapturedRequest \<Rightarrow> bool" where
  "shard_skips e req \<longleftrightarrow> 1 < en_shardCount e \<and> shardOf (cr_ID req) (en_shardCount e) \<noteq> en_shardIndex e"

section \<open>State of a run\<close>

datatype read_error = CtxError | ReaderError go_error

datatype read_state =
    Reading
  | Waiting CapturedRequest wait
  | Offering CapturedRequest
  | ReadDone "read_error option"

datatype worker = Idle | Got CapturedRequest | Sending CapturedRequest | Exited

text \<open>
  The last two fields record history: the requests handed to the sender, in order, and the waits
  of the read loop.
\<close>

record ('n, 'h) engine_state =
  es_script :: reader
  es_reader :: read_state
  es_prev :: time
  es_chan :: "CapturedRequest list"
  es_workers :: "worker list"
  es_sent :: int
  es_errors :: int
  es_filtered :: int
  es_shardSkipped :: int
  es_cancelled :: bool
  es_net :: 'n
  es_handler :: 'h
  es_log :: "CapturedRequest list"
  es_waits :: "(CapturedRequest \<times> wait) list"

definition read_request :: "('n, 'h) Engine \<Rightarrow> CapturedRequest \<Rightarrow> ('n, 'h) engine_state \<Rightarrow> ('n, 'h) engine_state" where
  "read_request e req s =
    (if shard_skips e req then s\<lparr>es_shardSkipped := es_shardSkipped s + 1\<rparr>
     else case apply_transformers (en_transformers e) req of
       None \<Rightarrow> s\<lparr>es_filtered := es_filtered s + 1\<rparr>
     | Some current \<Rightarrow>
         (case rate_wait e (es_prev s) req of (w, prev') \<Rightarrow>
            s\<lparr>es_prev := prev', es_waits := es_waits s @ [(current, w)],
              es_reader := (if w = NoWait then Offering current else Waiting current w)\<rparr>))"

definition read_next :: "('n, 'h) Engine \<Rightarrow> ('n, 'h) engine_state \<Rightarrow> ('n, 'h) engine_state" where
  "read_next e s =
    (if es_cancelled s then s\<lparr>es_reader := ReadDone (Some CtxError)\<rparr>
     else case es_script s of
       [] \<Rightarrow> s\<lparr>es_reader := ReadDone None\<rparr>
     | Inl err # script \<Rightarrow> s\<lparr>es_script := script, es_reader := ReadDone (Some (ReaderError err))\<rparr>
     | Inr req # script \<Rightarrow> read_request e req (s\<lparr>es_script := script\<rparr>))"

section \<open>The send loop\<close>

definition send_one :: "('n, 'h) Engine \<Rightarrow> time \<Rightarrow> CapturedRequest \<Rightarrow> ('n, 'h) engine_state \<Rightarrow> ('n, 'h) engine_state" where
  "send_one e now req s =
    (case en_sender e (es_net s) req of
       (net, outcome) \<Rightarrow>
         let s1 = s\<lparr>es_net := net, es_log := es_log s @ [req]\<rparr>;
             (s2, result') =
               (case outcome of
                  Inl (er, result) \<Rightarrow>
                    (s1\<lparr>es_errors := es_errors s1 + 1\<rparr>,
                     case result of
                       None \<Rightarrow> \<lparr>r_RequestID = cr_ID req, r_StatusCode = 0, r_ResponseHeaders = [], r_ResponseBody = [],
                         r_Duration = 0, r_Error = Some er, r_Timestamp = now\<rparr>
                     | Some r \<Rightarrow> r)
                | Inr result \<Rightarrow> (s1\<lparr>es_sent := es_sent s1 + 1\<rparr>, result))
         in s2\<lparr>es_handler := fst (rh_HandleResult (en_resultHandler e) (es_handler s2) result')\<rparr>)"

section \<open>Events\<close>

datatype engine_event =
    EvCancel
  | EvRead
  | EvWaitOver
  | EvReadCancelled
  | EvOffer
  | EvTake nat
  | EvCheck nat
  | EvSend nat time
  | EvExit nat

definition set_worker :: "nat \<Rightarrow> worker \<Rightarrow> ('n, 'h) engine_state \<Rightarrow> ('n, 'h) engine_state" where
  "set_worker k w s = s\<lparr>es_workers := (es_workers s)[k := w]\<rparr>"

definition worker_at :: "('n, 'h) engine_state \<Rightarrow> nat \<Rightarrow> worker option" where
  "worker_at s k = (if k < length (es_workers s) then Some (es_workers s ! k) else None)"

definition chan_cap :: "('n, 'h) Engine \<Rightarrow> nat" where
  "chan_cap e = nat (en_concurrency e * 2)"

text \<open>
  An event takes place when its goroutine is at that point and the operation can proceed. A select
  with several ready cases picks any of them: a read loop that waits or offers after a cancellation
  may still finish the wait or the send.
\<close>

fun engine_step :: "('n, 'h) Engine \<Rightarrow> engine_event \<Rightarrow> ('n, 'h) engine_state \<Rightarrow> ('n, 'h) engine_state option" where
  "engine_step e EvCancel s = (if es_cancelled s then None else Some (s\<lparr>es_cancelled := True\<rparr>))"
| "engine_step e EvRead s = (if es_reader s = Reading then Some (read_next e s) else None)"
| "engine_step e EvWaitOver s =
    (case es_reader s of Waiting req w \<Rightarrow> Some (s\<lparr>es_reader := Offering req\<rparr>) | _ \<Rightarrow> None)"
| "engine_step e EvReadCancelled s =
    (case es_reader s of
       Waiting req w \<Rightarrow> if es_cancelled s then Some (s\<lparr>es_reader := ReadDone (Some CtxError)\<rparr>) else None
     | Offering req \<Rightarrow> if es_cancelled s then Some (s\<lparr>es_reader := ReadDone (Some CtxError)\<rparr>) else None
     | _ \<Rightarrow> None)"
| "engine_step e EvOffer s =
    (case es_reader s of
       Offering req \<Rightarrow>
         if length (es_chan s) < chan_cap e then Some (s\<lparr>es_chan := es_chan s @ [req], es_reader := Reading\<rparr>) else None
     | _ \<Rightarrow> None)"
| "engine_step e (EvTake k) s =
    (case (worker_at s k, es_chan s) of
       (Some Idle, req # chan) \<Rightarrow> Some (set_worker k (Got req) (s\<lparr>es_chan := chan\<rparr>))
     | _ \<Rightarrow> None)"
| "engine_step e (EvCheck k) s =
    (case worker_at s k of
       Some (Got req) \<Rightarrow> Some (set_worker k (if es_cancelled s then Exited else Sending req) s)
     | _ \<Rightarrow> None)"
| "engine_step e (EvSend k now) s =
    (case worker_at s k of
       Some (Sending req) \<Rightarrow> Some (set_worker k Idle (send_one e now req s))
     | _ \<Rightarrow> None)"
| "engine_step e (EvExit k) s =
    (case (worker_at s k, es_chan s, es_reader s) of
       (Some Idle, [], ReadDone _) \<Rightarrow> Some (set_worker k Exited s)
     | _ \<Rightarrow> None)"

fun engine_exec :: "('n, 'h) Engine \<Rightarrow> engine_event list \<Rightarrow> ('n, 'h) engine_state \<Rightarrow> ('n, 'h) engine_state option" where
  "engine_exec e [] s = Some s"
| "engine_exec e (ev # evs) s = (case engine_step e ev s of None \<Rightarrow> None | Some s' \<Rightarrow> engine_exec e evs s')"

section \<open>Runs\<close>

datatype run_error = AlreadyRunning | OpenReader go_error | ReaderFailed read_error | SummarizeFailed go_error | NewTickerPanic

text \<open>
  The part of \<^verbatim>\<open>Run\<close> before the goroutines start. The counters belong to the engine and carry over
  from earlier runs; the flag says whether another run is in progress.
\<close>

definition Run_start ::
  "('n, 'h) Engine \<Rightarrow> bool \<Rightarrow> go_error option \<Rightarrow> ('n, 'h) engine_state \<Rightarrow> run_error + ('n, 'h) engine_state" where
  "Run_start e running open_err s =
    (if running then Inl AlreadyRunning
     else case open_err of
       Some err \<Rightarrow> Inl (OpenReader err)
     | None \<Rightarrow>
         if rate_limiter e = TickerPanic then Inl NewTickerPanic
         else Inr (s\<lparr>es_script := en_reader e, es_reader := Reading, es_prev := 0, es_chan := [],
           es_workers := replicate (nat (en_concurrency e)) Idle\<rparr>))"

definition fresh_state :: "'n \<Rightarrow> 'h \<Rightarrow> ('n, 'h) engine_state" where
  "fresh_state net h =
    \<lparr>es_script = [], es_reader = ReadDone None, es_prev = 0, es_chan = [], es_workers = [],
     es_sent = 0, es_errors = 0, es_filtered = 0, es_shardSkipped = 0, es_cancelled = False,
     es_net = net, es_handler = h, es_log = [], es_waits = []\<rparr>"

text \<open>What \<^verbatim>\<open>Run\<close> returns once every sender has left and the read loop has reported.\<close>

definition Run_done :: "('n, 'h) engine_state \<Rightarrow> bool" where
  "Run_done s \<longleftrightarrow> list_all (\<lambda>w. w = Exited) (es_workers s) \<and> (case es_reader s of ReadDone _ \<Rightarrow> True | _ \<Rightarrow> False)"

definition Run_result :: "('n, 'h) Engine \<Rightarrow> ('n, 'h) engine_state \<Rightarrow> run_error + Summary" where
  "Run_result e s =
    (case es_reader s of
       ReadDone (Some err) \<Rightarrow> Inl (ReaderFailed err)
     | _ \<Rightarrow>
         (case rh_Summarize (en_resultHandler e) (es_handler s) of
            Inl err \<Rightarrow> Inl (SummarizeFailed err)
          | Inr summary \<Rightarrow> Inr (summary\<lparr>s_FilteredCount := es_filtered s\<rparr>)))"

definition Progress :: "('n, 'h) engine_state \<Rightarrow> int \<times> int \<times> int" where
  "Progress s = (es_sent s, es_errors s, es_filtered s)"

definition ShardSkipped :: "('n, 'h) engine_state \<Rightarrow> int" where
  "ShardSkipped s = es_shardSkipped s"

definition default_handler :: "Result list result_handler" where
  "default_handler = \<lparr>rh_HandleResult = HandleResult, rh_Summarize = Summarize\<rparr>"

end
