(* ===== verification/Transition_Systems.thy ===== *)
theory Transition_Systems
  imports Kapture_Prelude
begin

text \<open>
  Concurrent components are labelled transition systems with a partial step function. The locale
  states once what makes every run of such a system finish: an invariant, a weight that every step
  lowers, and progress from every state that is not final.
\<close>

locale terminating_system =
  fixes step :: "'ev \<Rightarrow> 's \<Rightarrow> 's option"
    and inv :: "'s \<Rightarrow> bool"
    and final :: "'s \<Rightarrow> bool"
    and weight :: "'s \<Rightarrow> nat"
  assumes inv_step: "inv s \<Longrightarrow> step ev s = Some s' \<Longrightarrow> inv s'"
    and weight_step: "inv s \<Longrightarrow> step ev s = Some s' \<Longrightarrow> weight s' < weight s"
    and progress: "inv s \<Longrightarrow> \<not> final s \<Longrightarrow> \<exists>ev s'. step ev s = Some s'"
begin

primrec exec :: "'ev list \<Rightarrow> 's \<Rightarrow> 's option" where
  "exec [] s = Some s"
| "exec (ev # evs) s = (case step ev s of None \<Rightarrow> None | Some s' \<Rightarrow> exec evs s')"

lemma exec_inv: "inv s \<Longrightarrow> exec evs s = Some s' \<Longrightarrow> inv s'"
  by (induction evs arbitrary: s) (auto split: option.splits intro: inv_step)

lemma exec_bound: "inv s \<Longrightarrow> exec evs s = Some s' \<Longrightarrow> length evs + weight s' \<le> weight s"
proof (induction evs arbitrary: s)
  case (Cons ev evs)
  then obtain s1 where s1: "step ev s = Some s1" "exec evs s1 = Some s'" by (auto split: option.splits)
  then have "length evs + weight s' \<le> weight s1" using Cons inv_step by blast
  then show ?case using weight_step [OF Cons.prems(1) s1(1)] by simp
qed simp

lemma exec_append: "exec (as @ bs) s = (case exec as s of None \<Rightarrow> None | Some s' \<Rightarrow> exec bs s')"
  by (induction as arbitrary: s) (auto split: option.splits)

lemma stuck_final: "inv s \<Longrightarrow> exec evs s = Some s' \<Longrightarrow> \<forall>ev. step ev s' = None \<Longrightarrow> final s'"
  using exec_inv progress by (metis option.distinct(1))

lemma can_finish: "inv s \<Longrightarrow> \<exists>evs s'. exec evs s = Some s' \<and> final s'"
proof (induction "weight s" arbitrary: s rule: less_induct)
  case less
  show ?case
  proof (cases "final s")
    case True
    then show ?thesis by (intro exI [of _ "[]"]) simp
  next
    case False
    then obtain ev s1 where s1: "step ev s = Some s1" using progress less.prems by blast
    then obtain evs s' where "exec evs s1 = Some s' \<and> final s'"
      using less.hyps [OF weight_step] inv_step less.prems by blast
    then show ?thesis using s1 by (intro exI [of _ "ev # evs"]) simp
  qed
qed

end

end
