(* ===== verification/Replay_Engine_Lemmas.thy ===== *)
theory Replay_Engine_Lemmas
  imports Replay_Engine Transition_Systems
begin

text \<open>
  The invariants of a run of the replay engine: what is in flight between the reader and the
  senders, the control state of the goroutines, and the weight that every event lowers.
\<close>

section \<open>Requests in flight\<close>

definition keep :: "('n, 'h) Engine \<Rightarrow> go_error + CapturedRequest \<Rightarrow> CapturedRequest option" where
  "keep e item =
    (case item of
       Inl _ \<Rightarrow> None
     | Inr req \<Rightarrow> if shard_skips e req then None else apply_transformers (en_transformers e) req)"

definition kept :: "('n, 'h) Engine \<Rightarrow> reader \<Rightarrow> CapturedRequest list" where
  "kept e items = List.map_filter (keep e) items"

definition skipped :: "('n, 'h) Engine \<Rightarrow> reader \<Rightarrow> int" where
  "skipped e items = int (length (filter (\<lambda>it. case it of Inl _ \<Rightarrow> False | Inr req \<Rightarrow> shard_skips e req) items))"

definition dropped :: "('n, 'h) Engine \<Rightarrow> reader \<Rightarrow> int" where
  "dropped e items =
    int (length (filter (\<lambda>it. case it of Inl _ \<Rightarrow> False
      | Inr req \<Rightarrow> \<not> shard_skips e req \<and> apply_transformers (en_transformers e) req = None) items))"

lemma kept_simps [simp]:
  "kept e [] = []"
  "kept e (it # items) = (case keep e it of None \<Rightarrow> kept e items | Some req \<Rightarrow> req # kept e items)"
  "kept e (as @ bs) = kept e as @ kept e bs"
  by (simp_all add: kept_def List.map_filter_def split: option.splits)

lemma counts_append [simp]:
  "skipped e [] = 0" "dropped e [] = 0"
  "skipped e (as @ bs) = skipped e as + skipped e bs"
  "dropped e (as @ bs) = dropped e as + dropped e bs"
  by (simp_all add: skipped_def dropped_def)

lemma kept_total:
  "\<forall>it\<in>set items. \<exists>req. it = Inr req \<Longrightarrow>
    int (length (kept e items)) + dropped e items + skipped e items = int (length items)"
  by (induction items) (auto simp: keep_def dropped_def skipped_def split: option.splits if_splits)

fun held :: "worker \<Rightarrow> CapturedRequest multiset" where
  "held (Got req) = {#req#}"
| "held (Sending req) = {#req#}"
| "held Idle = {#}"
| "held Exited = {#}"

fun pending :: "read_state \<Rightarrow> CapturedRequest multiset" where
  "pending (Waiting req w) = {#req#}"
| "pending (Offering req) = {#req#}"
| "pending Reading = {#}"
| "pending (ReadDone err) = {#}"

definition inventory :: "('n, 'h) engine_state \<Rightarrow> CapturedRequest multiset" where
  "inventory s = mset (es_log s) + pending (es_reader s) + mset (es_chan s) + sum_list (map held (es_workers s))"

lemma sum_list_update_held:
  "k < length ws \<Longrightarrow> sum_list (map held (ws[k := w])) + held (ws ! k) = sum_list (map held ws) + held w"
  by (induction ws arbitrary: k) (auto simp: nth_Cons ac_simps split: nat.splits)

lemma worker_at_Some: "worker_at s k = Some w \<longleftrightarrow> k < length (es_workers s) \<and> es_workers s ! k = w"
  by (auto simp: worker_at_def)

lemma send_one_frame [simp]:
  "es_script (send_one e now req s) = es_script s"
  "es_reader (send_one e now req s) = es_reader s"
  "es_chan (send_one e now req s) = es_chan s"
  "es_workers (send_one e now req s) = es_workers s"
  "es_cancelled (send_one e now req s) = es_cancelled s"
  "es_filtered (send_one e now req s) = es_filtered s"
  "es_shardSkipped (send_one e now req s) = es_shardSkipped s"
  "es_log (send_one e now req s) = es_log s @ [req]"
  "es_waits (send_one e now req s) = es_waits s"
  "es_prev (send_one e now req s) = es_prev s"
  by (auto simp: send_one_def Let_def split: prod.splits sum.splits option.splits)

lemma send_one_counts:
  "es_sent (send_one e now req s) + es_errors (send_one e now req s) = es_sent s + es_errors s + 1"
  by (auto simp: send_one_def Let_def split: prod.splits sum.splits option.splits)

lemma set_worker_frame [simp]:
  "es_script (set_worker k w s) = es_script s"
  "es_reader (set_worker k w s) = es_reader s"
  "es_chan (set_worker k w s) = es_chan s"
  "es_workers (set_worker k w s) = (es_workers s)[k := w]"
  "es_cancelled (set_worker k w s) = es_cancelled s"
  "es_filtered (set_worker k w s) = es_filtered s"
  "es_shardSkipped (set_worker k w s) = es_shardSkipped s"
  "es_log (set_worker k w s) = es_log s"
  "es_sent (set_worker k w s) = es_sent s"
  "es_errors (set_worker k w s) = es_errors s"
  "es_handler (set_worker k w s) = es_handler s"
  "es_waits (set_worker k w s) = es_waits s"
  "es_prev (set_worker k w s) = es_prev s"
  by (simp_all add: set_worker_def)

text \<open>
  One event: the part of the script it consumes, and how it moves requests. Without a cancellation
  nothing is lost.
\<close>

definition flows :: "('n, 'h) Engine \<Rightarrow> reader \<Rightarrow> ('n, 'h) engine_state \<Rightarrow> ('n, 'h) engine_state \<Rightarrow> bool" where
  "flows e items s s' \<longleftrightarrow>
    es_script s = items @ es_script s' \<and>
    inventory s' \<subseteq># inventory s + mset (kept e items) \<and>
    (\<not> es_cancelled s' \<longrightarrow> inventory s' = inventory s + mset (kept e items)) \<and>
    (es_cancelled s \<longrightarrow> es_cancelled s') \<and>
    es_shardSkipped s' = es_shardSkipped s + skipped e items \<and>
    es_filtered s' = es_filtered s + dropped e items \<and>
    es_sent s' + es_errors s' - int (length (es_log s')) = es_sent s + es_errors s - int (length (es_log s))"

lemma flows_refl [simp]: "flows e [] s s"
  by (simp add: flows_def)

lemma flows_trans:
  assumes "flows e as s s1" and "flows e bs s1 s2"
  shows "flows e (as @ bs) s s2"
proof -
  have "inventory s2 \<subseteq># inventory s1 + mset (kept e bs)" using assms(2) by (simp add: flows_def)
  also have "\<dots> \<subseteq># inventory s + mset (kept e as) + mset (kept e bs)"
    using assms(1) by (simp add: flows_def subset_mset.add_right_mono)
  finally show ?thesis using assms unfolding flows_def by (auto simp: ac_simps)
qed

lemma flows_read:
  assumes "es_reader s = Reading"
  shows "\<exists>items. flows e items s (read_next e s)"
proof (cases "es_cancelled s")
  case True
  then show ?thesis using assms by (intro exI [of _ "[]"]) (simp add: flows_def read_next_def inventory_def)
next
  case False
  show ?thesis
  proof (cases "es_script s")
    case Nil
    then show ?thesis using assms False by (intro exI [of _ "[]"]) (simp add: flows_def read_next_def inventory_def)
  next
    case (Cons it script)
    show ?thesis
    proof (cases it)
      case (Inl err)
      then show ?thesis using assms False Cons
        by (intro exI [of _ "[it]"]) (simp add: flows_def read_next_def inventory_def keep_def skipped_def dropped_def)
    next
      case (Inr req)
      then show ?thesis using assms False Cons
        by (intro exI [of _ "[it]"])
          (auto simp: flows_def read_next_def read_request_def inventory_def keep_def skipped_def dropped_def
            split: option.splits prod.splits)
    qed
  qed
qed

lemma flows_worker:
  assumes "k < length (es_workers s)" and "es_workers s' = (es_workers s)[k := w]"
    and "mset (es_log s') + pending (es_reader s') + mset (es_chan s') + held w =
      mset (es_log s) + pending (es_reader s) + mset (es_chan s) + held (es_workers s ! k)"
  shows "inventory s' = inventory s"
proof -
  have "inventory s' + held (es_workers s ! k) =
      mset (es_log s') + pending (es_reader s') + mset (es_chan s') + (sum_list (map held (es_workers s)) + held w)"
    unfolding inventory_def assms(2) sum_list_update_held [OF assms(1), of w, symmetric] by (simp add: ac_simps)
  also have "\<dots> = inventory s + held (es_workers s ! k)"
    unfolding inventory_def using assms(3) by (simp add: ac_simps)
  finally show ?thesis by simp
qed

lemma flows_drop:
  assumes "k < length (es_workers s)" and "es_workers s' = (es_workers s)[k := Exited]"
    and "es_log s' = es_log s" and "es_reader s' = es_reader s" and "es_chan s' = es_chan s"
  shows "inventory s' \<subseteq># inventory s"
proof -
  have "inventory s' + held (es_workers s ! k) = inventory s"
    using sum_list_update_held [OF assms(1), of Exited] by (simp add: inventory_def assms ac_simps)
  then show ?thesis by (metis mset_subset_eq_add_left)
qed

lemma flows_step:
  assumes "engine_step e ev s = Some s'"
  shows "\<exists>items. flows e items s s'"
proof (cases ev)
  case EvRead
  then show ?thesis using assms flows_read by (auto split: if_splits)
next
  case (EvTake k)
  then obtain req chan where w: "worker_at s k = Some Idle" "es_chan s = req # chan"
    and s': "s' = set_worker k (Got req) (s\<lparr>es_chan := chan\<rparr>)"
    using assms by (auto split: option.splits worker.splits list.splits)
  have "inventory s' = inventory s"
    using w by (intro flows_worker [of k _ _ "Got req"]) (auto simp: s' worker_at_Some)
  then show ?thesis by (intro exI [of _ "[]"]) (simp add: flows_def s')
next
  case (EvCheck k)
  then obtain req where w: "worker_at s k = Some (Got req)"
    and s': "s' = set_worker k (if es_cancelled s then Exited else Sending req) s"
    using assms by (auto split: option.splits worker.splits)
  have "inventory s' \<subseteq># inventory s" if "es_cancelled s"
    using w that by (intro flows_drop [of k]) (auto simp: s' worker_at_Some)
  moreover have "inventory s' = inventory s" if "\<not> es_cancelled s"
    using w that by (intro flows_worker [of k _ _ "Sending req"]) (auto simp: s' worker_at_Some)
  ultimately show ?thesis by (intro exI [of _ "[]"]) (auto simp: flows_def s')
next
  case (EvSend k now)
  then obtain req where w: "worker_at s k = Some (Sending req)" and s': "s' = set_worker k Idle (send_one e now req s)"
    using assms by (auto split: option.splits worker.splits)
  have "inventory s' = inventory s"
    using w by (intro flows_worker [of k _ _ Idle]) (auto simp: s' worker_at_Some)
  then show ?thesis using send_one_counts [of e now req s] by (intro exI [of _ "[]"]) (simp add: flows_def s')
next
  case (EvExit k)
  then have w: "worker_at s k = Some Idle" and s': "s' = set_worker k Exited s"
    using assms by (auto split: option.splits worker.splits list.splits read_state.splits)
  have "inventory s' = inventory s"
    using w by (intro flows_worker [of k _ _ Exited]) (auto simp: s' worker_at_Some)
  then show ?thesis by (intro exI [of _ "[]"]) (simp add: flows_def s')
qed (use assms in \<open>auto intro!: exI [of _ "[]"] simp: flows_def inventory_def ac_simps split: if_splits read_state.splits\<close>)

lemma flows_exec: "engine_exec e evs s = Some s' \<Longrightarrow> \<exists>items. flows e items s s'"
proof (induction evs arbitrary: s)
  case Nil
  then show ?case by (auto intro: exI [of _ "[]"])
next
  case (Cons ev evs)
  then obtain s1 where s1: "engine_step e ev s = Some s1" "engine_exec e evs s1 = Some s'" by (auto split: option.splits)
  then show ?case using flows_step [OF s1(1)] Cons.IH [OF s1(2)] flows_trans by blast
qed

section \<open>Reading and pacing\<close>

text \<open>
  The read loop alone, as a function of the items it consumes: the waits it takes and the clock it
  keeps. Items of other shards and filtered requests leave the clock alone.
\<close>

fun pace :: "('n, 'h) Engine \<Rightarrow> time \<Rightarrow> reader \<Rightarrow> (CapturedRequest \<times> wait) list \<times> time" where
  "pace e prev [] = ([], prev)"
| "pace e prev (Inl err # items) = pace e prev items"
| "pace e prev (Inr req # items) =
    (case keep e (Inr req) of
       None \<Rightarrow> pace e prev items
     | Some current \<Rightarrow>
         (case rate_wait e prev req of (w, prev1) \<Rightarrow>
           (case pace e prev1 items of (ws, prev2) \<Rightarrow> ((current, w) # ws, prev2))))"

definition is_done :: "read_state \<Rightarrow> bool" where
  "is_done r \<longleftrightarrow> (\<exists>err. r = ReadDone err)"

definition reads :: "('n, 'h) Engine \<Rightarrow> reader \<Rightarrow> ('n, 'h) engine_state \<Rightarrow> ('n, 'h) engine_state \<Rightarrow> bool" where
  "reads e items s s' \<longleftrightarrow>
    es_script s = items @ es_script s' \<and>
    es_waits s' = es_waits s @ fst (pace e (es_prev s) items) \<and> es_prev s' = snd (pace e (es_prev s) items) \<and>
    (is_done (es_reader s) \<longrightarrow> es_reader s' = es_reader s) \<and>
    (\<forall>err. Inl err \<in> set items \<longrightarrow> es_reader s' = ReadDone (Some (ReaderError err))) \<and>
    (\<forall>err. es_reader s' = ReadDone (Some (ReaderError err)) \<longrightarrow> es_reader s = es_reader s' \<or> Inl err \<in> set items)"

lemma pace_append:
  "pace e prev (as @ bs) =
    (case pace e prev as of (ws, prev1) \<Rightarrow> (case pace e prev1 bs of (vs, prev2) \<Rightarrow> (ws @ vs, prev2)))"
  by (induction e prev as rule: pace.induct) (auto split: option.splits prod.splits)

lemma reads_trans:
  assumes "reads e as s s1" and "reads e bs s1 s2"
  shows "reads e (as @ bs) s s2"
proof -
  have "\<forall>err. Inl err \<in> set (as @ bs) \<longrightarrow> es_reader s2 = ReadDone (Some (ReaderError err))"
  proof (intro allI impI)
    fix err
    assume "Inl err \<in> set (as @ bs)"
    then consider "Inl err \<in> set bs" | "Inl err \<in> set as" by auto
    then show "es_reader s2 = ReadDone (Some (ReaderError err))"
      using assms unfolding reads_def by cases (auto simp: is_done_def)
  qed
  moreover have "\<forall>err. es_reader s2 = ReadDone (Some (ReaderError err)) \<longrightarrow> es_reader s = es_reader s2 \<or> Inl err \<in> set (as @ bs)"
    using assms unfolding reads_def by (metis UnCI set_append)
  moreover have "is_done (es_reader s) \<longrightarrow> es_reader s2 = es_reader s" using assms unfolding reads_def by metis
  ultimately show ?thesis using assms unfolding reads_def by (simp add: pace_append split: prod.splits)
qed

lemma step_frame:
  assumes "engine_step e ev s = Some s'" and "ev \<noteq> EvRead"
  shows "es_script s' = es_script s \<and> es_waits s' = es_waits s \<and> es_prev s' = es_prev s \<and>
    (es_reader s' = es_reader s \<or> \<not> is_done (es_reader s) \<and> (\<forall>err. es_reader s' \<noteq> ReadDone (Some (ReaderError err))))"
proof (cases ev)
  case (EvTake k)
  then show ?thesis using assms(1) by (auto split: option.splits worker.splits list.splits)
next
  case (EvCheck k)
  then show ?thesis using assms(1) by (auto split: option.splits worker.splits)
next
  case (EvSend k now)
  then show ?thesis using assms(1) by (auto split: option.splits worker.splits)
next
  case (EvExit k)
  then show ?thesis using assms(1) by (auto split: option.splits worker.splits list.splits read_state.splits)
qed (use assms in \<open>auto simp: is_done_def split: if_splits read_state.splits\<close>)

lemma reads_step:
  assumes "engine_step e ev s = Some s'"
  shows "\<exists>items. reads e items s s'"
proof (cases "ev = EvRead")
  case True
  then have s': "es_reader s = Reading" "s' = read_next e s" using assms by (auto split: if_splits)
  show ?thesis
  proof (cases "es_cancelled s \<or> es_script s = []")
    case True
    then show ?thesis using s' by (intro exI [of _ "[]"]) (auto simp: reads_def read_next_def is_done_def)
  next
    case False
    then obtain it script where sc: "es_script s = it # script" by (cases "es_script s") auto
    show ?thesis
      using s' False sc
      by (intro exI [of _ "[it]"])
        (auto simp: reads_def read_next_def read_request_def keep_def is_done_def split: sum.splits option.splits prod.splits)
  qed
next
  case False
  then show ?thesis using step_frame [OF assms] by (intro exI [of _ "[]"]) (auto simp: reads_def is_done_def)
qed

lemma reads_exec: "engine_exec e evs s = Some s' \<Longrightarrow> \<exists>items. reads e items s s'"
proof (induction evs arbitrary: s)
  case Nil
  then show ?case by (auto simp: reads_def intro!: exI [of _ "[]"])
next
  case (Cons ev evs)
  then obtain s1 where s1: "engine_step e ev s = Some s1" "engine_exec e evs s1 = Some s'" by (auto split: option.splits)
  then show ?case using reads_step [OF s1(1)] Cons.IH [OF s1(2)] reads_trans by blast
qed

section \<open>Control\<close>

definition control :: "('n, 'h) Engine \<Rightarrow> ('n, 'h) engine_state \<Rightarrow> bool" where
  "control e s \<longleftrightarrow>
    1 \<le> en_concurrency e \<and> length (es_workers s) = nat (en_concurrency e) \<and> length (es_chan s) \<le> chan_cap e \<and>
    (Exited \<in> set (es_workers s) \<and> \<not> es_cancelled s \<longrightarrow> es_chan s = [] \<and> is_done (es_reader s)) \<and>
    (\<not> es_cancelled s \<longrightarrow> es_reader s \<noteq> ReadDone (Some CtxError)) \<and>
    (es_reader s = ReadDone None \<longrightarrow> es_script s = [])"

lemma read_next_frame:
  "es_workers (read_next e s) = es_workers s" "es_chan (read_next e s) = es_chan s"
  "es_cancelled (read_next e s) = es_cancelled s"
  by (auto simp: read_next_def read_request_def split: list.splits sum.splits option.splits prod.splits)

lemma read_next_reader:
  "es_reader s = Reading \<Longrightarrow> \<not> es_cancelled s \<Longrightarrow> es_reader (read_next e s) \<noteq> ReadDone (Some CtxError)"
  "es_reader s = Reading \<Longrightarrow> es_reader (read_next e s) = ReadDone None \<Longrightarrow> es_script (read_next e s) = []"
  by (auto simp: read_next_def read_request_def split: list.splits sum.splits option.splits prod.splits if_splits)

lemma control_step:
  assumes "control e s" and "engine_step e ev s = Some s'"
  shows "control e s'"
proof (cases ev)
  case EvRead
  then have "es_reader s = Reading" "s' = read_next e s" using assms(2) by (auto split: if_splits)
  then show ?thesis
    using assms(1) read_next_reader [of s e] unfolding control_def by (auto simp: read_next_frame is_done_def)
next
  case (EvTake k)
  then show ?thesis using assms
    by (auto simp: control_def worker_at_Some split: option.splits worker.splits list.splits dest!: set_update_subset_insert [THEN subsetD])
next
  case (EvCheck k)
  then show ?thesis using assms
    by (auto simp: control_def worker_at_Some split: option.splits worker.splits dest!: set_update_subset_insert [THEN subsetD])
next
  case (EvSend k now)
  then show ?thesis using assms
    by (auto simp: control_def worker_at_Some split: option.splits worker.splits dest!: set_update_subset_insert [THEN subsetD])
next
  case (EvExit k)
  then show ?thesis using assms
    by (auto simp: control_def worker_at_Some is_done_def split: option.splits worker.splits list.splits read_state.splits)
qed (use assms in \<open>auto simp: control_def is_done_def split: if_splits read_state.splits\<close>)

section \<open>Termination\<close>

fun reader_weight :: "read_state \<Rightarrow> nat" where
  "reader_weight (ReadDone err) = 0"
| "reader_weight Reading = 1"
| "reader_weight (Offering req) = 6"
| "reader_weight (Waiting req w) = 7"

fun worker_weight :: "worker \<Rightarrow> nat" where
  "worker_weight Exited = 0"
| "worker_weight Idle = 1"
| "worker_weight (Sending req) = 3"
| "worker_weight (Got req) = 4"

definition engine_weight :: "('n, 'h) engine_state \<Rightarrow> nat" where
  "engine_weight s =
    (if es_cancelled s then 0 else 1) + 7 * length (es_script s) + reader_weight (es_reader s) +
    4 * length (es_chan s) + sum_list (map worker_weight (es_workers s))"

lemma sum_list_update_weight:
  "k < length ws \<Longrightarrow> sum_list (map worker_weight (ws[k := w])) + worker_weight (ws ! k) =
    sum_list (map worker_weight ws) + worker_weight w"
  by (induction ws arbitrary: k) (auto simp: nth_Cons split: nat.splits)

lemma weight_read: "es_reader s = Reading \<Longrightarrow> engine_weight (read_next e s) < engine_weight s"
  by (auto simp: engine_weight_def read_next_def read_request_def split: list.splits sum.splits option.splits prod.splits)

lemma engine_weight_step:
  assumes "engine_step e ev s = Some s'"
  shows "engine_weight s' < engine_weight s"
proof (cases ev)
  case EvRead
  then show ?thesis using assms weight_read by (auto split: if_splits)
next
  case (EvTake k)
  then show ?thesis using assms sum_list_update_weight [of k "es_workers s" "Got (hd (es_chan s))"]
    by (auto simp: engine_weight_def worker_at_Some split: option.splits worker.splits list.splits)
next
  case (EvCheck k)
  then obtain req where w: "worker_at s k = Some (Got req)"
    and s': "s' = set_worker k (if es_cancelled s then Exited else Sending req) s"
    using assms by (auto split: option.splits worker.splits)
  show ?thesis using w sum_list_update_weight [of k "es_workers s" "if es_cancelled s then Exited else Sending req"]
    by (auto simp: engine_weight_def worker_at_Some s')
next
  case (EvSend k now)
  then show ?thesis using assms sum_list_update_weight [of k "es_workers s" Idle]
    by (auto simp: engine_weight_def worker_at_Some split: option.splits worker.splits)
next
  case (EvExit k)
  then show ?thesis using assms sum_list_update_weight [of k "es_workers s" Exited]
    by (auto simp: engine_weight_def worker_at_Some split: option.splits worker.splits list.splits read_state.splits)
qed (use assms in \<open>auto simp: engine_weight_def split: if_splits read_state.splits\<close>)

lemma busy_worker:
  assumes "\<exists>w\<in>set (es_workers s). w \<noteq> Exited" and "es_chan s \<noteq> [] \<or> is_done (es_reader s)"
  shows "\<exists>ev s'. engine_step e ev s = Some s'"
proof -
  obtain k where k: "k < length (es_workers s)" "es_workers s ! k \<noteq> Exited" using assms(1) by (metis in_set_conv_nth)
  then have at: "worker_at s k = Some (es_workers s ! k)" by (simp add: worker_at_def)
  show ?thesis
  proof (cases "es_workers s ! k")
    case Idle
    then show ?thesis
    proof (cases "es_chan s")
      case Nil
      then have "engine_step e (EvExit k) s = Some (set_worker k Exited s)"
        using assms(2) at Idle by (auto simp: is_done_def)
      then show ?thesis by blast
    next
      case (Cons req chan)
      then have "engine_step e (EvTake k) s = Some (set_worker k (Got req) (s\<lparr>es_chan := chan\<rparr>))" using at Idle by simp
      then show ?thesis by blast
    qed
  next
    case (Got req)
    then have "engine_step e (EvCheck k) s = Some (set_worker k (if es_cancelled s then Exited else Sending req) s)"
      using at by simp
    then show ?thesis by blast
  next
    case (Sending req)
    then have "engine_step e (EvSend k 0) s = Some (set_worker k Idle (send_one e 0 req s))" using at by simp
    then show ?thesis by blast
  qed (use k in simp)
qed

lemma engine_progress:
  assumes "control e s" and "\<not> Run_done s"
  shows "\<exists>ev s'. engine_step e ev s = Some s'"
proof (cases "es_reader s")
  case Reading
  then have "engine_step e EvRead s = Some (read_next e s)" by simp
  then show ?thesis by blast
next
  case (Waiting req w)
  then have "engine_step e EvWaitOver s = Some (s\<lparr>es_reader := Offering req\<rparr>)" by simp
  then show ?thesis by blast
next
  case (Offering req)
  show ?thesis
  proof (cases "length (es_chan s) < chan_cap e")
    case True
    then have "engine_step e EvOffer s = Some (s\<lparr>es_chan := es_chan s @ [req], es_reader := Reading\<rparr>)"
      using Offering by simp
    then show ?thesis by blast
  next
    case False
    then have full: "es_chan s \<noteq> []" using assms(1) by (auto simp: control_def chan_cap_def)
    show ?thesis
    proof (cases "es_cancelled s")
      case True
      then have "engine_step e EvReadCancelled s = Some (s\<lparr>es_reader := ReadDone (Some CtxError)\<rparr>)" using Offering by simp
      then show ?thesis by blast
    next
      case False
      then have "Exited \<notin> set (es_workers s)" using full assms(1) by (auto simp: control_def)
      moreover have "es_workers s \<noteq> []" using assms(1) by (auto simp: control_def)
      ultimately have "\<exists>w\<in>set (es_workers s). w \<noteq> Exited" by (metis list.set_sel(1))
      then show ?thesis using full by (intro busy_worker) auto
    qed
  qed
next
  case (ReadDone err)
  then have "\<exists>w\<in>set (es_workers s). w \<noteq> Exited" using assms(2) by (auto simp: Run_done_def list_all_iff)
  then show ?thesis using ReadDone by (intro busy_worker) (auto simp: is_done_def)
qed

interpretation eng: terminating_system "engine_step e" "control e" Run_done engine_weight for e
  by unfold_locales (auto intro: control_step engine_weight_step engine_progress)

lemma eng_exec_eq: "eng.exec e evs s = engine_exec e evs s"
  by (induction evs arbitrary: s) (auto split: option.splits)

end
