(* ===== verification/Replay_Engine_Witnesses.thy ===== *)
theory Replay_Engine_Witnesses
  imports Replay_Engine_Props
begin

text \<open>
  Concrete runs of the replay engine, at which the theorems about runs are applied, and a run that
  is cancelled after its reader finished.
\<close>

definition ex_req :: "string \<Rightarrow> time \<Rightarrow> CapturedRequest" where
  "ex_req rid t = \<lparr>cr_ID = rid, cr_Timestamp = t, cr_Method = ''GET'', cr_Path = ''/'', cr_Headers = [], cr_Body = [],
    cr_ContentLength = 0, cr_Protocol = ''HTTP/1.1'', cr_Metadata = []\<rparr>"

definition ex_send :: "unit sender" where
  "ex_send net req = (net, Inr \<lparr>r_RequestID = cr_ID req, r_StatusCode = 200, r_ResponseHeaders = [], r_ResponseBody = [],
    r_Duration = 3, r_Error = None, r_Timestamp = 50\<rparr>)"

definition ex_cfg :: "reader \<Rightarrow> RateMode \<Rightarrow> int \<Rightarrow> int \<Rightarrow> (unit, Result list) EngineConfig" where
  "ex_cfg rd mode i n = \<lparr>ec_Reader = Some rd, ec_Sender = Some ex_send, ec_Transformers = [], ec_ResultHandler = None,
    ec_RateMode = mode, ec_RatePerSecond = Fin 0, ec_TimeScale = Fin 0, ec_Concurrency = 0, ec_ShardIndex = i, ec_ShardCount = n\<rparr>"

definition ex_engine :: "reader \<Rightarrow> RateMode \<Rightarrow> int \<Rightarrow> int \<Rightarrow> (unit, Result list) Engine" where
  "ex_engine rd mode i n = \<lparr>en_reader = rd, en_sender = ex_send, en_transformers = [], en_resultHandler = default_handler,
    en_rateMode = mode, en_ratePerSecond = Fin 0, en_timeScale = Fin 1, en_concurrency = 1,
    en_shardIndex = word_of_int i, en_shardCount = word_of_int n\<rparr>"

lemma ex_new: "0 \<le> i \<Longrightarrow> i < n \<Longrightarrow> NewEngine default_handler (ex_cfg rd mode i n) = Inr (ex_engine rd mode i n)"
  by (cases "1 < n", simp_all add: NewEngine_def ex_cfg_def ex_engine_def not_positive_def)
    (metis int_one_le_iff_zero_less le_less_trans linorder_not_le nle_le of_int_0 of_int_1 zless_imp_add1_zle add_0 order_le_less)

definition ex_begin :: "reader \<Rightarrow> (unit, Result list) engine_state" where
  "ex_begin rd = (fresh_state () [])\<lparr>es_script := rd, es_reader := Reading, es_prev := 0, es_chan := [], es_workers := [Idle]\<rparr>"

lemma ex_started: "Run_start (ex_engine rd mode i n) False None (fresh_state () []) = Inr (ex_begin rd)"
  by (cases mode) (auto simp: Run_start_def rate_limiter_def ex_engine_def ex_begin_def)

definition ex_capture :: "CapturedRequest list" where
  "ex_capture = [ex_req ''a'' 10, ex_req ''b'' 25]"

definition ex_end :: "(unit, Result list) Engine \<Rightarrow> reader \<Rightarrow> engine_event list \<Rightarrow> (unit, Result list) engine_state" where
  "ex_end e rd evs = (case engine_exec e evs (ex_begin rd) of Some s \<Rightarrow> s | None \<Rightarrow> ex_begin rd)"

definition ex_ran :: "(unit, Result list) Engine \<Rightarrow> reader \<Rightarrow> engine_event list \<Rightarrow> bool" where
  "ex_ran e rd evs = (case engine_exec e evs (ex_begin rd) of Some s \<Rightarrow> Run_done s \<and> \<not> es_cancelled s | None \<Rightarrow> False)"

lemma ex_ranD:
  assumes "ex_ran e rd evs"
  shows "engine_exec e evs (ex_begin rd) = Some (ex_end e rd evs)" and "Run_done (ex_end e rd evs)" and "\<not> es_cancelled (ex_end e rd evs)"
  using assms by (auto simp: ex_ran_def ex_end_def split: option.splits)

definition ex_events :: "nat \<Rightarrow> engine_event list" where
  "ex_events i = (if i = 0 then [EvRead, EvOffer, EvRead, EvRead, EvTake 0, EvCheck 0, EvSend 0 5, EvExit 0]
    else [EvRead, EvRead, EvOffer, EvTake 0, EvRead, EvCheck 0, EvSend 0 5, EvExit 0])"

definition ex_timed :: "engine_event list" where
  "ex_timed = [EvRead, EvOffer, EvRead, EvTake 0, EvWaitOver, EvOffer, EvRead, EvCheck 0, EvSend 0 5, EvTake 0, EvCheck 0, EvSend 0 6, EvExit 0]"

definition ex_failing :: "engine_event list" where
  "ex_failing = [EvRead, EvOffer, EvRead, EvTake 0, EvCheck 0, EvSend 0 5, EvExit 0]"

lemma ex_runs:
  "ex_ran (ex_engine (map Inr ex_capture) RateModeUnlimited 0 2) (map Inr ex_capture) (ex_events 0)"
  "ex_ran (ex_engine (map Inr ex_capture) RateModeUnlimited 1 2) (map Inr ex_capture) (ex_events 1)"
  "ex_ran (ex_engine (map Inr ex_capture) RateModeOriginalTiming 0 1) (map Inr ex_capture) ex_timed"
  "ex_ran (ex_engine [Inr (ex_req ''a'' 10), Inl EOF] RateModeUnlimited 0 1) [Inr (ex_req ''a'' 10), Inl EOF] ex_failing"
  by code_simp+


theorem engine_exactly_once_witness:
  "mset (es_log (ex_end (ex_engine (map Inr ex_capture) RateModeUnlimited 0 2) (map Inr ex_capture) (ex_events 0))) = {#ex_req ''a'' 10#}"
proof -
  let ?e = "ex_engine (map Inr ex_capture) RateModeUnlimited 0 2"
  have "kept ?e (en_reader ?e) = [ex_req ''a'' 10]" by code_simp
  moreover have "\<forall>it\<in>set (en_reader ?e). \<exists>req. it = Inr req" by (auto simp: ex_engine_def)
  ultimately show ?thesis
    using engine_exactly_once [OF ex_new _ ex_started ex_ranD [OF ex_runs(1)]] by (simp add: ex_cfg_def)
qed


theorem shards_replay_capture_once_witness:
  "(\<Sum>i<2. mset (es_log (ex_end (ex_engine (map Inr ex_capture) RateModeUnlimited (int i) 2) (map Inr ex_capture) (ex_events i)))) =
    mset ex_capture"
proof (rule shards_replay_capture_once [of 2 "\<lambda>i. ex_cfg (map Inr ex_capture) RateModeUnlimited (int i) 2"
      "\<lambda>i. ex_engine (map Inr ex_capture) RateModeUnlimited (int i) 2" ex_capture "\<lambda>_. ()" "\<lambda>_. ex_begin (map Inr ex_capture)" ex_events])
  show "\<forall>i<2. NewEngine default_handler (ex_cfg (map Inr ex_capture) RateModeUnlimited (int i) 2) =
      Inr (ex_engine (map Inr ex_capture) RateModeUnlimited (int i) 2) \<and>
      ec_ResultHandler (ex_cfg (map Inr ex_capture) RateModeUnlimited (int i) 2) = None \<and>
      ec_Reader (ex_cfg (map Inr ex_capture) RateModeUnlimited (int i) 2) = Some (map Inr ex_capture) \<and>
      ec_Transformers (ex_cfg (map Inr ex_capture) RateModeUnlimited (int i) 2) = [] \<and>
      ec_ShardIndex (ex_cfg (map Inr ex_capture) RateModeUnlimited (int i) 2) = int i \<and>
      ec_ShardCount (ex_cfg (map Inr ex_capture) RateModeUnlimited (int i) 2) = int 2"
    by (auto simp: ex_new) (simp_all add: ex_cfg_def)
  have "ex_ran (ex_engine (map Inr ex_capture) RateModeUnlimited (int i) 2) (map Inr ex_capture) (ex_events i)" if "i < 2" for i
    using that ex_runs(1,2) by (cases "i = 0") (auto simp: less_2_cases_iff)
  then show "\<forall>i<2. Run_start (ex_engine (map Inr ex_capture) RateModeUnlimited (int i) 2) False None (fresh_state () []) =
      Inr (ex_begin (map Inr ex_capture)) \<and>
      engine_exec (ex_engine (map Inr ex_capture) RateModeUnlimited (int i) 2) (ex_events i) (ex_begin (map Inr ex_capture)) =
        Some (ex_end (ex_engine (map Inr ex_capture) RateModeUnlimited (int i) 2) (map Inr ex_capture) (ex_events i)) \<and>
      Run_done (ex_end (ex_engine (map Inr ex_capture) RateModeUnlimited (int i) 2) (map Inr ex_capture) (ex_events i)) \<and>
      \<not> es_cancelled (ex_end (ex_engine (map Inr ex_capture) RateModeUnlimited (int i) 2) (map Inr ex_capture) (ex_events i))"
    using ex_ranD ex_started by auto
qed simp_all


text \<open>
  A cancellation that arrives after the reader has finished is not reported: the sender leaves
  without taking what is in the channel, and \<^verbatim>\<open>Run\<close> returns a summary and no error although a
  request of the shard was never sent.
\<close>

lemma cancelled_run_reports_success:
  "case engine_exec (ex_engine (map Inr ex_capture) RateModeUnlimited 0 2)
      [EvRead, EvOffer, EvRead, EvRead, EvCancel, EvTake 0, EvCheck 0] (ex_begin (map Inr ex_capture)) of
     None \<Rightarrow> False
   | Some s \<Rightarrow>
       Run_done s \<and> es_log s = [] \<and> kept (ex_engine (map Inr ex_capture) RateModeUnlimited 0 2) (map Inr ex_capture) \<noteq> [] \<and>
       Run_result (ex_engine (map Inr ex_capture) RateModeUnlimited 0 2) s = Inr empty_summary"
  by code_simp

end
