(* ===== verification/Object_Names.thy ===== *)
theory Object_Names
  imports Captured_Requests
begin

text \<open>
  Names of capture objects: slash-separated paths as packages \<^verbatim>\<open>path\<close> and \<^verbatim>\<open>path/filepath\<close> join them,
  calendar dates, the names that writers give their objects (\<^verbatim>\<open>internal/storage/interface.go\<close>), the
  keys of manifests (\<^verbatim>\<open>internal/storage/s3.go\<close>, \<^verbatim>\<open>internal/storage/efs.go\<close>) and the selection of objects
  by the date in their name (\<^verbatim>\<open>internal/plugin/replay/reader_s3.go\<close>).
\<close>

section \<open>Paths\<close>

fun split_on :: "char \<Rightarrow> string \<Rightarrow> string list" where
  "split_on c [] = [[]]"
| "split_on c (x # xs) =
    (if x = c then [] # split_on c xs
     else case split_on c xs of [] \<Rightarrow> [[x]] | seg # segs \<Rightarrow> (x # seg) # segs)"

fun join_with :: "char \<Rightarrow> string list \<Rightarrow> string" where
  "join_with c [] = []"
| "join_with c [s] = s"
| "join_with c (s # ss) = s @ c # join_with c ss"

definition slash :: char where
  "slash = CHR ''/''"

definition clean_step :: "bool \<Rightarrow> string list \<Rightarrow> string \<Rightarrow> string list" where
  "clean_step rooted out seg =
    (if seg = [] \<or> seg = ''.'' then out
     else if seg = ''..'' then
       (if out \<noteq> [] \<and> last out \<noteq> ''..'' then butlast out else if rooted then out else out @ [''..''])
     else out @ [seg])"

definition path_clean :: "string \<Rightarrow> string" where
  "path_clean p =
    (if p = [] then ''.''
     else let rooted = (hd p = slash);
              out = foldl (clean_step rooted) [] (split_on slash p);
              body = join_with slash out
          in if rooted then slash # body else if body = [] then ''.'' else body)"

definition path_join :: "string list \<Rightarrow> string" where
  "path_join elems =
    (let ne = filter (\<lambda>s. s \<noteq> []) elems in if ne = [] then [] else path_clean (join_with slash ne))"

definition trim_slashes :: "string \<Rightarrow> string" where
  "trim_slashes s = rev (dropWhile (\<lambda>c. c = slash) (rev (dropWhile (\<lambda>c. c = slash) s)))"

lemma split_on_nonempty [simp]: "split_on c s \<noteq> []"
  by (induction s) (auto split: list.splits)

lemma split_on_no: "c \<notin> set s \<Longrightarrow> split_on c s = [s]"
  by (induction s) auto

lemma split_on_append: "split_on c (a @ c # b) = split_on c a @ split_on c b"
  by (induction a) (auto split: list.splits)

lemma split_on_join:
  "ss \<noteq> [] \<Longrightarrow> \<forall>s\<in>set ss. c \<notin> set s \<Longrightarrow> split_on c (join_with c ss) = ss"
proof (induction c ss rule: join_with.induct)
  case (3 c s t ss)
  then show ?case by (simp add: split_on_append split_on_no)
qed (auto simp: split_on_no)

lemma join_with_snoc: "ss \<noteq> [] \<Longrightarrow> join_with c (ss @ [s]) = join_with c ss @ c # s"
  by (induction c ss rule: join_with.induct) auto

text \<open>Cleaning keeps a proper last element.\<close>

lemma path_clean_last:
  assumes "slash \<notin> set seg" and "seg \<notin> {[], ''.'', ''..''}" and "p \<noteq> []"
  shows "\<exists>q. path_clean (p @ slash # seg) = q @ slash # seg \<or> path_clean (p @ slash # seg) = seg"
proof -
  define rooted where "rooted = (hd (p @ slash # seg) = slash)"
  define out where "out = foldl (clean_step rooted) [] (split_on slash p)"
  have fold: "foldl (clean_step rooted) [] (split_on slash (p @ slash # seg)) = out @ [seg]"
    using assms(1,2) by (simp add: out_def split_on_append split_on_no clean_step_def)
  have eq: "path_clean (p @ slash # seg) =
      (let body = join_with slash (out @ [seg]) in if rooted then slash # body else if body = [] then ''.'' else body)"
    unfolding path_clean_def Let_def rooted_def [symmetric] fold by simp
  show ?thesis
  proof (cases "out = []")
    case True
    then show ?thesis using eq assms(2) by (cases rooted) (auto simp: Let_def intro: exI [of _ "[]"])
  next
    case False
    then have "path_clean (p @ slash # seg) = (if rooted then slash # join_with slash out else join_with slash out) @ slash # seg"
      using eq by (simp add: join_with_snoc Let_def)
    then show ?thesis by blast
  qed
qed

section \<open>Dates\<close>

definition day_ns :: duration where
  "day_ns = 86400 * second"

definition truncate_day :: "time \<Rightarrow> time" where
  "truncate_day t = t - t mod day_ns"

text \<open>Days are counted from the first of January of year 1, the zero time of Go.\<close>

definition year_start :: "int \<Rightarrow> int" where
  "year_start y = 365 * (y - 1) + (y - 1) div 4 - (y - 1) div 100 + (y - 1) div 400"

definition is_leap :: "int \<Rightarrow> bool" where
  "is_leap y \<longleftrightarrow> y mod 4 = 0 \<and> (y mod 100 \<noteq> 0 \<or> y mod 400 = 0)"

definition month_lengths :: "int \<Rightarrow> int list" where
  "month_lengths y = [31, if is_leap y then 29 else 28, 31, 30, 31, 30, 31, 31, 30, 31, 30, 31]"

lemma year_length: "year_start (y + 1) = year_start y + (if is_leap y then 366 else 365)"
proof -
  have d: "y div k = (y - 1) div k + (if y mod k = 0 then 1 else 0)" if "0 < k" for k :: int
  proof (cases "y mod k = 0")
    case True
    then have "y - 1 = k * (y div k - 1) + (k - 1)" using mult_div_mod_eq [of k y] by (simp add: algebra_simps)
    then have "(y - 1) div k = y div k - 1" using that int_div_pos_eq [of "y - 1" k "y div k - 1" "k - 1"] by simp
    then show ?thesis using True by simp
  next
    case False
    then have "0 < y mod k" using that pos_mod_sign [of k y] by linarith
    moreover have "y - 1 = k * (y div k) + (y mod k - 1)" using mult_div_mod_eq [of k y] by (simp add: algebra_simps)
    ultimately have "(y - 1) div k = y div k" using pos_mod_bound [OF that, of y] by (intro int_div_pos_eq [where r = "y mod k - 1"]) auto
    then show ?thesis using False by simp
  qed
  have "y mod 400 = 0 \<Longrightarrow> y mod 100 = 0" using mod_mod_cancel [of 100 400 y] by simp
  moreover have "y mod 100 = 0 \<Longrightarrow> y mod 4 = 0" using mod_mod_cancel [of 4 100 y] by simp
  moreover have "year_start (y + 1) = year_start y + 365 +
      (if y mod 4 = 0 then 1 else 0) - (if y mod 100 = 0 then 1 else 0) + (if y mod 400 = 0 then 1 else 0)"
    unfolding year_start_def add_diff_cancel_right' d [of 4, simplified] d [of 100, simplified] d [of 400, simplified]
    by (simp only: algebra_simps)
  ultimately show ?thesis unfolding is_leap_def
    by (cases "y mod 4 = 0"; cases "y mod 100 = 0"; cases "y mod 400 = 0") simp_all
qed

lemma year_start_less: "year_start y < year_start (y + 1)"
  unfolding year_length by simp

lemma year_start_mono: "a \<le> b \<Longrightarrow> year_start a \<le> year_start b"
proof (induction b rule: int_ge_induct)
  case (step b)
  then show ?case using year_start_less [of b] by simp
qed simp

function find_year :: "int \<Rightarrow> int \<Rightarrow> int" where
  "find_year d y = (if year_start (y + 1) \<le> d then find_year d (y + 1) else y)"
  by auto
termination
proof (relation "measure (\<lambda>(d, y). nat (d - year_start y))")
  fix d y :: int
  assume "year_start (y + 1) \<le> d"
  moreover have "year_start y < year_start (y + 1)" by (rule year_start_less)
  ultimately show "((d, y + 1), (d, y)) \<in> measure (\<lambda>(d, y). nat (d - year_start y))" by simp
qed simp

declare find_year.simps [simp del]

fun find_month :: "int list \<Rightarrow> int \<Rightarrow> int \<Rightarrow> int \<times> int" where
  "find_month [] k m = (m, k)"
| "find_month (l # ls) k m = (if k < l then (m, k) else find_month ls (k - l) (m + 1))"

text \<open>Year, month and day of the month of a day number.\<close>

definition civil :: "int \<Rightarrow> int \<times> int \<times> int" where
  "civil d =
    (let y = find_year d (d div 366 + 1)
     in case find_month (month_lengths y) (d - year_start y) 1 of (m, k) \<Rightarrow> (y, m, k + 1))"

definition day_number :: "int \<Rightarrow> int \<Rightarrow> int \<Rightarrow> int" where
  "day_number y m dd = year_start y + sum_list (take (nat (m - 1)) (month_lengths y)) + dd - 1"

definition pad0 :: "nat \<Rightarrow> int \<Rightarrow> string" where
  "pad0 n i = (let s = itoa i in replicate (n - length s) (CHR ''0'') @ s)"

definition format_date :: "time \<Rightarrow> string" where
  "format_date t =
    (case civil (t div day_ns) of (y, m, d) \<Rightarrow> pad0 4 y @ ''-'' @ pad0 2 m @ ''-'' @ pad0 2 d)"

definition is_digit :: "char \<Rightarrow> bool" where
  "is_digit c \<longleftrightarrow> 48 \<le> (of_char c :: nat) \<and> (of_char c :: nat) \<le> 57"

definition parse_digits :: "string \<Rightarrow> int option" where
  "parse_digits s = (if list_all is_digit s then Some (int (undigits s)) else None)"

text \<open>\<^verbatim>\<open>time.Parse("2006-01-02", s)\<close>.\<close>

definition parse_date :: "string \<Rightarrow> time option" where
  "parse_date s =
    (if length s = 10 \<and> s ! 4 = CHR ''-'' \<and> s ! 7 = CHR ''-'' then
       (case (parse_digits (take 4 s), parse_digits (take 2 (drop 5 s)), parse_digits (drop 8 s)) of
          (Some y, Some m, Some d) \<Rightarrow>
            if 1 \<le> m \<and> m \<le> 12 \<and> 1 \<le> d \<and> d \<le> month_lengths y ! nat (m - 1)
            then Some (day_number y m d * day_ns) else None
        | _ \<Rightarrow> None)
     else None)"

lemma find_year_bounds:
  "year_start y \<le> d \<Longrightarrow> year_start (find_year d y) \<le> d \<and> d < year_start (find_year d y + 1) \<and> y \<le> find_year d y"
proof (induction d y rule: find_year.induct)
  case (1 d y)
  show ?case
  proof (cases "year_start (y + 1) \<le> d")
    case True
    then have "find_year d y = find_year d (y + 1)" by (simp add: find_year.simps [of d y])
    then show ?thesis using 1(1) [OF True True] by simp
  next
    case False
    then have "find_year d y = y" by (simp add: find_year.simps [of d y])
    then show ?thesis using 1(2) False by simp
  qed
qed

lemma year_start_le: "0 \<le> d \<Longrightarrow> year_start (d div 366 + 1) \<le> d"
proof -
  assume "0 \<le> d"
  define q where "q = d div 366"
  have "year_start (q + 1) = 365 * q + q div 4 - q div 100 + q div 400" by (simp add: year_start_def)
  moreover have "0 \<le> q" using \<open>0 \<le> d\<close> by (simp add: q_def pos_imp_zdiv_nonneg_iff)
  then have "q div 400 \<le> q div 100" "q div 4 \<le> q" using zdiv_mono2 [of q 100 400] zdiv_mono2 [of q 1 4] by simp_all
  then have "q div 4 - q div 100 + q div 400 \<le> q" by linarith
  moreover have "366 * q \<le> d" unfolding q_def using mult_div_mod_eq [of 366 d] pos_mod_sign [of 366 d] by linarith
  ultimately show ?thesis by (simp add: q_def)
qed

lemma find_month_sum:
  "0 \<le> k \<Longrightarrow> k < sum_list ls \<Longrightarrow> \<forall>l\<in>set ls. 0 < l \<Longrightarrow>
    case find_month ls k m of (m', k') \<Rightarrow>
      m \<le> m' \<and> nat (m' - m) < length ls \<and> 0 \<le> k' \<and> k' < ls ! nat (m' - m) \<and> sum_list (take (nat (m' - m)) ls) + k' = k"
proof (induction ls k m rule: find_month.induct)
  case (2 l ls k m)
  show ?case
  proof (cases "k < l")
    case False
    then have "case find_month ls (k - l) (m + 1) of (m', k') \<Rightarrow>
        m + 1 \<le> m' \<and> nat (m' - (m + 1)) < length ls \<and> 0 \<le> k' \<and> k' < ls ! nat (m' - (m + 1)) \<and>
        sum_list (take (nat (m' - (m + 1))) ls) + k' = k - l"
      using 2 by simp
    then obtain m' k' where f: "find_month ls (k - l) (m + 1) = (m', k')" "m + 1 \<le> m'" "nat (m' - (m + 1)) < length ls" "0 \<le> k'"
        "k' < ls ! nat (m' - (m + 1))" "sum_list (take (nat (m' - (m + 1))) ls) + k' = k - l"
      by (auto split: prod.splits)
    have "nat (m' - m) = Suc (nat (m' - (m + 1)))" using f(2) by simp
    then show ?thesis using False f by simp
  qed (use 2 in simp)
qed simp

lemma sum_month_lengths: "sum_list (month_lengths y) = (if is_leap y then 366 else 365)"
  by (simp add: month_lengths_def)

lemma civil_day_number:
  assumes "0 \<le> d"
  obtains y m dd where "civil d = (y, m, dd)" and "day_number y m dd = d" and "1 \<le> y" and "1 \<le> m" and "m \<le> 12"
    and "1 \<le> dd" and "dd \<le> month_lengths y ! nat (m - 1)" and "year_start y \<le> d"
proof -
  define y where "y = find_year d (d div 366 + 1)"
  have y: "year_start y \<le> d" "d < year_start (y + 1)" "1 \<le> y"
    using find_year_bounds [OF year_start_le [OF assms]] assms
    by (auto simp: y_def pos_imp_zdiv_nonneg_iff intro: order_trans [rotated])
  obtain m k where f: "find_month (month_lengths y) (d - year_start y) 1 = (m, k)" by force
  have "\<forall>l\<in>set (month_lengths y). 0 < l" by (simp add: month_lengths_def)
  then have "1 \<le> m \<and> nat (m - 1) < length (month_lengths y) \<and> 0 \<le> k \<and> k < month_lengths y ! nat (m - 1) \<and>
      sum_list (take (nat (m - 1)) (month_lengths y)) + k = d - year_start y"
    using find_month_sum [of "d - year_start y" "month_lengths y" 1] y(1,2) f
    by (simp add: sum_month_lengths year_length)
  moreover have "length (month_lengths y) = 12" by (simp add: month_lengths_def)
  moreover have "civil d = (y, m, k + 1)" by (simp add: civil_def y_def [symmetric] f Let_def)
  ultimately show thesis using y by (intro that [of y m "k + 1"]) (auto simp: day_number_def)
qed

lemma length_digits10: "n < 10 ^ k \<Longrightarrow> 0 < k \<Longrightarrow> length (digits10 n) \<le> k"
proof (induction n arbitrary: k rule: digits10.induct)
  case (1 n)
  show ?case
  proof (cases "n < 10")
    case True
    then show ?thesis using 1(3) by (subst digits10.simps) simp
  next
    case False
    obtain j where k: "k = Suc j" using 1(3) by (cases k) auto
    have "n div 10 < 10 ^ j" using 1(2) by (simp add: k less_mult_imp_div_less mult.commute)
    moreover have "0 < j" using False 1(2) by (cases j) (auto simp: k)
    ultimately have "length (digits10 (n div 10)) \<le> j" using 1(1) [OF False] by blast
    then show ?thesis using False by (subst digits10.simps) (simp add: k)
  qed
qed

lemma undigits_zeros: "undigits (replicate k (CHR ''0'') @ s) = undigits s"
  by (induction k) (simp_all add: undigits_def)

lemma pad0_facts:
  assumes "0 \<le> i" and "i < 10 ^ n" and "0 < n"
  shows "length (pad0 n i) = n" and "parse_digits (pad0 n i) = Some i"
proof -
  have "nat i < 10 ^ n" using assms(1,2) by (simp add: nat_less_iff)
  then show "length (pad0 n i) = n" using length_digits10 [of "nat i" n] assms by (simp add: pad0_def itoa_def Let_def)
  have "list_all is_digit (pad0 n i)"
    using assms(1) digits10_chars by (auto simp: pad0_def itoa_def Let_def list_all_iff is_digit_def)
  then show "parse_digits (pad0 n i) = Some i"
    using assms(1) by (simp add: parse_digits_def pad0_def itoa_def undigits_zeros Let_def)
qed

lemma pad0_no_slash: "0 \<le> i \<Longrightarrow> slash \<notin> set (pad0 n i)"
  using digits10_chars [of slash] by (auto simp: pad0_def itoa_def Let_def slash_def)

lemma parse_format_date:
  assumes "0 \<le> t" and "t div day_ns < year_start 10000"
  shows "parse_date (format_date t) = Some (truncate_day t) \<and> slash \<notin> set (format_date t)"
proof -
  have day: "0 < day_ns" by (simp add: day_ns_def)
  have "0 \<le> t div day_ns" using assms(1) day by (simp add: pos_imp_zdiv_nonneg_iff)
  then obtain y m d where c: "civil (t div day_ns) = (y, m, d)" "day_number y m d = t div day_ns" "1 \<le> y" "1 \<le> m" "m \<le> 12"
      "1 \<le> d" "d \<le> month_lengths y ! nat (m - 1)" "year_start y \<le> t div day_ns"
    by (rule civil_day_number)
  have "y < 10000"
  proof (rule ccontr)
    assume "\<not> y < 10000"
    then have "year_start 10000 \<le> year_start y"
      by (intro year_start_mono) simp
    then show False using c(8) assms(2) by simp
  qed
  have "\<forall>l\<in>set (month_lengths y). l \<le> 31" by (simp add: month_lengths_def)
  moreover have "nat (m - 1) < length (month_lengths y)" using c(4,5) by (simp add: month_lengths_def)
  ultimately have "d \<le> 31" using c(7) by (meson nth_mem order_trans)
  note p4 = pad0_facts [of y 4] and pm = pad0_facts [of m 2] and pd = pad0_facts [of d 2]
  have len: "length (pad0 4 y) = 4" "length (pad0 2 m) = 2" "length (pad0 2 d) = 2"
    using p4(1) pm(1) pd(1) c \<open>y < 10000\<close> \<open>d \<le> 31\<close> by simp_all
  define s where "s = format_date t"
  have s: "s = pad0 4 y @ CHR ''-'' # pad0 2 m @ CHR ''-'' # pad0 2 d" by (simp add: s_def format_date_def c(1))
  have "length s = 10" "s ! 4 = CHR ''-''" "s ! 7 = CHR ''-''" "take 4 s = pad0 4 y" "take 2 (drop 5 s) = pad0 2 m" "drop 8 s = pad0 2 d"
    by (simp_all add: s len nth_append)
  moreover have "parse_digits (pad0 4 y) = Some y" "parse_digits (pad0 2 m) = Some m" "parse_digits (pad0 2 d) = Some d"
    using p4(2) pm(2) pd(2) c \<open>y < 10000\<close> \<open>d \<le> 31\<close> by simp_all
  ultimately have "parse_date s = Some (day_number y m d * day_ns)" using c by (simp add: parse_date_def)
  moreover have "t div day_ns * day_ns = truncate_day t" by (simp add: truncate_day_def minus_mod_eq_div_mult)
  moreover have "slash \<notin> set s" using c pad0_no_slash by (auto simp: s slash_def)
  ultimately show ?thesis using c(2) by (simp add: s_def)
qed

section \<open>Object names\<close>

definition ManifestObjectName :: string where
  "ManifestObjectName = ''manifest.json''"

definition objectFileName :: "string \<Rightarrow> int \<Rightarrow> string" where
  "objectFileName agentPod seq =
    (let pod = trim_space agentPod
     in (if pod = [] then ''unknown-agent'' else pod) @ ''-'' @ pad0 6 seq @ ''.jsonl.gz'')"

definition newCloudObjectName :: "string \<Rightarrow> string \<Rightarrow> string \<Rightarrow> time \<Rightarrow> int \<Rightarrow> string" where
  "newCloudObjectName pfx captureID agentPod ts seq =
    (let p = trim_slashes pfx;
         parts = (if p \<noteq> [] then [p] else []) @ [captureID, format_date ts, objectFileName agentPod seq]
     in path_join parts)"

definition newFilesystemObjectName :: "string \<Rightarrow> string \<Rightarrow> string \<Rightarrow> time \<Rightarrow> int \<Rightarrow> string" where
  "newFilesystemObjectName mountPath captureID agentPod ts seq =
    path_join [mountPath, captureID, format_date ts, objectFileName agentPod seq]"

definition cloud_manifest_key :: "string \<Rightarrow> string \<Rightarrow> string" where
  "cloud_manifest_key pfx captureID = path_join [trim_slashes pfx, captureID, ManifestObjectName]"

definition buildObjectPrefix :: "string \<Rightarrow> string \<Rightarrow> string" where
  "buildObjectPrefix storagePrefix captureID =
    (let p = trim_slashes storagePrefix;
         parts = (if p \<noteq> [] then [p] else []) @ (if captureID \<noteq> [] then [captureID] else [])
     in if parts = [] then [] else join_with slash parts @ [slash])"

definition LoadManifest_key :: "string \<Rightarrow> string \<Rightarrow> string" where
  "LoadManifest_key pfx captureID = buildObjectPrefix pfx captureID @ [slash] @ ManifestObjectName"

fun date_filter :: "string list \<Rightarrow> time \<Rightarrow> time \<Rightarrow> bool" where
  "date_filter [] startTime endTime = True"
| "date_filter (part # parts) startTime endTime =
    (case parse_date part of
       None \<Rightarrow> date_filter parts startTime endTime
     | Some t \<Rightarrow>
         if startTime \<noteq> 0 \<and> t < truncate_day startTime then False
         else if endTime \<noteq> 0 \<and> truncate_day endTime < t then False
         else True)"

definition filterObjectByTime :: "string \<Rightarrow> time \<Rightarrow> time \<Rightarrow> bool" where
  "filterObjectByTime key startTime endTime =
    (if startTime = 0 \<and> endTime = 0 then True else date_filter (split_on slash key) startTime endTime)"

section \<open>Clean paths\<close>

definition clean_segs :: "bool \<Rightarrow> string list \<Rightarrow> string list" where
  "clean_segs rooted segs = foldl (clean_step rooted) [] segs"

lemma split_on_elems: "seg \<in> set (split_on c s) \<Longrightarrow> c \<notin> set seg"
  by (induction s arbitrary: seg) (auto split: list.splits if_splits)

lemma clean_step_set: "set (clean_step r out seg) \<subseteq> insert seg (insert ''..'' (set out))"
proof -
  have "set (butlast out) \<subseteq> set out" by (auto dest: in_set_butlastD)
  then show ?thesis unfolding clean_step_def by (simp split: if_split) blast
qed

lemma clean_fold_set: "set (foldl (clean_step r) out segs) \<subseteq> set out \<union> set segs \<union> {''..''}"
proof (induction segs arbitrary: out)
  case (Cons seg segs)
  have "set (foldl (clean_step r) out (seg # segs)) \<subseteq> set (clean_step r out seg) \<union> set segs \<union> {''..''}"
    using Cons.IH by simp
  also have "\<dots> \<subseteq> set out \<union> set (seg # segs) \<union> {''..''}" using clean_step_set [of r out seg] by auto
  finally show ?case .
qed auto

lemma clean_fold_nonempty: "[] \<notin> set out \<Longrightarrow> [] \<notin> set (foldl (clean_step r) out segs)"
proof (induction segs arbitrary: out)
  case (Cons seg segs)
  have "[] \<notin> set (clean_step r out seg)"
  proof (cases "seg = [] \<or> seg = ''.''")
    case False
    moreover have "[] \<notin> set (butlast out)" using Cons.prems in_set_butlastD by metis
    moreover from False have "[] \<noteq> seg" by auto
    ultimately show ?thesis using Cons.prems by (simp add: clean_step_def)
  qed (use Cons.prems in \<open>simp add: clean_step_def\<close>)
  then show ?case using Cons.IH by simp
qed simp

lemma clean_segs_facts:
  assumes "seg \<in> set (clean_segs r (split_on slash p))"
  shows "seg \<noteq> []" and "slash \<notin> set seg" and "seg \<in> set (split_on slash p) \<or> seg = ''..''"
proof -
  show "seg \<noteq> []" using assms clean_fold_nonempty [of "[]" r "split_on slash p"] by (auto simp: clean_segs_def)
  show sub: "seg \<in> set (split_on slash p) \<or> seg = ''..''"
    using assms clean_fold_set [of r "[]" "split_on slash p"] by (auto simp: clean_segs_def)
  then show "slash \<notin> set seg" using split_on_elems [of seg slash p] by (elim disjE) (simp_all add: slash_def)
qed

lemma split_path_clean:
  assumes "p \<noteq> []" and "clean_segs (hd p = slash) (split_on slash p) \<noteq> []"
  shows "split_on slash (path_clean p) =
    (if hd p = slash then [[]] else []) @ clean_segs (hd p = slash) (split_on slash p)"
proof -
  define r where "r = (hd p = slash)"
  let ?out = "clean_segs r (split_on slash p)"
  have ne: "?out \<noteq> []" using assms(2) by (simp add: r_def)
  have split: "split_on slash (join_with slash ?out) = ?out"
    using ne clean_segs_facts(2) by (intro split_on_join) auto
  have "join_with slash ?out \<noteq> []"
  proof
    assume "join_with slash ?out = []"
    then have "?out = [[]]" using split by simp
    then show False using clean_segs_facts(1) [of "[]" r p] by simp
  qed
  then have "path_clean p = (if r then slash # join_with slash ?out else join_with slash ?out)"
    using assms(1) unfolding path_clean_def Let_def clean_segs_def r_def [symmetric] by (cases r) simp_all
  then have "split_on slash (path_clean p) = (if r then [[]] else []) @ ?out" using split by (cases r) simp_all
  then show ?thesis unfolding r_def .
qed

lemma clean_segs_snoc:
  "seg \<notin> {[], ''.'', ''..''} \<Longrightarrow> clean_segs r (segs @ [seg]) = clean_segs r segs @ [seg]"
  by (simp add: clean_segs_def clean_step_def)

section \<open>Properties\<close>

text \<open>
  C39. Manifests in object stores are never found: whatever the storage pfx and the capture, the
  key under which the S3 and GCS factories store the manifest of a capture differs from the key
  under which the readers look it up, which has a doubled slash before the file name.
\<close>

theorem manifest_key_mismatch:
  "captureID \<noteq> [] \<Longrightarrow> cloud_manifest_key pfx captureID \<noteq> LoadManifest_key pfx captureID"
proof
  assume cid: "captureID \<noteq> []" and eq: "cloud_manifest_key pfx captureID = LoadManifest_key pfx captureID"
  have man: "slash \<notin> set ManifestObjectName" "ManifestObjectName \<notin> {[], ''.'', ''..''}"
    by (simp_all add: ManifestObjectName_def slash_def)
  define p where "p = (if trim_slashes pfx = [] then captureID else trim_slashes pfx @ slash # captureID)"
  have key: "cloud_manifest_key pfx captureID = path_clean (p @ slash # ManifestObjectName)"
    using cid man by (simp add: cloud_manifest_key_def path_join_def p_def)
  have pne: "p \<noteq> []" using cid by (simp add: p_def)
  have segs: "clean_segs r (split_on slash (p @ slash # ManifestObjectName)) = clean_segs r (split_on slash p) @ [ManifestObjectName]" for r
    unfolding split_on_append split_on_no [OF man(1)] by (rule clean_segs_snoc [OF man(2)])
  have put: "split_on slash (cloud_manifest_key pfx captureID) =
      (if hd p = slash then [[]] else []) @ clean_segs (hd p = slash) (split_on slash p) @ [ManifestObjectName]"
    unfolding key using split_path_clean [of "p @ slash # ManifestObjectName"] pne by (simp add: segs)
  have "buildObjectPrefix pfx captureID = p @ [slash]" using cid by (simp add: buildObjectPrefix_def p_def)
  then have load: "split_on slash (LoadManifest_key pfx captureID) = split_on slash p @ [[], ManifestObjectName]"
    using man(1) by (simp add: LoadManifest_key_def split_on_append split_on_no)
  have eq': "(if hd p = slash then [[]] else []) @ clean_segs (hd p = slash) (split_on slash p) = split_on slash p @ [[]]"
    using eq put load by simp
  have no: "[] \<notin> set (clean_segs r (split_on slash p))" for r using clean_segs_facts(1) [of "[]" r p] by auto
  show False
  proof (cases "hd p = slash")
    case True
    obtain q where q: "p = slash # q" using True pne by (cases p) auto
    then have "clean_segs True (split_on slash p) = split_on slash q @ [[]]" using eq' True by simp
    then show False using no [of True] by simp
  next
    case False
    then show False using eq' no [of False] by (metis append_self_conv2 in_set_conv_decomp)
  qed
qed

theorem manifest_key_mismatch_witness:
  "cloud_manifest_key ''captures'' ''ns/web'' = ''captures/ns/web/manifest.json'' \<and>
    cloud_manifest_key ''captures'' ''ns/web'' \<noteq> LoadManifest_key ''captures'' ''ns/web''"
proof -
  have "cloud_manifest_key ''captures'' ''ns/web'' = ''captures/ns/web/manifest.json''" by code_simp
  then show ?thesis using manifest_key_mismatch [of "''ns/web''" "''captures''"] by blast
qed

lemma date_filter_skip:
  "\<forall>seg\<in>set pre. parse_date seg = None \<Longrightarrow> date_filter (pre @ segs) startTime endTime = date_filter segs startTime endTime"
  by (induction pre) auto

lemma pad_date_nontrivial: "format_date t \<notin> {[], ''.'', ''..''}"
proof -
  obtain y m d where "civil (t div day_ns) = (y, m, d)" by (cases "civil (t div day_ns)") auto
  moreover have "4 \<le> length (pad0 4 y)" by (simp add: pad0_def Let_def)
  ultimately have "4 \<le> length (format_date t)" by (simp add: format_date_def)
  then show ?thesis by auto
qed

lemma split_cloud_name:
  assumes "captureID \<noteq> []" and "slash \<notin> set agentPod" and "0 \<le> seq" and "0 \<le> ts" and "ts div day_ns < year_start 10000"
  obtains pre where "split_on slash (newCloudObjectName pfx captureID agentPod ts seq) = pre @ [format_date ts, objectFileName agentPod seq]"
    and "set pre \<subseteq> set (split_on slash (trim_slashes pfx)) \<union> set (split_on slash captureID) \<union> {''..'', []}"
proof -
  let ?d = "format_date ts" and ?f = "objectFileName agentPod seq"
  define p where "p = (if trim_slashes pfx = [] then captureID else trim_slashes pfx @ slash # captureID)"
  have d: "slash \<notin> set ?d" "?d \<notin> {[], ''.'', ''..''}" using parse_format_date [OF assms(4,5)] pad_date_nontrivial by auto
  have trim: "set (trim_space s) \<subseteq> set s" for s
    unfolding trim_space_def trim_left_def by (metis set_dropWhileD set_rev subsetI)
  have f: "slash \<notin> set ?f" "?f \<notin> {[], ''.'', ''..''}"
    using assms(2,3) trim [of agentPod] pad0_no_slash [of seq 6] by (auto simp: objectFileName_def Let_def slash_def)
  have ne: "p \<noteq> []" using assms(1) by (simp add: p_def)
  have key: "newCloudObjectName pfx captureID agentPod ts seq = path_clean (p @ slash # ?d @ slash # ?f)"
    using assms(1) d(2) f(2) by (simp add: newCloudObjectName_def path_join_def p_def)
  have "split_on slash (p @ slash # ?d @ slash # ?f) = split_on slash p @ [?d] @ [?f]"
    by (simp add: split_on_append split_on_no d(1) f(1))
  then have segs: "clean_segs r (split_on slash (p @ slash # ?d @ slash # ?f)) = clean_segs r (split_on slash p) @ [?d, ?f]" for r
    using clean_segs_snoc [OF f(2), of r "split_on slash p @ [?d]"] clean_segs_snoc [OF d(2), of r "split_on slash p"] by simp
  have "split_on slash (newCloudObjectName pfx captureID agentPod ts seq) =
      ((if hd p = slash then [[]] else []) @ clean_segs (hd p = slash) (split_on slash p)) @ [?d, ?f]"
    unfolding key using split_path_clean [of "p @ slash # ?d @ slash # ?f"] ne by (simp add: segs)
  moreover have "set (split_on slash p) \<subseteq> set (split_on slash (trim_slashes pfx)) \<union> set (split_on slash captureID)"
    by (auto simp: p_def split_on_append)
  then have "set (clean_segs r (split_on slash p)) \<subseteq> set (split_on slash (trim_slashes pfx)) \<union> set (split_on slash captureID) \<union> {''..''}" for r
    using clean_segs_facts(3) [of _ r p] by blast
  note this [of "hd p = slash"]
  ultimately show thesis by (intro that) auto
qed

text \<open>
  C38. Objects are selected by the day they were flushed: for a capture whose ID and prefix contain
  no date, the reader keeps an object exactly when the day on which the writer named it lies
  between the days of the start and the end time. A request captured before midnight in an object
  flushed after midnight is therefore skipped by an end time on the day it was captured.
\<close>

theorem objects_selected_by_flush_day:
  assumes "captureID \<noteq> []" and "slash \<notin> set agentPod" and "0 \<le> seq" and "0 \<le> ts" and "ts div day_ns < year_start 10000"
    and "\<forall>seg\<in>set (split_on slash (trim_slashes pfx)) \<union> set (split_on slash captureID). parse_date seg = None"
  shows "filterObjectByTime (newCloudObjectName pfx captureID agentPod ts seq) startTime endTime \<longleftrightarrow>
    (startTime \<noteq> 0 \<longrightarrow> truncate_day startTime \<le> truncate_day ts) \<and>
    (endTime \<noteq> 0 \<longrightarrow> truncate_day ts \<le> truncate_day endTime)"
proof -
  obtain pre where pre: "split_on slash (newCloudObjectName pfx captureID agentPod ts seq) = pre @ [format_date ts, objectFileName agentPod seq]"
    "set pre \<subseteq> set (split_on slash (trim_slashes pfx)) \<union> set (split_on slash captureID) \<union> {''..'', []}"
    by (rule split_cloud_name [OF assms(1-5)])
  have "parse_date ''..'' = None" "parse_date [] = None" by (simp_all add: parse_date_def)
  then have "\<forall>seg\<in>set pre. parse_date seg = None" using pre(2) assms(6) by blast
  then show ?thesis
    using parse_format_date [OF assms(4,5)] by (auto simp: filterObjectByTime_def pre(1) date_filter_skip)
qed

theorem objects_selected_by_flush_day_witness:
  "newCloudObjectName ''captures'' ''ns/web'' ''agent-0'' (740000 * day_ns + second) 7 = ''captures/ns/web/2027-01-20/agent-0-000007.jsonl.gz'' \<and>
    filterObjectByTime (newCloudObjectName ''captures'' ''ns/web'' ''agent-0'' (740000 * day_ns + second) 7) 0 (740000 * day_ns - second) = False"
proof -
  have chars: "char_of (48 :: nat) = CHR ''0''" "char_of (49 :: nat) = CHR ''1''" "char_of (50 :: nat) = CHR ''2''" "char_of (55 :: nat) = CHR ''7''"
    by code_simp+
  have "civil 740000 = (2027, 1, 20)"
    by (simp add: civil_def find_year.simps year_start_def month_lengths_def is_leap_def Let_def)
  then have "format_date (740000 * day_ns + second) = ''2027-01-20''"
    by (simp add: format_date_def day_ns_def pad0_def itoa_def digits10.simps chars)
  moreover have "objectFileName ''agent-0'' 7 = ''agent-0-000007.jsonl.gz''"
    by code_simp
  moreover have "path_join [''captures'', ''ns/web'', ''2027-01-20'', ''agent-0-000007.jsonl.gz''] =
      ''captures/ns/web/2027-01-20/agent-0-000007.jsonl.gz''" "trim_slashes ''captures'' = ''captures''"
    by code_simp+
  ultimately have "newCloudObjectName ''captures'' ''ns/web'' ''agent-0'' (740000 * day_ns + second) 7 =
      ''captures/ns/web/2027-01-20/agent-0-000007.jsonl.gz''"
    by (simp add: newCloudObjectName_def)
  moreover have "\<forall>seg\<in>set (split_on slash (trim_slashes ''captures'')) \<union> set (split_on slash ''ns/web''). parse_date seg = None"
    "slash \<notin> set ''agent-0''" "(740000 * day_ns + second) div day_ns < year_start 10000"
    "\<not> truncate_day (740000 * day_ns + second) \<le> truncate_day (740000 * day_ns - second)" "0 \<le> 740000 * day_ns + second"
    "740000 * day_ns - second \<noteq> 0"
    by code_simp+
  ultimately show ?thesis
    using objects_selected_by_flush_day [of "''ns/web''" "''agent-0''" 7 "740000 * day_ns + second" "''captures''" 0 "740000 * day_ns - second"] by simp
qed

end
