(* ===== verification/Object_Storage.thy ===== *)
theory Object_Storage
  imports Object_Names
begin

text \<open>
  Capture data in object stores: the buffering writer that turns captured requests into compressed
  JSON-lines objects (\<^verbatim>\<open>internal/storage/interface.go\<close>) and the readers that stream them back
  (\<^verbatim>\<open>internal/plugin/replay/reader_s3.go\<close>, \<^verbatim>\<open>reader_gcs.go\<close>, \<^verbatim>\<open>reader_fs.go\<close>). JSON encoding, gzip and
  the object store itself are parameters; every operation reads the clock once.
\<close>

section \<open>The writer\<close>

record 'o object_env =
  oe_marshal :: "CapturedRequest \<Rightarrow> string option"
  oe_gzip :: "string \<Rightarrow> string"
  oe_objectName :: "time \<Rightarrow> int \<Rightarrow> string"
  oe_upload :: "'o \<Rightarrow> string \<Rightarrow> string \<Rightarrow> 'o \<times> go_error option"

record bufferedObjectWriter =
  ow_flushInterval :: duration
  ow_maxBufferBytes :: int
  ow_sequence :: int
  ow_buffer :: string
  ow_closed :: bool
  ow_lastFlush :: time

datatype write_error = RequestNil | MarshalFailed | ErrWriterClosed | UploadFailed go_error | ErrWriteQueueFull | PluginFailed go_error

definition newline :: char where
  "newline = CHR 0x0A"

definition storage_defaultFlushInterval :: duration where
  "storage_defaultFlushInterval = 5 * second"

definition defaultMaxBufferSize :: int where
  "defaultMaxBufferSize = 10 * 1024 * 1024"

definition normalizeFlushInterval :: "duration \<Rightarrow> duration" where
  "normalizeFlushInterval interval = (if interval \<le> 0 then storage_defaultFlushInterval else interval)"

definition normalizeMaxBufferBytes :: "int \<Rightarrow> int" where
  "normalizeMaxBufferBytes sz = (if sz \<le> 0 then defaultMaxBufferSize else sz)"

definition newBufferedObjectWriter :: "duration \<Rightarrow> int \<Rightarrow> time \<Rightarrow> bufferedObjectWriter" where
  "newBufferedObjectWriter flushInterval maxBufferBytes now =
    \<lparr>ow_flushInterval = normalizeFlushInterval flushInterval, ow_maxBufferBytes = normalizeMaxBufferBytes maxBufferBytes,
     ow_sequence = 0, ow_buffer = [], ow_closed = False, ow_lastFlush = now\<rparr>"

definition marshalRequestLine :: "'o object_env \<Rightarrow> CapturedRequest option \<Rightarrow> write_error + string" where
  "marshalRequestLine env req =
    (case req of
       None \<Rightarrow> Inl RequestNil
     | Some r \<Rightarrow> (case oe_marshal env r of None \<Rightarrow> Inl MarshalFailed | Some line \<Rightarrow> Inr (line @ [newline])))"

definition flushLocked ::
  "'o object_env \<Rightarrow> time \<Rightarrow> bufferedObjectWriter \<Rightarrow> 'o \<Rightarrow> bufferedObjectWriter \<times> 'o \<times> write_error option" where
  "flushLocked env now w obj =
    (if ow_buffer w = [] then (w\<lparr>ow_lastFlush := now\<rparr>, obj, None)
     else
       let compressed = oe_gzip env (ow_buffer w);
           objectName = oe_objectName env now ((ow_sequence w + 1) mod 2 ^ 64)
       in case oe_upload env obj objectName compressed of
         (obj', Some err) \<Rightarrow> (w, obj', Some (UploadFailed err))
       | (obj', None) \<Rightarrow>
           (w\<lparr>ow_buffer := [], ow_sequence := (ow_sequence w + 1) mod 2 ^ 64, ow_lastFlush := now\<rparr>, obj', None))"

definition ObjectWriter_Write ::
  "'o object_env \<Rightarrow> time \<Rightarrow> CapturedRequest option \<Rightarrow> bufferedObjectWriter \<Rightarrow> 'o \<Rightarrow> bufferedObjectWriter \<times> 'o \<times> write_error option" where
  "ObjectWriter_Write env now req w obj =
    (case marshalRequestLine env req of
       Inl err \<Rightarrow> (w, obj, Some err)
     | Inr line \<Rightarrow>
         if ow_closed w then (w, obj, Some ErrWriterClosed)
         else let w1 = w\<lparr>ow_buffer := ow_buffer w @ line\<rparr>
           in if ow_maxBufferBytes w1 \<le> int (length (ow_buffer w1)) \<or> ow_flushInterval w1 \<le> time_sub now (ow_lastFlush w1)
              then flushLocked env now w1 obj else (w1, obj, None))"

definition ObjectWriter_Flush ::
  "'o object_env \<Rightarrow> time \<Rightarrow> bufferedObjectWriter \<Rightarrow> 'o \<Rightarrow> bufferedObjectWriter \<times> 'o \<times> write_error option" where
  "ObjectWriter_Flush env now w obj = (if ow_closed w then (w, obj, Some ErrWriterClosed) else flushLocked env now w obj)"

definition ObjectWriter_Close ::
  "'o object_env \<Rightarrow> time \<Rightarrow> bufferedObjectWriter \<Rightarrow> 'o \<Rightarrow> bufferedObjectWriter \<times> 'o \<times> write_error option" where
  "ObjectWriter_Close env now w obj =
    (if ow_closed w then (w, obj, None)
     else case flushLocked env now w obj of
       (w', obj', Some err) \<Rightarrow> (w', obj', Some err)
     | (w', obj', None) \<Rightarrow> (w'\<lparr>ow_closed := True\<rparr>, obj', None))"

section \<open>The readers\<close>

text \<open>
  The S3, GCS and filesystem readers share their loop; they differ in how they list and open
  objects. Opening yields the decompressed bytes and the error, if any, at which reading stops; a
  line of 10 MiB or more stops the scanner.
\<close>

record reader_env =
  re_unmarshal :: "string \<Rightarrow> CapturedRequest option"
  re_openObject :: "string \<Rightarrow> go_error + (string \<times> go_error option)"

record capture_reader =
  rd_objects :: "string list"
  rd_scanner :: "(string list \<times> go_error option) option"
  rd_opts :: ReadOptions
  rd_opened :: bool
  rd_closed :: bool
  rd_totalRead :: int

datatype read_result = GotRequest CapturedRequest | ErrReaderDone | NotOpened | AlreadyOpened | ListFailed go_error | OpenFailed go_error | ScanFailed go_error

definition max_line :: nat where
  "max_line = 10 * 1024 * 1024"

definition drop_cr :: "string \<Rightarrow> string" where
  "drop_cr s = (if s \<noteq> [] \<and> last s = CHR 0x0D then butlast s else s)"

fun scan_lines :: "string list \<Rightarrow> go_error option \<Rightarrow> string list \<times> go_error option" where
  "scan_lines [] err = ([], err)"
| "scan_lines (l # ls) err =
    (if max_line \<le> length l then ([], Some (OtherError ''token too long''))
     else case scan_lines ls err of (ls', err') \<Rightarrow> (drop_cr l # ls', err'))"

definition raw_lines :: "string \<Rightarrow> string list" where
  "raw_lines content = (let segs = split_on newline content in if last segs = [] then butlast segs else segs)"

definition openObject :: "reader_env \<Rightarrow> string \<Rightarrow> go_error + (string list \<times> go_error option)" where
  "openObject env key =
    (case re_openObject env key of
       Inl err \<Rightarrow> Inl err
     | Inr (content, err) \<Rightarrow> Inr (scan_lines (raw_lines content) err))"

definition keep_key :: "ReadOptions \<Rightarrow> string \<Rightarrow> bool" where
  "keep_key opts key \<longleftrightarrow> suffix ''.jsonl.gz'' key \<and> filterObjectByTime key (ro_StartTime opts) (ro_EndTime opts)"

text \<open>A listing is the sequence of pages the store returns, each marked truncated or final.\<close>

fun list_pages :: "(go_error + string list \<times> bool) list \<Rightarrow> ReadOptions \<Rightarrow> string list \<Rightarrow> go_error + string list" where
  "list_pages [] opts objects = Inr objects"
| "list_pages (Inl err # pages) opts objects = Inl err"
| "list_pages (Inr (keys, truncated) # pages) opts objects =
    (let objects' = objects @ filter (keep_key opts) keys
     in if truncated then list_pages pages opts objects' else Inr objects')"

definition listObjects :: "(go_error + string list \<times> bool) list \<Rightarrow> ReadOptions \<Rightarrow> go_error + string list" where
  "listObjects pages opts = (case list_pages pages opts [] of Inl err \<Rightarrow> Inl err | Inr objects \<Rightarrow> Inr (sort objects))"

definition new_reader :: capture_reader where
  "new_reader = \<lparr>rd_objects = [], rd_scanner = None,
    rd_opts = \<lparr>ro_CaptureID = [], ro_StartTime = 0, ro_EndTime = 0, ro_PathPrefix = [], ro_Methods = [], ro_Limit = 0\<rparr>,
    rd_opened = False, rd_closed = False, rd_totalRead = 0\<rparr>"

definition Reader_Open ::
  "(go_error + string list \<times> bool) list \<Rightarrow> ReadOptions \<Rightarrow> capture_reader \<Rightarrow> capture_reader \<times> read_result option" where
  "Reader_Open pages opts r =
    (if rd_opened r then (r, Some AlreadyOpened)
     else let r1 = r\<lparr>rd_opts := opts, rd_opened := True\<rparr>
       in case listObjects pages opts of
         Inl err \<Rightarrow> (r1, Some (ListFailed err))
       | Inr objects \<Rightarrow> (r1\<lparr>rd_objects := objects\<rparr>, None))"

text \<open>The field \<open>rd_objects\<close> holds the objects after the current one.\<close>

function next_loop :: "reader_env \<Rightarrow> capture_reader \<Rightarrow> capture_reader \<times> read_result" where
  "next_loop env r =
    (case rd_scanner r of
       Some (line # lines, err) \<Rightarrow>
         let r1 = r\<lparr>rd_scanner := Some (lines, err)\<rparr>
         in (case re_unmarshal env line of
               None \<Rightarrow> next_loop env r1
             | Some req \<Rightarrow>
                 if \<not> matchesReadOptions req (rd_opts r) then next_loop env r1
                 else if 0 < ro_Limit (rd_opts r) \<and> ro_Limit (rd_opts r) \<le> rd_totalRead r then (r1, ErrReaderDone)
                 else (r1\<lparr>rd_totalRead := rd_totalRead r + 1\<rparr>, GotRequest req))
     | Some ([], Some err) \<Rightarrow> (r, ScanFailed err)
     | _ \<Rightarrow>
         (case rd_objects r of
            [] \<Rightarrow> (r\<lparr>rd_scanner := None\<rparr>, ErrReaderDone)
          | key # keys \<Rightarrow>
              (case openObject env key of
                 Inl err \<Rightarrow> (r\<lparr>rd_scanner := None, rd_objects := keys\<rparr>, OpenFailed err)
               | Inr scanner \<Rightarrow> next_loop env (r\<lparr>rd_scanner := Some scanner, rd_objects := keys\<rparr>))))"
  by pat_completeness auto
termination
  by (relation "measures [\<lambda>(env, r). length (rd_objects r), \<lambda>(env, r). case rd_scanner r of None \<Rightarrow> 0 | Some (lines, err) \<Rightarrow> length lines]") auto

declare next_loop.simps [simp del]

definition Reader_Next :: "reader_env \<Rightarrow> capture_reader \<Rightarrow> capture_reader \<times> read_result" where
  "Reader_Next env r =
    (if \<not> rd_opened r then (r, NotOpened)
     else if rd_closed r then (r, ErrReaderDone)
     else next_loop env r)"

definition Reader_Close :: "capture_reader \<Rightarrow> capture_reader" where
  "Reader_Close r = (if rd_closed r then r else r\<lparr>rd_closed := True, rd_scanner := None\<rparr>)"

definition seekTo :: "string list \<Rightarrow> string \<Rightarrow> nat" where
  "seekTo keys resumeKey =
    (if resumeKey = [] then 0
     else let idx = length (takeWhile (\<lambda>k. k < resumeKey) keys)
       in if idx < length keys \<and> keys ! idx = resumeKey then idx + 1 else idx)"

end
