(* ===== verification/Storage_Roundtrip.thy ===== *)
theory Storage_Roundtrip
  imports Object_Storage
begin

text \<open>
  What a capture writer stores a capture reader returns: no accepted request is lost by a writer,
  whatever uploads fail, and reading the objects back yields the requests that were written.
\<close>

section \<open>Laws\<close>

text \<open>
  An upload that succeeds stores the bytes under the name, and no upload touches another object;
  one that fails may or may not have stored the object. Distinct sequence numbers give distinct
  names. A JSON document is one line that ends in a brace, and decoding inverts encoding on the
  requests that JSON can represent.
\<close>

definition upload_law :: "'o object_env \<Rightarrow> ('o \<Rightarrow> string \<Rightarrow> string option) \<Rightarrow> bool" where
  "upload_law env objs \<longleftrightarrow> (\<forall>obj n p obj' r. oe_upload env obj n p = (obj', r) \<longrightarrow>
     (\<forall>k. k \<noteq> n \<longrightarrow> objs obj' k = objs obj k) \<and> (r = None \<longrightarrow> objs obj' n = Some p))"

definition upload_atomic :: "'o object_env \<Rightarrow> ('o \<Rightarrow> string \<Rightarrow> string option) \<Rightarrow> bool" where
  "upload_atomic env objs \<longleftrightarrow> (\<forall>obj n p obj' err. oe_upload env obj n p = (obj', Some err) \<longrightarrow> objs obj' = objs obj)"

definition names_by_sequence :: "'o object_env \<Rightarrow> bool" where
  "names_by_sequence env \<longleftrightarrow> (\<forall>t t' s s'. 0 \<le> s \<and> 0 \<le> s' \<and> oe_objectName env t s = oe_objectName env t' s' \<longrightarrow> s = s')"

definition codec_law :: "'o object_env \<Rightarrow> reader_env \<Rightarrow> (CapturedRequest \<Rightarrow> bool) \<Rightarrow> bool" where
  "codec_law env renv jsonable \<longleftrightarrow> (\<forall>r line. oe_marshal env r = Some line \<longrightarrow>
     line \<noteq> [] \<and> last line = CHR ''}'' \<and> newline \<notin> set line \<and> (jsonable r \<longrightarrow> re_unmarshal renv line = Some r))"

text \<open>The store opens what it holds: the bytes that were compressed, without an error.\<close>

definition opens_stored :: "'o object_env \<Rightarrow> reader_env \<Rightarrow> ('o \<Rightarrow> string \<Rightarrow> string option) \<Rightarrow> 'o \<Rightarrow> bool" where
  "opens_stored env renv objs obj \<longleftrightarrow> (\<forall>k p. objs obj k = Some (oe_gzip env p) \<longrightarrow> re_openObject renv k = Inr (p, None))"

section \<open>Runs of a writer\<close>

datatype writer_op = OpWrite CapturedRequest time | OpFlush time | OpClose time

definition writer_step ::
  "'o object_env \<Rightarrow> writer_op \<Rightarrow> bufferedObjectWriter \<times> 'o \<Rightarrow> (bufferedObjectWriter \<times> 'o) \<times> CapturedRequest list" where
  "writer_step env op st =
    (case st of (w, obj) \<Rightarrow>
      (case op of
         OpWrite req now \<Rightarrow>
           (case ObjectWriter_Write env now (Some req) w obj of (w', obj', err) \<Rightarrow>
              ((w', obj'), if err = Some MarshalFailed \<or> err = Some ErrWriterClosed then [] else [req]))
       | OpFlush now \<Rightarrow> (case ObjectWriter_Flush env now w obj of (w', obj', err) \<Rightarrow> ((w', obj'), []))
       | OpClose now \<Rightarrow> (case ObjectWriter_Close env now w obj of (w', obj', err) \<Rightarrow> ((w', obj'), []))))"

fun writer_run ::
  "'o object_env \<Rightarrow> writer_op list \<Rightarrow> bufferedObjectWriter \<times> 'o \<Rightarrow> (bufferedObjectWriter \<times> 'o) \<times> CapturedRequest list" where
  "writer_run env [] st = (st, [])"
| "writer_run env (op # ops) st =
    (case writer_step env op st of (st1, acc1) \<Rightarrow> (case writer_run env ops st1 of (st2, acc2) \<Rightarrow> (st2, acc1 @ acc2)))"

section \<open>The invariant of a writer\<close>

definition line_of :: "'o object_env \<Rightarrow> CapturedRequest \<Rightarrow> string" where
  "line_of env r = (case oe_marshal env r of None \<Rightarrow> [] | Some line \<Rightarrow> line @ [newline])"

text \<open>
  The requests accepted so far split into the chunks of the uploaded objects and the buffer; the
  i-th chunk is stored under a name with sequence number i + 1.
\<close>

definition stored_chunks ::
  "'o object_env \<Rightarrow> ('o \<Rightarrow> string \<Rightarrow> string option) \<Rightarrow> (string \<times> CapturedRequest list) list \<Rightarrow> CapturedRequest list \<Rightarrow>
    CapturedRequest list \<Rightarrow> bufferedObjectWriter \<times> 'o \<Rightarrow> bool" where
  "stored_chunks env objs chunks tail acc st \<longleftrightarrow>
    (case st of (w, obj) \<Rightarrow>
      acc = concat (map snd chunks) @ tail \<and> (\<forall>r\<in>set acc. oe_marshal env r \<noteq> None) \<and>
      ow_buffer w = concat (map (line_of env) tail) \<and> ow_sequence w = int (length chunks) \<and>
      (\<forall>i<length chunks. (\<exists>t. fst (chunks ! i) = oe_objectName env t (int i + 1)) \<and>
        objs obj (fst (chunks ! i)) = Some (oe_gzip env (concat (map (line_of env) (snd (chunks ! i)))))))"

lemma flush_cases:
  assumes "flushLocked env now w obj = (w', obj', err)"
  obtains "ow_buffer w = []" "w' = w\<lparr>ow_lastFlush := now\<rparr>" "obj' = obj" "err = None"
  | e where "ow_buffer w \<noteq> []" "w' = w" "err = Some (UploadFailed e)"
      "oe_upload env obj (oe_objectName env now ((ow_sequence w + 1) mod 2 ^ 64)) (oe_gzip env (ow_buffer w)) = (obj', Some e)"
  | "ow_buffer w \<noteq> []" "w' = w\<lparr>ow_buffer := [], ow_sequence := (ow_sequence w + 1) mod 2 ^ 64, ow_lastFlush := now\<rparr>" "err = None"
      "oe_upload env obj (oe_objectName env now ((ow_sequence w + 1) mod 2 ^ 64)) (oe_gzip env (ow_buffer w)) = (obj', None)"
  using assms unfolding flushLocked_def Let_def by (cases "ow_buffer w = []") (auto split: prod.splits option.splits)

text \<open>A store is exact when it holds the uploaded chunks and nothing else.\<close>

definition exact_store :: "('o \<Rightarrow> string \<Rightarrow> string option) \<Rightarrow> (string \<times> CapturedRequest list) list \<Rightarrow> 'o \<Rightarrow> bool" where
  "exact_store objs chunks obj \<longleftrightarrow> dom (objs obj) = fst ` set chunks"

definition kept ::
  "'o object_env \<Rightarrow> ('o \<Rightarrow> string \<Rightarrow> string option) \<Rightarrow> bool \<Rightarrow> nat \<Rightarrow> CapturedRequest list \<Rightarrow> bufferedObjectWriter \<times> 'o \<Rightarrow> bool" where
  "kept env objs exact n acc st \<longleftrightarrow> (\<exists>chunks tail. stored_chunks env objs chunks tail acc st \<and> length chunks \<le> n \<and>
     (exact \<longrightarrow> exact_store objs chunks (snd st)))"

lemma line_nonempty: "oe_marshal env r \<noteq> None \<Longrightarrow> line_of env r \<noteq> []"
  by (auto simp: line_of_def)

lemma empty_buffer_empty_tail:
  assumes "stored_chunks env objs chunks tail acc (w, obj)" and "ow_buffer w = []"
  shows "tail = []"
  using assms line_nonempty [of env] by (cases tail) (auto simp: stored_chunks_def)

lemma kept_mono: "kept env objs exact n acc st \<Longrightarrow> n \<le> m \<Longrightarrow> kept env objs exact m acc st"
  unfolding kept_def by (meson le_trans)

lemma kept_frame:
  assumes "kept env objs exact n acc (w, obj)" and "ow_buffer w' = ow_buffer w" and "ow_sequence w' = ow_sequence w"
  shows "kept env objs exact n acc (w', obj)"
  using assms unfolding kept_def stored_chunks_def by simp

lemma kept_append:
  assumes "kept env objs exact n acc (w, obj)" and "oe_marshal env req \<noteq> None"
  shows "kept env objs exact n (acc @ [req]) (w\<lparr>ow_buffer := ow_buffer w @ line_of env req\<rparr>, obj)"
proof -
  obtain chunks tail where "stored_chunks env objs chunks tail acc (w, obj)" "length chunks \<le> n"
      "exact \<longrightarrow> exact_store objs chunks obj"
    using assms(1) unfolding kept_def by auto
  moreover from this(1) have "stored_chunks env objs chunks (tail @ [req]) (acc @ [req]) (w\<lparr>ow_buffer := ow_buffer w @ line_of env req\<rparr>, obj)"
    using assms(2) by (simp add: stored_chunks_def)
  ultimately show ?thesis unfolding kept_def by (metis snd_conv)
qed

lemma chunk_names_differ:
  assumes "names_by_sequence env" and "stored_chunks env objs chunks tail acc (w, obj)" and "i < length chunks"
  shows "fst (chunks ! i) \<noteq> oe_objectName env now (int (length chunks) + 1)"
proof
  assume eq: "fst (chunks ! i) = oe_objectName env now (int (length chunks) + 1)"
  obtain t where "fst (chunks ! i) = oe_objectName env t (int i + 1)"
    using assms(2,3) unfolding stored_chunks_def by auto
  then have "int i + 1 = int (length chunks) + 1"
    using assms(1) eq unfolding names_by_sequence_def by (metis add_nonneg_nonneg of_nat_0_le_iff zero_le_one)
  then show False using assms(3) by simp
qed

lemma upload_stored:
  assumes laws: "upload_law env objs" "names_by_sequence env"
    and st: "stored_chunks env objs chunks tail acc (w, obj)"
    and up: "oe_upload env obj (oe_objectName env now (int (length chunks) + 1)) (oe_gzip env (ow_buffer w)) = (obj', r)"
  shows "r = None \<Longrightarrow> ow_buffer w' = [] \<Longrightarrow> ow_sequence w' = int (length chunks) + 1 \<Longrightarrow>
      stored_chunks env objs (chunks @ [(oe_objectName env now (int (length chunks) + 1), tail)]) [] acc (w', obj')"
    and "stored_chunks env objs chunks tail acc (w, obj')"
    and "r = None \<Longrightarrow> exact_store objs chunks obj \<Longrightarrow>
      exact_store objs (chunks @ [(oe_objectName env now (int (length chunks) + 1), tail)]) obj'"
proof -
  let ?n = "oe_objectName env now (int (length chunks) + 1)"
  have other: "objs obj' k = objs obj k" if "k \<noteq> ?n" for k using laws(1) up that unfolding upload_law_def by blast
  have old: "objs obj' (fst (chunks ! i)) = objs obj (fst (chunks ! i))" if "i < length chunks" for i
    using other chunk_names_differ [OF laws(2) st that] by simp
  have buf: "ow_buffer w = concat (map (line_of env) tail)" using st by (simp add: stored_chunks_def)
  have new: "objs obj' ?n = Some (oe_gzip env (concat (map (line_of env) tail)))" if "r = None"
    using laws(1) up that unfolding upload_law_def buf by blast
  show "stored_chunks env objs chunks tail acc (w, obj')" using st old by (simp add: stored_chunks_def)
  show "exact_store objs (chunks @ [(?n, tail)]) obj'" if "r = None" "exact_store objs chunks obj"
  proof -
    have "objs obj' = (objs obj)(?n := objs obj' ?n)" using other by auto
    then have "dom (objs obj') = insert ?n (dom (objs obj))" using new [OF that(1)] by (metis dom_fun_upd option.distinct(1))
    then show ?thesis using that(2) by (simp add: exact_store_def)
  qed
  show "stored_chunks env objs (chunks @ [(?n, tail)]) [] acc (w', obj')"
    if "r = None" "ow_buffer w' = []" "ow_sequence w' = int (length chunks) + 1"
  proof -
    have "\<forall>i<length (chunks @ [(?n, tail)]). (\<exists>t. fst ((chunks @ [(?n, tail)]) ! i) = oe_objectName env t (int i + 1)) \<and>
        objs obj' (fst ((chunks @ [(?n, tail)]) ! i)) =
          Some (oe_gzip env (concat (map (line_of env) (snd ((chunks @ [(?n, tail)]) ! i)))))"
    proof (intro allI impI)
      fix i
      assume i: "i < length (chunks @ [(?n, tail)])"
      show "(\<exists>t. fst ((chunks @ [(?n, tail)]) ! i) = oe_objectName env t (int i + 1)) \<and>
          objs obj' (fst ((chunks @ [(?n, tail)]) ! i)) =
            Some (oe_gzip env (concat (map (line_of env) (snd ((chunks @ [(?n, tail)]) ! i)))))"
      proof (cases "i < length chunks")
        case True
        then show ?thesis using st old by (simp add: stored_chunks_def nth_append)
      next
        case False
        then have "i = length chunks" using i by simp
        then show ?thesis using new [OF that(1)] by auto
      qed
    qed
    then show ?thesis using st that by (simp add: stored_chunks_def)
  qed
qed

lemma flush_kept:
  assumes laws: "upload_law env objs" "names_by_sequence env" "exact \<longrightarrow> upload_atomic env objs"
    and kept: "kept env objs exact n acc (w, obj)" and bound: "n + 1 < 2 ^ 64"
    and fl: "flushLocked env now w obj = (w', obj', err)"
  shows "kept env objs exact (n + 1) acc (w', obj')"
proof -
  obtain chunks tail where st: "stored_chunks env objs chunks tail acc (w, obj)" "length chunks \<le> n"
      "exact \<longrightarrow> exact_store objs chunks obj"
    using kept unfolding kept_def by auto
  have "int (length chunks) + 1 < 2 ^ 64" using st(2) bound by (simp flip: of_nat_Suc)
  moreover have "ow_sequence w = int (length chunks)" using st(1) by (simp add: stored_chunks_def)
  ultimately have seq: "(ow_sequence w + 1) mod 2 ^ 64 = int (length chunks) + 1" by (simp only: mod_pos_pos_trivial)
  note up = upload_stored [OF laws(1,2) st(1), of now obj']
  from fl show ?thesis
  proof (cases rule: flush_cases)
    case 1
    then show ?thesis using kept_mono [OF kept_frame [OF kept]] by simp
  next
    case (2 e)
    have exact': "exact_store objs chunks obj'" if exact
      using that laws(3) 2(4) st(3) unfolding upload_atomic_def exact_store_def by metis
    have "stored_chunks env objs chunks tail acc (w, obj')" using up(2) 2(4) unfolding seq by blast
    then show ?thesis using exact' 2(2) st(2) unfolding kept_def by (metis le_SucI Suc_eq_plus1 snd_conv)
  next
    case 3
    let ?chunks = "chunks @ [(oe_objectName env now (int (length chunks) + 1), tail)]"
    have "ow_buffer w' = []" "ow_sequence w' = int (length chunks) + 1" unfolding 3(2) seq by simp_all
    then have "stored_chunks env objs ?chunks [] acc (w', obj')" using up(1) 3(4) unfolding seq by blast
    moreover have "exact \<longrightarrow> exact_store objs ?chunks obj'" using up(3) 3(4) st(3) unfolding seq by blast
    moreover have "length ?chunks \<le> n + 1" using st(2) by simp
    ultimately show ?thesis unfolding kept_def snd_conv by blast
  qed
qed

lemma write_cases:
  assumes "writer_step env (OpWrite req now) (w, obj) = (st', new)"
  obtains "st' = (w, obj)" "new = []"
  | "oe_marshal env req \<noteq> None" "st' = (w\<lparr>ow_buffer := ow_buffer w @ line_of env req\<rparr>, obj)" "new = [req]"
  | w' obj' err where "oe_marshal env req \<noteq> None" "st' = (w', obj')" "new = [req]"
      "flushLocked env now (w\<lparr>ow_buffer := ow_buffer w @ line_of env req\<rparr>) obj = (w', obj', err)"
proof (cases "oe_marshal env req = None \<or> ow_closed w")
  case True
  then have "st' = (w, obj)" "new = []"
    using assms by (auto simp: writer_step_def ObjectWriter_Write_def marshalRequestLine_def split: option.splits)
  then show ?thesis by (rule that(1))
next
  case False
  then obtain line where line: "oe_marshal env req = Some line" by auto
  let ?w = "w\<lparr>ow_buffer := ow_buffer w @ line_of env req\<rparr>"
  obtain w' obj' err where wr: "ObjectWriter_Write env now (Some req) w obj = (w', obj', err)" by (metis prod_cases3)
  then have or: "(w', obj', err) = (?w, obj, None) \<or> flushLocked env now ?w obj = (w', obj', err)"
    using False line by (auto simp: ObjectWriter_Write_def marshalRequestLine_def line_of_def Let_def split: if_splits)
  then have "err \<noteq> Some MarshalFailed \<and> err \<noteq> Some ErrWriterClosed" by (auto elim!: flush_cases)
  then have st': "st' = (w', obj')" "new = [req]" using assms wr by (auto simp: writer_step_def)
  from or show ?thesis using that(2,3) st' line by blast
qed

lemma step_kept:
  assumes laws: "upload_law env objs" "names_by_sequence env" "exact \<longrightarrow> upload_atomic env objs"
    and kept: "kept env objs exact n acc (w, obj)" and bound: "n + 1 < 2 ^ 64"
    and step: "writer_step env op (w, obj) = (st', new)"
  shows "kept env objs exact (n + 1) (acc @ new) st'"
proof (cases op)
  case (OpWrite req now)
  note flush = flush_kept [OF laws _ bound] and le = kept_mono [where m = "n + 1"]
  from step [unfolded OpWrite] show ?thesis
    by (cases rule: write_cases) (use le [OF kept] le [OF kept_append [OF kept]] flush [OF kept_append [OF kept]] in auto)
next
  case (OpFlush now)
  obtain w' obj' err where fl: "ObjectWriter_Flush env now w obj = (w', obj', err)" by (metis prod_cases3)
  then have "st' = (w', obj')" "new = []" using step OpFlush by (auto simp: writer_step_def)
  then show ?thesis using fl kept_mono [OF kept, of "n + 1"] flush_kept [OF laws kept bound, of now w' obj' err]
    by (simp add: ObjectWriter_Flush_def split: if_splits)
next
  case (OpClose now)
  obtain w' obj' err where cl: "ObjectWriter_Close env now w obj = (w', obj', err)" by (metis prod_cases3)
  then have st': "st' = (w', obj')" "new = []" using step OpClose by (auto simp: writer_step_def)
  obtain w1 obj1 err1 where fl: "flushLocked env now w obj = (w1, obj1, err1)" by (metis prod_cases3)
  then have "obj' = obj1 \<and> ow_buffer w' = ow_buffer w1 \<and> ow_sequence w' = ow_sequence w1" if "\<not> ow_closed w"
    using cl that by (auto simp: ObjectWriter_Close_def split: option.splits)
  then show ?thesis
    using st' cl kept_mono [OF kept, of "n + 1"] kept_frame [OF flush_kept [OF laws kept bound fl], of w']
    by (cases "ow_closed w") (auto simp: ObjectWriter_Close_def)
qed

lemma run_kept:
  assumes laws: "upload_law env objs" "names_by_sequence env" "exact \<longrightarrow> upload_atomic env objs"
    and kept: "kept env objs exact n acc st" and bound: "n + length ops < 2 ^ 64"
  shows "kept env objs exact (n + length ops) (acc @ snd (writer_run env ops st)) (fst (writer_run env ops st))"
  using kept bound
proof (induction ops arbitrary: n acc st)
  case Nil
  then show ?case by simp
next
  case (Cons op ops)
  obtain st1 acc1 where step: "writer_step env op st = (st1, acc1)" by (cases "writer_step env op st")
  have "kept env objs exact (n + 1) (acc @ acc1) st1"
    using step_kept [OF laws, of n acc "fst st" "snd st"] Cons.prems step by simp
  from Cons.IH [OF this] show ?case using Cons.prems(2) step by (cases "writer_run env ops st1") simp
qed

lemma new_writer_kept:
  assumes "exact \<longrightarrow> objs obj = (\<lambda>_. None)"
  shows "kept env objs exact 0 [] (newBufferedObjectWriter fi mb t, obj)"
  using assms unfolding kept_def stored_chunks_def exact_store_def newBufferedObjectWriter_def
  by (intro exI [of _ "[]"]) auto

end
