(* ===== verification/Storage_Reading.thy ===== *)
theory Storage_Reading
  imports Storage_Roundtrip
begin

text \<open>
  Reading capture data back: the requests a reader still has to return, the lines of an object, the
  distinct names of the objects of a writer, and the round trip from the buffering writer through
  the object store to the reader.
\<close>

section \<open>What a reader has still to return\<close>

fun line_requests :: "reader_env \<Rightarrow> ReadOptions \<Rightarrow> string list \<Rightarrow> CapturedRequest list" where
  "line_requests renv opts [] = []"
| "line_requests renv opts (line # lines) =
    (case re_unmarshal renv line of
       None \<Rightarrow> line_requests renv opts lines
     | Some req \<Rightarrow> if matchesReadOptions req opts then req # line_requests renv opts lines else line_requests renv opts lines)"










section \<open>The lines of an object\<close>




lemma line_requests_append [simp]:
  "line_requests renv opts (ls @ ls') = line_requests renv opts ls @ line_requests renv opts ls'"
  by (induction ls) (auto split: option.splits)




section \<open>The names of the objects of a writer\<close>

lemma cloud_name_ends:
  assumes "slash \<notin> set agentPod" and "0 \<le> seq"
  obtains q where "newCloudObjectName pfx captureID agentPod ts seq = q @ objectFileName agentPod seq"
proof -
  let ?f = "objectFileName agentPod seq" and ?d = "format_date ts"
  have trim: "set (trim_space agentPod) \<subseteq> set agentPod"
    unfolding trim_space_def trim_left_def by (metis set_dropWhileD set_rev subsetI)
  have f: "slash \<notin> set ?f" "?f \<notin> {[], ''.'', ''..''}"
    using assms trim pad0_no_slash [of seq 6] by (auto simp: objectFileName_def Let_def slash_def)
  define ps where "ps = filter (\<lambda>s. s \<noteq> []) ((if trim_slashes pfx \<noteq> [] then [trim_slashes pfx] else []) @ [captureID]) @ [?d]"
  have "?d \<noteq> []" using pad_date_nontrivial [of ts] by blast
  then have "newCloudObjectName pfx captureID agentPod ts seq = path_clean (join_with slash (ps @ [?f]))"
    using f(2) by (simp add: newCloudObjectName_def path_join_def ps_def)
  also have "join_with slash (ps @ [?f]) = join_with slash ps @ slash # ?f" by (rule join_with_snoc) (simp add: ps_def)
  finally have name: "newCloudObjectName pfx captureID agentPod ts seq = path_clean (join_with slash ps @ slash # ?f)" .
  have "join_with slash ps \<noteq> []"
    using \<open>?d \<noteq> []\<close> join_with_snoc [of _ slash ?d] unfolding ps_def
    by (metis append_is_Nil_conv append_self_conv2 join_with.simps(2) list.distinct(1))
  from path_clean_last [OF f this] show thesis
    unfolding name [symmetric] using that by (metis append.assoc append_Cons append_Nil)
qed

lemma cut_at_last:
  assumes "a @ c # d = a' @ c # d'" and "c \<notin> set d" and "c \<notin> set d'"
  shows "d = d'"
proof -
  have "takeWhile (\<lambda>x. x \<noteq> c) (rev (a @ c # d)) = rev d" "takeWhile (\<lambda>x. x \<noteq> c) (rev (a' @ c # d')) = rev d'"
    using assms(2,3) by (auto simp: takeWhile_append2 takeWhile_tail)
  then show ?thesis using assms(1) by simp
qed

lemma file_name_sequence:
  assumes "q @ objectFileName pod s = q' @ objectFileName pod s'" and "0 \<le> s" and "0 \<le> s'"
  shows "s = s'"
proof -
  define p where "p = (if trim_space pod = [] then ''unknown-agent'' else trim_space pod)"
  have name: "objectFileName pod n = p @ CHR ''-'' # pad0 6 n @ ''.jsonl.gz''" for n
    by (simp add: objectFileName_def p_def Let_def)
  have no: "CHR ''-'' \<notin> set (pad0 6 n)" if "0 \<le> n" for n
    using that digits10_chars [of "CHR ''-''"] by (auto simp: pad0_def itoa_def Let_def)
  have "((q @ p) @ CHR ''-'' # pad0 6 s) @ ''.jsonl.gz'' = ((q' @ p) @ CHR ''-'' # pad0 6 s') @ ''.jsonl.gz''"
    using assms(1) by (simp only: name append.assoc append_Cons)
  then have "(q @ p) @ CHR ''-'' # pad0 6 s = (q' @ p) @ CHR ''-'' # pad0 6 s'" by (simp only: append_same_eq)
  then have "pad0 6 s = pad0 6 s'" by (rule cut_at_last [OF _ no [OF assms(2)] no [OF assms(3)]])
  then have "undigits (pad0 6 s) = undigits (pad0 6 s')" by simp
  then show ?thesis using assms(2,3) by (simp add: pad0_def itoa_def Let_def undigits_zeros)
qed

lemma cloud_names_by_sequence:
  assumes "oe_objectName env = newCloudObjectName pfx captureID agentPod" and "slash \<notin> set agentPod"
  shows "names_by_sequence env"
  unfolding names_by_sequence_def assms(1)
proof (intro allI impI)
  fix t t' :: time and s s' :: int
  assume h: "0 \<le> s \<and> 0 \<le> s' \<and> newCloudObjectName pfx captureID agentPod t s = newCloudObjectName pfx captureID agentPod t' s'"
  obtain q where q: "newCloudObjectName pfx captureID agentPod t s = q @ objectFileName agentPod s"
    using cloud_name_ends [OF assms(2)] h by metis
  obtain q' where q': "newCloudObjectName pfx captureID agentPod t' s' = q' @ objectFileName agentPod s'"
    using cloud_name_ends [OF assms(2)] h by metis
  show "s = s'" using file_name_sequence h unfolding q q' by blast
qed


section \<open>Properties\<close>

lemma run_closed_empty:
  assumes "ow_closed (fst st) \<longrightarrow> ow_buffer (fst st) = []" and "ow_closed (fst (fst (writer_run env ops st)))"
  shows "ow_buffer (fst (fst (writer_run env ops st))) = []"
  using assms
proof (induction ops arbitrary: st)
  case (Cons op ops)
  obtain w obj where st: "st = (w, obj)" by (cases st)
  obtain w' obj' acc where step: "writer_step env op st = ((w', obj'), acc)" by (metis prod.collapse)
  have "ow_closed w' \<longrightarrow> ow_buffer w' = []"
  proof (cases op)
    case (OpWrite req now)
    then show ?thesis using step Cons.prems(1) unfolding st
      by (auto simp: writer_step_def ObjectWriter_Write_def Let_def elim!: flush_cases split: sum.splits if_splits prod.splits)
  next
    case (OpFlush now)
    then show ?thesis using step Cons.prems(1) unfolding st
      by (auto simp: writer_step_def ObjectWriter_Flush_def elim!: flush_cases split: if_splits prod.splits)
  next
    case (OpClose now)
    then show ?thesis using step Cons.prems(1) unfolding st
      by (auto simp: writer_step_def ObjectWriter_Close_def elim!: flush_cases split: if_splits prod.splits option.splits)
  qed
  then show ?case using Cons.IH [of "(w', obj')"] Cons.prems(2) step by (cases "writer_run env ops (w', obj')") simp
qed simp

lemma chunk_name:
  assumes "stored_chunks env objs chunks tail acc (w, obj)" and "i < length chunks"
  shows "\<exists>t. fst (chunks ! i) = oe_objectName env t (int i + 1)"
  using assms unfolding stored_chunks_def by simp

lemma chunk_names_distinct:
  assumes "names_by_sequence env" and "stored_chunks env objs chunks tail acc (w, obj)"
  shows "distinct (map fst chunks)"
proof -
  have "i = j" if ij: "i < length chunks" "j < length chunks" "fst (chunks ! i) = fst (chunks ! j)" for i j
  proof -
    obtain t t' where "fst (chunks ! i) = oe_objectName env t (int i + 1)" "fst (chunks ! j) = oe_objectName env t' (int j + 1)"
      using chunk_name [OF assms(2) ij(1)] chunk_name [OF assms(2) ij(2)] by (elim exE) (rule that)
    then have "oe_objectName env t (int i + 1) = oe_objectName env t' (int j + 1)" using ij(3) by simp
    then have "int i + 1 = int j + 1"
      using assms(1) unfolding names_by_sequence_def by (metis add_nonneg_nonneg of_nat_0_le_iff zero_le_one)
    then show ?thesis by simp
  qed
  then show ?thesis by (auto simp: distinct_conv_nth)
qed

lemma run_chunks:
  assumes "upload_law env objs" and "oe_objectName env = newCloudObjectName pfx captureID agentPod" and "slash \<notin> set agentPod"
    and "length ops < 2 ^ 64" and "exact \<longrightarrow> upload_atomic env objs \<and> objs obj0 = (\<lambda>_. None)"
    and "writer_run env ops (newBufferedObjectWriter fi mb t0, obj0) = ((w, obj), acc)"
  obtains chunks tail where "stored_chunks env objs chunks tail acc (w, obj)" and "distinct (map fst chunks)"
    and "ow_closed w \<Longrightarrow> tail = []" and "exact \<Longrightarrow> dom (objs obj) = fst ` set chunks"
proof -
  have names: "names_by_sequence env" by (rule cloud_names_by_sequence [OF assms(2,3)])
  have "kept env objs exact 0 [] (newBufferedObjectWriter fi mb t0, obj0)" using assms(5) by (intro new_writer_kept) simp
  from run_kept [OF assms(1) names _ this, of ops] have "kept env objs exact (length ops) acc (w, obj)"
    using assms(4-6) by simp
  then obtain chunks tail where st: "stored_chunks env objs chunks tail acc (w, obj)" "exact \<longrightarrow> exact_store objs chunks obj"
    unfolding kept_def by auto
  have "ow_buffer w = []" if "ow_closed w"
    using run_closed_empty [of "(newBufferedObjectWriter fi mb t0, obj0)" env ops] assms(6) that by (simp add: newBufferedObjectWriter_def)
  then have "tail = []" if "ow_closed w" using that empty_buffer_empty_tail [OF st(1)] by simp
  then show thesis using that [OF st(1) chunk_names_distinct [OF names st(1)]] st(2) by (simp add: exact_store_def)
qed

text \<open>
  C14. A capture writer loses nothing it accepted: after any sequence of writes, flushes and closes,
  whatever uploads failed in between, the accepted requests are, in order, the contents of the
  uploaded objects, which have distinct names and are all still in the store, followed by the lines
  in the buffer; once the writer is closed the buffer is empty.
\<close>

theorem writer_no_loss:
  assumes "upload_law env objs" and "oe_objectName env = newCloudObjectName pfx captureID agentPod" and "slash \<notin> set agentPod"
    and "length ops < 2 ^ 64"
    and "writer_run env ops (newBufferedObjectWriter fi mb t0, obj0) = ((w, obj), acc)"
  shows "\<exists>chunks tail. acc = concat (map snd chunks) @ tail \<and> ow_buffer w = concat (map (line_of env) tail) \<and>
    distinct (map fst chunks) \<and>
    (\<forall>(name, reqs)\<in>set chunks. objs obj name = Some (oe_gzip env (concat (map (line_of env) reqs)))) \<and>
    (ow_closed w \<longrightarrow> tail = [])"
proof -
  obtain chunks tail where "stored_chunks env objs chunks tail acc (w, obj)" "distinct (map fst chunks)" "ow_closed w \<Longrightarrow> tail = []"
    by (rule run_chunks [OF assms(1-4) _ assms(5), of False]) auto
  then show ?thesis
    by (intro exI [of _ chunks] exI [of _ tail]) (auto simp: stored_chunks_def in_set_conv_nth split_beta, (metis fst_conv snd_conv)+)
qed





end
