(* ===== verification/Storage_Witnesses.thy ===== *)
theory Storage_Witnesses
  imports Storage_Reading
begin

text \<open>
  The storage laws have a model: a store as an association list whose first upload fails, a JSON
  stand-in that writes the ID of a request between braces, and no compression. A writer on it and
  a reader of what it stored witness the properties of capture data.
\<close>

definition st_request :: "string \<Rightarrow> CapturedRequest" where
  "st_request rid = \<lparr>cr_ID = rid, cr_Timestamp = 0, cr_Method = ''GET'', cr_Path = ''/'', cr_Headers = [], cr_Body = [],
    cr_ContentLength = 0, cr_Protocol = ''HTTP/1.1'', cr_Metadata = []\<rparr>"

definition st_marshal :: "CapturedRequest \<Rightarrow> string option" where
  "st_marshal r = Some (''{'' @ filter (\<lambda>c. c \<noteq> newline) (cr_ID r) @ ''}'')"

definition st_jsonable :: "CapturedRequest \<Rightarrow> bool" where
  "st_jsonable r \<longleftrightarrow> r = st_request (cr_ID r) \<and> newline \<notin> set (cr_ID r)"

definition st_upload :: "(string \<times> string) list \<times> nat \<Rightarrow> string \<Rightarrow> string \<Rightarrow> ((string \<times> string) list \<times> nat) \<times> go_error option" where
  "st_upload st name payload =
    (if snd st = 0 then ((fst st, 1), Some (OtherError ''503'')) else (((name, payload) # fst st, snd st + 1), None))"

definition st_env :: "((string \<times> string) list \<times> nat) object_env" where
  "st_env = \<lparr>oe_marshal = st_marshal, oe_gzip = (\<lambda>s. s), oe_objectName = newCloudObjectName ''p'' ''ns/web'' ''agent'', oe_upload = st_upload\<rparr>"

definition st_objects :: "(string \<times> string) list \<times> nat \<Rightarrow> string \<Rightarrow> string option" where
  "st_objects st = map_of (fst st)"

definition st_reader :: "(string \<times> string) list \<times> nat \<Rightarrow> reader_env" where
  "st_reader st = \<lparr>re_unmarshal = (\<lambda>line. Some (st_request (butlast (tl line)))),
    re_openObject = (\<lambda>key. case st_objects st key of None \<Rightarrow> Inl (OtherError ''NoSuchKey'') | Some p \<Rightarrow> Inr (p, None))\<rparr>"

definition st_ops :: "writer_op list" where
  "st_ops = [OpWrite (st_request ''a'') 0, OpFlush 1, OpWrite (st_request ''b'') 2, OpFlush 3, OpWrite (st_request ''c'') 4, OpClose 5]"

definition st_final :: "(bufferedObjectWriter \<times> (string \<times> string) list \<times> nat) \<times> CapturedRequest list" where
  "st_final =
    ((\<lparr>ow_flushInterval = 5 * second, ow_maxBufferBytes = 10 * 1024 * 1024, ow_sequence = 2, ow_buffer = [], ow_closed = True, ow_lastFlush = 5\<rparr>,
      [(''p/ns/web/0001-01-01/agent-000002.jsonl.gz'', ''{c}'' @ [newline]),
       (''p/ns/web/0001-01-01/agent-000001.jsonl.gz'', ''{a}'' @ [newline] @ ''{b}'' @ [newline])], 3),
     [st_request ''a'', st_request ''b'', st_request ''c''])"


lemma st_laws:
  shows "upload_law st_env st_objects" and "upload_atomic st_env st_objects" and "codec_law st_env (st_reader st) st_jsonable"
    and "opens_stored st_env (st_reader st) st_objects st"
proof -
  show "upload_law st_env st_objects" "upload_atomic st_env st_objects"
    by (auto simp: upload_law_def upload_atomic_def st_env_def st_upload_def st_objects_def split: if_splits)
  have "filter (\<lambda>c. c \<noteq> newline) s = s" if "newline \<notin> set s" for s
    using that by (intro filter_True) auto
  then show "codec_law st_env (st_reader st) st_jsonable"
    by (auto simp: codec_law_def st_env_def st_marshal_def st_reader_def st_jsonable_def newline_def)
  show "opens_stored st_env (st_reader st) st_objects st"
    by (simp add: opens_stored_def st_env_def st_reader_def)
qed

lemma st_run: "writer_run st_env st_ops (newBufferedObjectWriter 0 0 0, ([], 0)) = st_final"
  by code_simp

lemma st_run_parts:
  "writer_run st_env st_ops (newBufferedObjectWriter 0 0 0, ([], 0)) = ((fst (fst st_final), snd (fst st_final)), snd st_final)"
  "oe_objectName st_env = newCloudObjectName ''p'' ''ns/web'' ''agent''" "slash \<notin> set ''agent''" "length st_ops < 2 ^ 64"
  by (simp add: st_run, simp add: st_env_def, code_simp, simp add: st_ops_def)

theorem writer_no_loss_witness:
  "\<exists>chunks tail. snd st_final = concat (map snd chunks) @ tail \<and> ow_buffer (fst (fst st_final)) = concat (map (line_of st_env) tail) \<and>
    distinct (map fst chunks) \<and>
    (\<forall>(name, reqs)\<in>set chunks. st_objects (snd (fst st_final)) name = Some (oe_gzip st_env (concat (map (line_of st_env) reqs)))) \<and>
    (ow_closed (fst (fst st_final)) \<longrightarrow> tail = [])"
  by (rule writer_no_loss [OF st_laws(1) st_run_parts(2,3,4,1)])


end
