(* ===== verification/Capture_Agent.thy ===== *)
theory Capture_Agent
  imports Object_Storage
begin

text \<open>
  The capture agent up to its writer: request filters (\<^verbatim>\<open>internal/agent/filter.go\<close>), redaction of
  credential headers (\<^verbatim>\<open>redact.go\<close>), the capture handler (\<^verbatim>\<open>handler.go\<close>) and the HTTP and gRPC sinks
  (\<^verbatim>\<open>server.go\<close>). A storage writer is a record of operations on its own state; the request ID, the
  clock and the sampling value of one call are arguments.
\<close>

record 'w storage_writer =
  sw_Write :: "CapturedRequest \<Rightarrow> 'w \<Rightarrow> 'w \<times> write_error option"
  sw_Flush :: "'w \<Rightarrow> 'w \<times> write_error option"
  sw_Close :: "'w \<Rightarrow> 'w \<times> write_error option"

section \<open>Filters\<close>

record CapturedHTTPRequest =
  hq_Method :: string
  hq_Path :: string
  hq_Headers :: "(string, string list) gomap"
  hq_Body :: "string \<times> go_error option"
  hq_Protocol :: string
  hq_Metadata :: "(string, string) gomap"

record HeaderFilter =
  hf_Name :: string
  hf_Value :: string

record RequestFilter =
  rf_pathPrefix :: string
  rf_headers :: "HeaderFilter list"
  rf_percentage :: int

definition NewRequestFilter :: "string \<Rightarrow> HeaderFilter list \<Rightarrow> int \<Rightarrow> RequestFilter" where
  "NewRequestFilter pathPrefix headers cfgPercentage =
    (let p1 = (if cfgPercentage > 100 then 100 else cfgPercentage);
         p2 = (if p1 < 0 then 0 else p1)
     in \<lparr>rf_pathPrefix = pathPrefix, rf_headers = headers, rf_percentage = p2\<rparr>)"

definition headerMatches :: "(string, string list) gomap \<Rightarrow> HeaderFilter \<Rightarrow> bool" where
  "headerMatches headers hf =
    list_ex (\<lambda>(name, values). equal_fold name (hf_Name hf) \<and> list_ex (\<lambda>v. v = hf_Value hf) values) headers"

definition Filter_Matches :: "RequestFilter option \<Rightarrow> int \<Rightarrow> CapturedHTTPRequest \<Rightarrow> bool" where
  "Filter_Matches flt sample req =
    (case flt of
       None \<Rightarrow> True
     | Some f \<Rightarrow>
         if rf_pathPrefix f \<noteq> [] \<and> \<not> prefix (rf_pathPrefix f) (hq_Path req) then False
         else if list_ex (\<lambda>hf. \<not> headerMatches (hq_Headers req) hf) (rf_headers f) then False
         else if 100 \<le> rf_percentage f then True
         else if rf_percentage f \<le> 0 then False
         else sample < rf_percentage f)"

text \<open>Decoding the JSON array of filters is a parameter; the checks on it are the code's.\<close>

datatype filter_error = FilterSyntax | FilterNameRequired nat

fun check_filters :: "nat \<Rightarrow> HeaderFilter list \<Rightarrow> filter_error option" where
  "check_filters i [] = None"
| "check_filters i (f # fs) = (if trim_space (hf_Name f) = [] then Some (FilterNameRequired i) else check_filters (i + 1) fs)"

definition ParseHeaderFilters :: "(string \<Rightarrow> HeaderFilter list option) \<Rightarrow> string \<Rightarrow> filter_error + HeaderFilter list" where
  "ParseHeaderFilters unmarshal raw =
    (let raw' = trim_space raw
     in if raw' = [] then Inr []
        else case unmarshal raw' of
          None \<Rightarrow> Inl FilterSyntax
        | Some filters \<Rightarrow> (case check_filters 0 filters of Some err \<Rightarrow> Inl err | None \<Rightarrow> Inr filters))"

section \<open>Redaction\<close>

definition RedactedValue :: string where
  "RedactedValue = ''[REDACTED]''"

definition DefaultRedactHeaders :: "string list" where
  "DefaultRedactHeaders = [''Authorization'', ''Proxy-Authorization'', ''Cookie'', ''Set-Cookie'', ''X-Api-Key'', ''X-Auth-Token'']"

text \<open>\<^verbatim>\<open>http.CanonicalHeaderKey\<close>: a name with a byte that is not a token byte is left as it is.\<close>

definition upper_char :: "char \<Rightarrow> char" where
  "upper_char c = (let n = (of_char c :: nat) in if 97 \<le> n \<and> n \<le> 122 then char_of (n - 32) else c)"

definition is_token_char :: "char \<Rightarrow> bool" where
  "is_token_char c \<longleftrightarrow> (let n = (of_char c :: nat) in
     48 \<le> n \<and> n \<le> 57 \<or> 65 \<le> n \<and> n \<le> 90 \<or> 97 \<le> n \<and> n \<le> 122 \<or> n \<in> {33, 35, 36, 37, 38, 39, 42, 43, 45, 46, 94, 95, 96, 124, 126})"

fun canonical_chars :: "bool \<Rightarrow> string \<Rightarrow> string" where
  "canonical_chars upper [] = []"
| "canonical_chars upper (c # cs) = (if upper then upper_char c else lower_char c) # canonical_chars (c = CHR ''-'') cs"

definition CanonicalHeaderKey :: "string \<Rightarrow> string" where
  "CanonicalHeaderKey s = (if list_all is_token_char s then canonical_chars True s else s)"

definition NewHeaderRedactor :: "string list \<Rightarrow> string list" where
  "NewHeaderRedactor names =
    foldl (\<lambda>nameset name. let n = trim_space name in if n = [] then nameset else List.insert (CanonicalHeaderKey n) nameset) [] names"

fun redact_loop :: "string list \<Rightarrow> (string, string list) gomap \<Rightarrow> (string, string list) gomap \<times> int" where
  "redact_loop names [] = ([], 0)"
| "redact_loop names ((name, values) # hs) =
    (case redact_loop names hs of (hs', redacted) \<Rightarrow>
       if CanonicalHeaderKey name \<notin> set names then ((name, values) # hs', redacted)
       else ((name, map (\<lambda>_. RedactedValue) values) # hs', redacted + 1))"

definition Redact :: "string list option \<Rightarrow> (string, string list) gomap \<Rightarrow> (string, string list) gomap \<times> int" where
  "Redact redactor headers =
    (case redactor of
       None \<Rightarrow> (headers, 0)
     | Some names \<Rightarrow> if names = [] \<or> headers = [] then (headers, 0) else redact_loop names headers)"

section \<open>The handler\<close>

record CaptureHandler =
  ch_maxBodyBytes :: int
  ch_filter :: "RequestFilter option"
  ch_redactor :: "string list"
  ch_requestsTotal :: int
  ch_requestsFiltered :: int
  ch_requestsDropped :: int
  ch_bytesReceived :: int

definition NewCaptureHandler :: "int \<Rightarrow> RequestFilter option \<Rightarrow> string list option \<Rightarrow> CaptureHandler" where
  "NewCaptureHandler maxBodyBytes flt redactHeaders =
    \<lparr>ch_maxBodyBytes = (if maxBodyBytes \<le> 0 then 2 ^ 20 else maxBodyBytes), ch_filter = flt,
     ch_redactor = NewHeaderRedactor (case redactHeaders of None \<Rightarrow> DefaultRedactHeaders | Some hs \<Rightarrow> hs),
     ch_requestsTotal = 0, ch_requestsFiltered = 0, ch_requestsDropped = 0, ch_bytesReceived = 0\<rparr>"

text \<open>
  \<^verbatim>\<open>io.ReadAll(io.LimitReader(body, n))\<close> on a body that yields its bytes and then ends or fails: the
  reader stops after n bytes and does not see what comes later.
\<close>

definition read_limited :: "string \<times> go_error option \<Rightarrow> int \<Rightarrow> go_error + string" where
  "read_limited body n =
    (case body of (bytes, err) \<Rightarrow>
       if n \<le> int (length bytes) then Inr (take (nat n) bytes)
       else case err of Some e \<Rightarrow> Inl e | None \<Rightarrow> Inr bytes)"

datatype handle_error = BodyReadFailed go_error | WriteFailed write_error

definition CaptureHandler_Handle ::
  "'w storage_writer \<Rightarrow> string \<Rightarrow> time \<Rightarrow> int \<Rightarrow> CapturedHTTPRequest \<Rightarrow> CaptureHandler \<Rightarrow> 'w \<Rightarrow>
    CaptureHandler \<times> 'w \<times> handle_error option" where
  "CaptureHandler_Handle writer uuid now sample req h w =
    (let h1 = h\<lparr>ch_requestsTotal := i64 (ch_requestsTotal h + 1)\<rparr>
     in if \<not> Filter_Matches (ch_filter h1) sample req
        then (h1\<lparr>ch_requestsFiltered := i64 (ch_requestsFiltered h1 + 1)\<rparr>, w, None)
        else case read_limited (hq_Body req) (i64 (ch_maxBodyBytes h1 + 1)) of
          Inl err \<Rightarrow> (h1\<lparr>ch_requestsDropped := i64 (ch_requestsDropped h1 + 1)\<rparr>, w, Some (BodyReadFailed err))
        | Inr bytes \<Rightarrow>
            let truncated = int (length bytes) > ch_maxBodyBytes h1;
                body = (if truncated then take (nat (ch_maxBodyBytes h1)) bytes else bytes);
                h2 = h1\<lparr>ch_bytesReceived := i64 (ch_bytesReceived h1 + int (length body))\<rparr>;
                headers = fst (Redact (Some (ch_redactor h2)) (hq_Headers req));
                captured = \<lparr>cr_ID = uuid, cr_Timestamp = now, cr_Method = hq_Method req, cr_Path = hq_Path req,
                  cr_Headers = headers, cr_Body = body, cr_ContentLength = int (length body), cr_Protocol = hq_Protocol req,
                  cr_Metadata = hq_Metadata req\<rparr>;
                captured' = (if truncated then captured\<lparr>cr_Metadata := gm_put ''bodyTruncated'' ''true'' (cr_Metadata captured)\<rparr> else captured)
            in case sw_Write writer captured' w of
                 (w', Some err) \<Rightarrow> (h2\<lparr>ch_requestsDropped := i64 (ch_requestsDropped h2 + 1)\<rparr>, w', Some (WriteFailed err))
               | (w', None) \<Rightarrow> (h2, w', None))"

definition Handler_Metrics :: "CaptureHandler \<Rightarrow> int \<times> int \<times> int \<times> int" where
  "Handler_Metrics h = (ch_requestsTotal h, ch_requestsFiltered h, ch_requestsDropped h, ch_bytesReceived h)"

section \<open>The sinks\<close>

record http_request =
  hr_Method :: string
  hr_URLPath :: string
  hr_RawQuery :: string
  hr_Header :: "(string, string list) gomap"
  hr_Body :: "string \<times> go_error option"
  hr_Host :: string
  hr_RemoteAddr :: string

definition handleHTTP ::
  "'w storage_writer \<Rightarrow> string \<Rightarrow> time \<Rightarrow> int \<Rightarrow> http_request \<Rightarrow> CaptureHandler \<Rightarrow> 'w \<Rightarrow> CaptureHandler \<times> 'w \<times> int" where
  "handleHTTP writer uuid now sample r h w =
    (let captured = \<lparr>hq_Method = hr_Method r, hq_Path = hr_URLPath r, hq_Headers = hr_Header r, hq_Body = hr_Body r,
           hq_Protocol = ''HTTP'',
           hq_Metadata = [(''host'', hr_Host r), (''remoteAddr'', hr_RemoteAddr r), (''query'', hr_RawQuery r)]\<rparr>
     in case CaptureHandler_Handle writer uuid now sample captured h w of
          (h', w', Some err) \<Rightarrow> (h', w', 500)
        | (h', w', None) \<Rightarrow> (h', w', 200))"

datatype grpc_status = RecvInternal go_error | CaptureInternal handle_error

definition handleGRPC ::
  "'w storage_writer \<Rightarrow> string \<Rightarrow> time \<Rightarrow> int \<Rightarrow> string \<Rightarrow> go_error + string \<Rightarrow> (string, string list) gomap \<Rightarrow>
    CaptureHandler \<Rightarrow> 'w \<Rightarrow> CaptureHandler \<times> 'w \<times> grpc_status option" where
  "handleGRPC writer uuid now sample fullMethod msg md h w =
    (let go_on = (\<lambda>bytes.
           let captured = \<lparr>hq_Method = ''POST'', hq_Path = fullMethod, hq_Headers = fold (\<lambda>(k, v). gm_put k v) md [],
                 hq_Body = (bytes, None), hq_Protocol = ''gRPC'', hq_Metadata = [(''grpcMethod'', fullMethod)]\<rparr>
           in case CaptureHandler_Handle writer uuid now sample captured h w of
                (h', w', Some err) \<Rightarrow> (h', w', Some (CaptureInternal err))
              | (h', w', None) \<Rightarrow> (h', w', None))
     in case msg of
          Inr bytes \<Rightarrow> go_on bytes
        | Inl err \<Rightarrow> if err = EOF then go_on [] else (h, w, Some (RecvInternal err)))"

end
