(* ===== verification/Agent_Writers.thy ===== *)
theory Agent_Writers
  imports Capture_Agent Transition_Systems
begin

text \<open>
  The writers between the capture handler and storage: the asynchronous writer with its bounded
  queue and drain goroutine (\<^verbatim>\<open>internal/agent/asyncwriter.go\<close>), the batching writer
  (\<^verbatim>\<open>internal/agent/writer.go\<close>) and the plugin pipeline (\<^verbatim>\<open>internal/plugin/payload/plugin.go\<close>). The
  asynchronous writer is a transition system: a call of Write is the check of the closed flag and
  the send, the drain goroutine takes a request and stores it, Close closes the queue and, once the
  goroutine is done, the inner writer.
\<close>

section \<open>The asynchronous writer\<close>

record 'w AsyncWriter =
  aw_inner :: 'w
  aw_queue :: "CapturedRequest list"
  aw_cap :: nat
  aw_sending :: "CapturedRequest list"
  aw_inflight :: "CapturedRequest option"
  aw_closed :: bool
  aw_drained :: bool
  aw_innerClosed :: bool
  aw_panicked :: bool
  aw_enqueued :: int
  aw_dropped :: int
  aw_writeErrors :: int

definition DefaultWriteQueueSize :: int where
  "DefaultWriteQueueSize = 4096"

definition NewAsyncWriter :: "'w \<Rightarrow> int \<Rightarrow> 'w AsyncWriter" where
  "NewAsyncWriter inner queueSize =
    (let size = (if queueSize \<le> 0 then DefaultWriteQueueSize else queueSize)
     in \<lparr>aw_inner = inner, aw_queue = [], aw_cap = nat size, aw_sending = [], aw_inflight = None, aw_closed = False,
         aw_drained = False, aw_innerClosed = False, aw_panicked = False, aw_enqueued = 0, aw_dropped = 0, aw_writeErrors = 0\<rparr>)"

text \<open>The check of the closed flag at the start of Write.\<close>

definition async_check :: "CapturedRequest \<Rightarrow> 'w AsyncWriter \<Rightarrow> 'w AsyncWriter \<times> write_error option" where
  "async_check req w = (if aw_closed w then (w, Some ErrWriterClosed) else (w\<lparr>aw_sending := aw_sending w @ [req]\<rparr>, None))"

text \<open>The select: a send on a closed channel panics, a full channel takes the default branch.\<close>

definition async_send :: "CapturedRequest \<Rightarrow> 'w AsyncWriter \<Rightarrow> 'w AsyncWriter \<times> write_error option" where
  "async_send req w =
    (let w1 = w\<lparr>aw_sending := remove1 req (aw_sending w)\<rparr>
     in if aw_closed w1 then (w1\<lparr>aw_panicked := True\<rparr>, None)
        else if length (aw_queue w1) < aw_cap w1
        then (w1\<lparr>aw_queue := aw_queue w1 @ [req], aw_enqueued := i64 (aw_enqueued w1 + 1)\<rparr>, None)
        else (w1\<lparr>aw_dropped := i64 (aw_dropped w1 + 1)\<rparr>, Some ErrWriteQueueFull))"

definition drain_take :: "'w AsyncWriter \<Rightarrow> 'w AsyncWriter option" where
  "drain_take w =
    (case aw_queue w of
       req # reqs \<Rightarrow> if aw_inflight w = None \<and> \<not> aw_drained w then Some (w\<lparr>aw_queue := reqs, aw_inflight := Some req\<rparr>) else None
     | [] \<Rightarrow> None)"

definition drain_store :: "'w storage_writer \<Rightarrow> 'w AsyncWriter \<Rightarrow> 'w AsyncWriter option" where
  "drain_store writer w =
    (case aw_inflight w of
       None \<Rightarrow> None
     | Some req \<Rightarrow>
         (case sw_Write writer req (aw_inner w) of
            (inner, Some err) \<Rightarrow> Some (w\<lparr>aw_inner := inner, aw_inflight := None, aw_writeErrors := i64 (aw_writeErrors w + 1)\<rparr>)
          | (inner, None) \<Rightarrow> Some (w\<lparr>aw_inner := inner, aw_inflight := None\<rparr>)))"

definition drain_exit :: "'w AsyncWriter \<Rightarrow> 'w AsyncWriter option" where
  "drain_exit w =
    (if aw_closed w \<and> aw_queue w = [] \<and> aw_inflight w = None \<and> \<not> aw_drained w then Some (w\<lparr>aw_drained := True\<rparr>) else None)"

text \<open>Flush returns only once it has seen the queue empty; it does not look at the request in flight.\<close>

definition async_flush :: "'w storage_writer \<Rightarrow> 'w AsyncWriter \<Rightarrow> ('w AsyncWriter \<times> write_error option) option" where
  "async_flush writer w =
    (if aw_queue w = [] then (case sw_Flush writer (aw_inner w) of (inner, err) \<Rightarrow> Some (w\<lparr>aw_inner := inner\<rparr>, err)) else None)"

definition async_close_begin :: "'w AsyncWriter \<Rightarrow> 'w AsyncWriter" where
  "async_close_begin w = w\<lparr>aw_closed := True\<rparr>"

definition async_close_end :: "'w storage_writer \<Rightarrow> 'w AsyncWriter \<Rightarrow> ('w AsyncWriter \<times> write_error option) option" where
  "async_close_end writer w =
    (if aw_drained w \<and> \<not> aw_innerClosed w
     then (case sw_Close writer (aw_inner w) of (inner, err) \<Rightarrow> Some (w\<lparr>aw_inner := inner, aw_innerClosed := True\<rparr>, err))
     else None)"

definition QueueDepth :: "'w AsyncWriter \<Rightarrow> int" where
  "QueueDepth w = int (length (aw_queue w))"

definition QueueCapacity :: "'w AsyncWriter \<Rightarrow> int" where
  "QueueCapacity w = int (aw_cap w)"

datatype async_event = AE_Check CapturedRequest | AE_Send CapturedRequest | AE_Take | AE_Store | AE_Exit | AE_Flush | AE_CloseBegin | AE_CloseEnd

definition async_step :: "'w storage_writer \<Rightarrow> async_event \<Rightarrow> 'w AsyncWriter \<Rightarrow> 'w AsyncWriter option" where
  "async_step writer ev w =
    (case ev of
       AE_Check req \<Rightarrow> Some (fst (async_check req w))
     | AE_Send req \<Rightarrow> if req \<in> set (aw_sending w) then Some (fst (async_send req w)) else None
     | AE_Take \<Rightarrow> drain_take w
     | AE_Store \<Rightarrow> drain_store writer w
     | AE_Exit \<Rightarrow> drain_exit w
     | AE_Flush \<Rightarrow> map_option fst (async_flush writer w)
     | AE_CloseBegin \<Rightarrow> Some (async_close_begin w)
     | AE_CloseEnd \<Rightarrow> map_option fst (async_close_end writer w))"

section \<open>The batching writer\<close>

record 'w BufferedWriter =
  bw_writer :: 'w
  bw_batchSize :: int
  bw_flushInterval :: duration
  bw_pending :: int
  bw_closed :: bool

definition NewBufferedWriter :: "'w \<Rightarrow> int \<Rightarrow> duration \<Rightarrow> 'w BufferedWriter" where
  "NewBufferedWriter writer batchSize flushInterval =
    \<lparr>bw_writer = writer, bw_batchSize = (if batchSize \<le> 0 then 100 else batchSize),
     bw_flushInterval = (if flushInterval \<le> 0 then 5 * second else flushInterval), bw_pending = 0, bw_closed = False\<rparr>"

definition BufferedWriter_Flush :: "'w storage_writer \<Rightarrow> 'w BufferedWriter \<Rightarrow> 'w BufferedWriter \<times> write_error option" where
  "BufferedWriter_Flush writer bw =
    (case sw_Flush writer (bw_writer bw) of (inner, err) \<Rightarrow> (bw\<lparr>bw_pending := 0, bw_writer := inner\<rparr>, err))"

definition BufferedWriter_Write ::
  "'w storage_writer \<Rightarrow> CapturedRequest \<Rightarrow> 'w BufferedWriter \<Rightarrow> 'w BufferedWriter \<times> write_error option" where
  "BufferedWriter_Write writer req bw =
    (if bw_closed bw then (bw, Some ErrWriterClosed)
     else case sw_Write writer req (bw_writer bw) of
       (inner, Some err) \<Rightarrow> (bw\<lparr>bw_writer := inner\<rparr>, Some err)
     | (inner, None) \<Rightarrow>
         let bw1 = bw\<lparr>bw_writer := inner, bw_pending := bw_pending bw + 1\<rparr>
         in if bw_batchSize bw1 \<le> bw_pending bw1 then BufferedWriter_Flush writer bw1 else (bw1, None))"

definition BufferedWriter_Close :: "'w storage_writer \<Rightarrow> 'w BufferedWriter \<Rightarrow> 'w BufferedWriter \<times> write_error option" where
  "BufferedWriter_Close writer bw =
    (case sw_Flush writer (bw_writer bw) of (inner, err) \<Rightarrow>
       (case sw_Close writer inner of (inner', err') \<Rightarrow> (bw\<lparr>bw_closed := True, bw_writer := inner'\<rparr>, err')))"

text \<open>One tick of the flush loop; the error of a periodic flush is only logged.\<close>

definition flushLoop_tick :: "'w storage_writer \<Rightarrow> 'w BufferedWriter \<Rightarrow> 'w BufferedWriter" where
  "flushLoop_tick writer bw = (if 0 < bw_pending bw then fst (BufferedWriter_Flush writer bw) else bw)"

section \<open>The plugin pipeline\<close>

record 'p payload_plugin =
  pp_Name :: string
  pp_Process :: "CapturedRequest \<Rightarrow> 'p \<Rightarrow> 'p \<times> (go_error + CapturedRequest option)"
  pp_Close :: "'p \<Rightarrow> 'p \<times> go_error option"

datatype ErrorHandler = ErrorHandlerDrop | ErrorHandlerSkip | ErrorHandlerAbort

record ('p, 'w) Pipeline =
  pl_downstream :: 'w
  pl_plugins :: "'p payload_plugin list"
  pl_onError :: ErrorHandler
  pl_world :: 'p
  pl_closed :: bool

definition NewPipeline :: "'w option \<Rightarrow> 'p payload_plugin list \<Rightarrow> ErrorHandler \<Rightarrow> 'p \<Rightarrow> ('p, 'w) Pipeline option" where
  "NewPipeline downstream plugins onError world =
    map_option (\<lambda>w. \<lparr>pl_downstream = w, pl_plugins = plugins, pl_onError = onError, pl_world = world, pl_closed = False\<rparr>) downstream"

datatype plugin_outcome = Forward CapturedRequest | Dropped | Aborted go_error

fun run_plugins :: "ErrorHandler \<Rightarrow> 'p payload_plugin list \<Rightarrow> CapturedRequest \<Rightarrow> 'p \<Rightarrow> 'p \<times> plugin_outcome" where
  "run_plugins onError [] current world = (world, Forward current)"
| "run_plugins onError (pl # pls) current world =
    (case pp_Process pl current world of
       (world', Inl err) \<Rightarrow>
         (case onError of
            ErrorHandlerAbort \<Rightarrow> (world', Aborted err)
          | ErrorHandlerSkip \<Rightarrow> run_plugins onError pls current world'
          | ErrorHandlerDrop \<Rightarrow> (world', Dropped))
     | (world', Inr None) \<Rightarrow> (world', Dropped)
     | (world', Inr (Some result)) \<Rightarrow> run_plugins onError pls result world')"

definition Pipeline_Write ::
  "'w storage_writer \<Rightarrow> CapturedRequest \<Rightarrow> ('p, 'w) Pipeline \<Rightarrow> ('p, 'w) Pipeline \<times> write_error option" where
  "Pipeline_Write writer req p =
    (if pl_closed p then (p, Some ErrWriterClosed)
     else case run_plugins (pl_onError p) (pl_plugins p) req (pl_world p) of
       (world, Aborted err) \<Rightarrow> (p\<lparr>pl_world := world\<rparr>, Some (PluginFailed err))
     | (world, Dropped) \<Rightarrow> (p\<lparr>pl_world := world\<rparr>, None)
     | (world, Forward r) \<Rightarrow>
         (case sw_Write writer r (pl_downstream p) of (w', err) \<Rightarrow> (p\<lparr>pl_world := world, pl_downstream := w'\<rparr>, err)))"

definition Pipeline_Flush :: "'w storage_writer \<Rightarrow> ('p, 'w) Pipeline \<Rightarrow> ('p, 'w) Pipeline \<times> write_error option" where
  "Pipeline_Flush writer p =
    (if pl_closed p then (p, Some ErrWriterClosed)
     else case sw_Flush writer (pl_downstream p) of (w', err) \<Rightarrow> (p\<lparr>pl_downstream := w'\<rparr>, err))"

fun close_plugins :: "'p payload_plugin list \<Rightarrow> 'p \<Rightarrow> 'p \<times> write_error list" where
  "close_plugins [] world = (world, [])"
| "close_plugins (pl # pls) world =
    (case pp_Close pl world of (world', err) \<Rightarrow>
       (case close_plugins pls world' of (world'', errs) \<Rightarrow>
          (world'', (case err of None \<Rightarrow> [] | Some e \<Rightarrow> [PluginFailed e]) @ errs)))"

definition Pipeline_Close :: "'w storage_writer \<Rightarrow> ('p, 'w) Pipeline \<Rightarrow> ('p, 'w) Pipeline \<times> write_error list" where
  "Pipeline_Close writer p =
    (if pl_closed p then (p, [])
     else case close_plugins (rev (pl_plugins p)) (pl_world p) of (world, errs) \<Rightarrow>
       (case sw_Close writer (pl_downstream p) of (w', err) \<Rightarrow>
          (p\<lparr>pl_closed := True, pl_world := world, pl_downstream := w'\<rparr>, errs @ (case err of None \<Rightarrow> [] | Some e \<Rightarrow> [e]))))"

text \<open>The pipeline is itself a storage writer.\<close>

definition pipeline_writer :: "'w storage_writer \<Rightarrow> ('p, 'w) Pipeline storage_writer" where
  "pipeline_writer writer = \<lparr>sw_Write = Pipeline_Write writer, sw_Flush = Pipeline_Flush writer,
    sw_Close = (\<lambda>p. case Pipeline_Close writer p of (p', errs) \<Rightarrow> (p', if errs = [] then None else Some (hd errs)))\<rparr>"

end
