(* ===== verification/Capture_Agent_Props.thy ===== *)
theory Capture_Agent_Props
  imports Capture_Agent
begin

text \<open>
  What the capture agent hands to storage: credential headers are redacted whatever the case of
  their names, the other headers and the order of headers are kept, bodies are bounded, and every
  request is counted once.
\<close>

section \<open>Canonical header names\<close>

lemma lower_char_dash [simp]: "lower_char c = CHR ''-'' \<longleftrightarrow> c = CHR ''-''"
proof -
  have "(of_char (lower_char c) :: nat) = of_char (CHR ''-'') \<longleftrightarrow> (of_char c :: nat) = of_char (CHR ''-'')"
    by (auto simp: of_char_lower_char)
  then show ?thesis by (simp only: of_char_eq_iff)
qed

lemma upper_lower_char [simp]: "upper_char (lower_char c) = upper_char c"
  by (auto simp: upper_char_def of_char_lower_char Let_def lower_char_def)

lemma is_token_lower [simp]: "is_token_char (lower_char c) = is_token_char c"
  by (auto simp: is_token_char_def of_char_lower_char Let_def)

lemma canonical_chars_lower: "canonical_chars upper (to_lower s) = canonical_chars upper s"
  by (induction s arbitrary: upper) (simp_all add: to_lower_def)

text \<open>Header names that differ only in case have the same canonical form, if one is a token.\<close>

lemma CanonicalHeaderKey_fold:
  assumes "equal_fold a b" and "list_all is_token_char b"
  shows "CanonicalHeaderKey a = CanonicalHeaderKey b"
proof -
  have eq: "to_lower a = to_lower b" using assms(1) by (simp add: equal_fold_def)
  have tok: "list_all is_token_char (to_lower s) = list_all is_token_char s" for s
    by (simp add: to_lower_def list_all_iff)
  have "list_all is_token_char a" using assms(2) tok [of a] tok [of b] eq by simp
  moreover have "canonical_chars True a = canonical_chars True b"
    using canonical_chars_lower [of True a] canonical_chars_lower [of True b] eq by simp
  ultimately show ?thesis using assms(2) by (simp add: CanonicalHeaderKey_def)
qed

section \<open>Redaction\<close>

lemma redact_loop_eq:
  "fst (redact_loop names hs) =
    map (\<lambda>(name, values). (name, if CanonicalHeaderKey name \<in> set names then map (\<lambda>_. RedactedValue) values else values)) hs"
  by (induction names hs rule: redact_loop.induct) (auto split: prod.splits)

lemma Redact_eq:
  "fst (Redact (Some names) hs) =
    map (\<lambda>(name, values). (name, if CanonicalHeaderKey name \<in> set names then map (\<lambda>_. RedactedValue) values else values)) hs"
  by (cases "names = [] \<or> hs = []") (auto simp: Redact_def redact_loop_eq)

lemma set_NewHeaderRedactor:
  "set (NewHeaderRedactor names) = CanonicalHeaderKey ` (trim_space ` set names - {[]})"
proof -
  have "set (foldl (\<lambda>nameset name. let n = trim_space name in if n = [] then nameset else List.insert (CanonicalHeaderKey n) nameset) acc names) =
      set acc \<union> CanonicalHeaderKey ` (trim_space ` set names - {[]})" for acc
    by (induction names arbitrary: acc) (auto simp: Let_def)
  from this [of "[]"] show ?thesis by (simp add: NewHeaderRedactor_def)
qed

lemma default_headers_trimmed: "d \<in> set DefaultRedactHeaders \<Longrightarrow> trim_space d = d \<and> d \<noteq> [] \<and> list_all is_token_char d"
proof -
  have "list_all (\<lambda>d. trim_space d = d \<and> d \<noteq> [] \<and> list_all is_token_char d) DefaultRedactHeaders" by code_simp
  then show "d \<in> set DefaultRedactHeaders \<Longrightarrow> trim_space d = d \<and> d \<noteq> [] \<and> list_all is_token_char d"
    by (simp add: list_all_iff)
qed

definition redacted_headers :: "(string, string list) gomap \<Rightarrow> bool" where
  "redacted_headers headers \<longleftrightarrow> (\<forall>(name, values)\<in>set headers. \<forall>d\<in>set DefaultRedactHeaders. equal_fold name d \<longrightarrow> set values \<subseteq> {RedactedValue})"

lemma default_redaction: "redacted_headers (fst (Redact (Some (NewHeaderRedactor DefaultRedactHeaders)) headers))"
proof -
  have "CanonicalHeaderKey name \<in> set (NewHeaderRedactor DefaultRedactHeaders)"
    if "d \<in> set DefaultRedactHeaders" "equal_fold name d" for name d
    using CanonicalHeaderKey_fold [OF that(2)] default_headers_trimmed [OF that(1)] that(1) unfolding set_NewHeaderRedactor
    by (metis Diff_iff image_eqI singletonD)
  then show ?thesis unfolding redacted_headers_def Redact_eq by fastforce
qed

section \<open>The handler\<close>

text \<open>What becomes of the request that reaches the writer.\<close>

definition captured_from :: "CaptureHandler \<Rightarrow> string \<Rightarrow> time \<Rightarrow> CapturedHTTPRequest \<Rightarrow> CapturedRequest \<Rightarrow> bool" where
  "captured_from h uuid now req c \<longleftrightarrow>
    cr_ID c = uuid \<and> cr_Timestamp c = now \<and> cr_Method c = hq_Method req \<and> cr_Path c = hq_Path req \<and> cr_Protocol c = hq_Protocol req \<and>
    cr_Headers c = fst (Redact (Some (ch_redactor h)) (hq_Headers req)) \<and>
    cr_Body c = take (nat (ch_maxBodyBytes h)) (fst (hq_Body req)) \<and> cr_ContentLength c = int (length (cr_Body c)) \<and>
    cr_Metadata c = (if ch_maxBodyBytes h < int (length (fst (hq_Body req)))
      then gm_put ''bodyTruncated'' ''true'' (hq_Metadata req) else hq_Metadata req)"

lemma read_limited_body:
  assumes "read_limited body (i64 (n + 1)) = Inr bytes" and "0 < n" and "n < 2 ^ 63 - 1"
  shows "(n < int (length bytes) \<longleftrightarrow> n < int (length (fst body))) \<and>
    (if n < int (length bytes) then take (nat n) bytes else bytes) = take (nat n) (fst body)"
proof -
  have "i64 (n + 1) = n + 1" using assms(2,3) by (intro i64_id) (simp add: in_i64_def)
  then have "bytes = (if n + 1 \<le> int (length (fst body)) then take (nat (n + 1)) (fst body) else fst body)"
    using assms(1) by (auto simp: read_limited_def split: prod.splits if_splits option.splits)
  then show ?thesis using assms(2) by (auto simp: min_def nat_le_iff)
qed

lemma Handle_cases:
  assumes "CaptureHandler_Handle writer uuid now sample req h w = (h', w', res)" and "0 < ch_maxBodyBytes h" and "ch_maxBodyBytes h < 2 ^ 63 - 1"
  obtains (filtered) "\<not> Filter_Matches (ch_filter h) sample req" "w' = w" "res = None"
  | (unread) err where "Filter_Matches (ch_filter h) sample req" "w' = w" "res = Some (BodyReadFailed err)"
  | (written) c where "Filter_Matches (ch_filter h) sample req" "captured_from h uuid now req c"
      "sw_Write writer c w = (w', map_option (\<lambda>e. case e of WriteFailed err \<Rightarrow> err) res)" "\<forall>e. res \<noteq> Some (BodyReadFailed e)"
proof (cases "Filter_Matches (ch_filter h) sample req")
  case False
  then show ?thesis using assms(1) by (intro filtered) (auto simp: CaptureHandler_Handle_def)
next
  case match: True
  show ?thesis
  proof (cases "read_limited (hq_Body req) (i64 (ch_maxBodyBytes h + 1))")
    case (Inl err)
    then show ?thesis using assms(1) match by (intro unread) (auto simp: CaptureHandler_Handle_def)
  next
    case (Inr bytes)
    note body = read_limited_body [OF Inr assms(2,3)]
    define c where "c = (let truncated = int (length bytes) > ch_maxBodyBytes h;
        body = (if truncated then take (nat (ch_maxBodyBytes h)) bytes else bytes)
      in \<lparr>cr_ID = uuid, cr_Timestamp = now, cr_Method = hq_Method req, cr_Path = hq_Path req,
          cr_Headers = fst (Redact (Some (ch_redactor h)) (hq_Headers req)), cr_Body = body, cr_ContentLength = int (length body),
          cr_Protocol = hq_Protocol req,
          cr_Metadata = (if truncated then gm_put ''bodyTruncated'' ''true'' (hq_Metadata req) else hq_Metadata req)\<rparr>)"
    have "captured_from h uuid now req c" using body by (cases "ch_maxBodyBytes h < int (length bytes)") (auto simp: captured_from_def c_def Let_def)
    moreover obtain w1 e where wr: "sw_Write writer c w = (w1, e)" by force
    then have "w' = w1" "res = map_option WriteFailed e"
      using assms(1) match Inr by (auto simp: CaptureHandler_Handle_def c_def Let_def split: option.splits if_splits)
    ultimately show ?thesis using match wr by (intro written [of c]) (auto simp: option.map_comp comp_def option.map_ident)
  qed
qed

end
