(* ===== verification/Agent_Writers_Props.thy ===== *)
theory Agent_Writers_Props
  imports Agent_Writers Capture_Agent_Props
begin

text \<open>
  Properties of the agent's writers: the bounded queue hands every accepted request to storage in
  order, Close drains it, the batching writer never holds a full batch, and the credentials that
  the handler redacts stay out of everything behind it.
\<close>

section \<open>What reaches the inner writer\<close>

datatype inner_op = IWrite CapturedRequest | IFlush | IClose

definition inner_apply :: "'w storage_writer \<Rightarrow> inner_op \<Rightarrow> 'w \<Rightarrow> 'w" where
  "inner_apply writer op w = (case op of IWrite req \<Rightarrow> fst (sw_Write writer req w) | IFlush \<Rightarrow> fst (sw_Flush writer w) | IClose \<Rightarrow> fst (sw_Close writer w))"

fun writes_of :: "inner_op list \<Rightarrow> CapturedRequest list" where
  "writes_of [] = []"
| "writes_of (IWrite req # ops) = req # writes_of ops"
| "writes_of (_ # ops) = writes_of ops"

lemma writes_of_append [simp]: "writes_of (a @ b) = writes_of a @ writes_of b"
  by (induction a rule: writes_of.induct) auto

text \<open>The requests that a step puts into the queue, and runs that collect them.\<close>

definition async_accepts :: "async_event \<Rightarrow> 'w AsyncWriter \<Rightarrow> CapturedRequest list" where
  "async_accepts ev w =
    (case ev of AE_Send req \<Rightarrow> if \<not> aw_closed w \<and> length (aw_queue w) < aw_cap w then [req] else [] | _ \<Rightarrow> [])"

fun async_run :: "'w storage_writer \<Rightarrow> async_event list \<Rightarrow> 'w AsyncWriter \<Rightarrow> ('w AsyncWriter \<times> CapturedRequest list) option" where
  "async_run writer [] w = Some (w, [])"
| "async_run writer (ev # evs) w =
    (case async_step writer ev w of
       None \<Rightarrow> None
     | Some w1 \<Rightarrow> (case async_run writer evs w1 of None \<Rightarrow> None | Some (w2, acc) \<Rightarrow> Some (w2, async_accepts ev w @ acc)))"

definition inflight_list :: "'w AsyncWriter \<Rightarrow> CapturedRequest list" where
  "inflight_list w = (case aw_inflight w of None \<Rightarrow> [] | Some req \<Rightarrow> [req])"

definition drain_inv :: "'w AsyncWriter \<Rightarrow> bool" where
  "drain_inv w \<longleftrightarrow> length (aw_queue w) \<le> aw_cap w \<and> (aw_drained w \<longrightarrow> aw_closed w \<and> aw_queue w = [] \<and> aw_inflight w = None) \<and>
    (aw_innerClosed w \<longrightarrow> aw_drained w)"

definition closed_after_writes :: "inner_op list \<Rightarrow> bool" where
  "closed_after_writes ops \<longleftrightarrow> (\<exists>pre post. ops = pre @ IClose # post \<and> writes_of post = [])"

lemma closed_after_flush: "closed_after_writes ops \<Longrightarrow> closed_after_writes (ops @ [IFlush])"
  unfolding closed_after_writes_def by (metis append.assoc append_Cons append_Nil2 writes_of.simps(1,3) writes_of_append)

lemma closed_after_close: "closed_after_writes (ops @ [IClose])"
  unfolding closed_after_writes_def by (intro exI [of _ ops] exI [of _ "[]"]) simp

definition async_inv :: "'w storage_writer \<Rightarrow> 'w \<Rightarrow> CapturedRequest list \<Rightarrow> inner_op list \<Rightarrow> 'w AsyncWriter \<Rightarrow> bool" where
  "async_inv writer w0 acc ops w \<longleftrightarrow> drain_inv w \<and> aw_inner w = fold (inner_apply writer) ops w0 \<and>
    acc = writes_of ops @ inflight_list w @ aw_queue w \<and>
    (aw_innerClosed w \<longrightarrow> closed_after_writes ops)"

lemma drain_inv_step:
  assumes "drain_inv w" and "async_step writer ev w = Some w'"
  shows "drain_inv w'"
  using assms
  by (cases ev)
    (auto simp: drain_inv_def async_step_def async_check_def async_send_def drain_take_def drain_store_def drain_exit_def
      async_flush_def async_close_begin_def async_close_end_def Let_def split: if_splits list.splits option.splits prod.splits)

lemma closed_step_keeps_cap: "async_step writer ev w = Some w' \<Longrightarrow> aw_cap w' = aw_cap w"
  by (cases ev)
    (auto simp: async_step_def async_check_def async_send_def drain_take_def drain_store_def drain_exit_def
      async_flush_def async_close_begin_def async_close_end_def Let_def split: if_splits list.splits option.splits prod.splits)

lemma async_inv_step:
  assumes inv: "async_inv writer w0 acc ops w" and step: "async_step writer ev w = Some w'"
  shows "\<exists>ops'. async_inv writer w0 (acc @ async_accepts ev w) ops' w'"
proof -
  have d: "drain_inv w'" using drain_inv_step step inv by (auto simp: async_inv_def)
  have keep: "\<exists>ops'. async_inv writer w0 (acc @ async_accepts ev w) ops' w'"
    if "aw_inner w' = aw_inner w" "inflight_list w' @ aw_queue w' = inflight_list w @ aw_queue w @ async_accepts ev w" "aw_innerClosed w' = aw_innerClosed w"
    using inv that d by (intro exI [of _ ops]) (simp add: async_inv_def)
  have flush: "\<exists>ops'. async_inv writer w0 (acc @ async_accepts ev w) ops' w'"
    if "aw_inner w' = fst (sw_Flush writer (aw_inner w))" "async_accepts ev w = []" "inflight_list w' = inflight_list w" "aw_queue w' = aw_queue w"
      "aw_innerClosed w' = aw_innerClosed w"
    using inv that d by (intro exI [of _ "ops @ [IFlush]"]) (auto simp: async_inv_def inner_apply_def closed_after_flush)
  show ?thesis
  proof (cases ev)
    case (AE_Check req)
    then show ?thesis using step by (intro keep) (auto simp: async_step_def async_check_def async_accepts_def inflight_list_def split: if_splits)
  next
    case (AE_Send req)
    then show ?thesis using step
      by (intro keep) (auto simp: async_step_def async_send_def async_accepts_def inflight_list_def Let_def split: if_splits option.splits)
  next
    case AE_Take
    then show ?thesis using step
      by (intro keep) (auto simp: async_step_def drain_take_def async_accepts_def inflight_list_def split: if_splits list.splits option.splits)
  next
    case AE_Store
    then obtain req where req: "aw_inflight w = Some req" using step by (auto simp: async_step_def drain_store_def split: option.splits)
    then have "aw_inner w' = fst (sw_Write writer req (aw_inner w))" "aw_inflight w' = None" "aw_queue w' = aw_queue w"
      "aw_innerClosed w' = aw_innerClosed w"
      using step AE_Store by (auto simp: async_step_def drain_store_def split: option.splits prod.splits)
    moreover have "\<not> aw_innerClosed w" using inv req by (auto simp: async_inv_def drain_inv_def)
    ultimately show ?thesis using inv d req AE_Store
      by (intro exI [of _ "ops @ [IWrite req]"]) (auto simp: async_inv_def inner_apply_def inflight_list_def async_accepts_def)
  next
    case AE_Exit
    then show ?thesis using step by (intro keep) (auto simp: async_step_def drain_exit_def async_accepts_def inflight_list_def split: if_splits)
  next
    case AE_Flush
    then show ?thesis using step
      by (intro flush) (auto simp: async_step_def async_flush_def async_accepts_def inflight_list_def split: if_splits prod.splits)
  next
    case AE_CloseBegin
    then show ?thesis using step by (intro keep) (auto simp: async_step_def async_close_begin_def async_accepts_def inflight_list_def)
  next
    case AE_CloseEnd
    then have "aw_inner w' = fst (sw_Close writer (aw_inner w))" "aw_inflight w' = aw_inflight w" "aw_queue w' = aw_queue w"
      using step by (auto simp: async_step_def async_close_end_def split: if_splits prod.splits)
    then show ?thesis using inv d AE_CloseEnd
      by (intro exI [of _ "ops @ [IClose]"]) (auto simp: async_inv_def inner_apply_def inflight_list_def async_accepts_def closed_after_close)
  qed
qed

lemma async_inv_run:
  "async_inv writer w0 acc ops w \<Longrightarrow> async_run writer evs w = Some (w', new) \<Longrightarrow> \<exists>ops'. async_inv writer w0 (acc @ new) ops' w'"
proof (induction evs arbitrary: w acc ops new)
  case (Cons ev evs)
  obtain w1 new1 where "async_step writer ev w = Some w1" "async_run writer evs w1 = Some (w', new1)" "new = async_accepts ev w @ new1"
    using Cons.prems(2) by (auto split: option.splits)
  then show ?case using async_inv_step [OF Cons.prems(1)] Cons.IH by (metis append.assoc)
qed auto

lemma async_inv_new: "async_inv writer w0 [] [] (NewAsyncWriter w0 queueSize)"
  by (simp add: async_inv_def drain_inv_def NewAsyncWriter_def inflight_list_def Let_def)

text \<open>
  The counters of the queue. A send that neither panics nor is accepted is a drop.
\<close>

definition sends :: "async_event list \<Rightarrow> int" where
  "sends evs = int (length (filter (\<lambda>ev. case ev of AE_Send _ \<Rightarrow> True | _ \<Rightarrow> False) evs))"

lemma async_step_enqueued:
  "async_step writer ev w = Some w' \<Longrightarrow> aw_enqueued w = i64 a \<Longrightarrow> aw_enqueued w' = i64 (a + int (length (async_accepts ev w)))"
  by (cases ev)
    (auto simp: async_step_def async_check_def async_send_def drain_take_def drain_store_def drain_exit_def async_accepts_def
      async_flush_def async_close_begin_def async_close_end_def Let_def split: if_splits list.splits option.splits prod.splits)

lemma async_step_dropped:
  "async_step writer ev w = Some w' \<Longrightarrow> aw_dropped w = i64 d \<Longrightarrow> \<not> aw_panicked w' \<Longrightarrow>
    \<not> aw_panicked w \<and> aw_dropped w' = i64 (d + (sends [ev] - int (length (async_accepts ev w))))"
  by (cases ev)
    (auto simp: async_step_def async_check_def async_send_def drain_take_def drain_store_def drain_exit_def async_accepts_def sends_def
      async_flush_def async_close_begin_def async_close_end_def Let_def split: if_splits list.splits option.splits prod.splits)

lemma async_run_counts:
  "async_run writer evs w = Some (w', new) \<Longrightarrow> aw_enqueued w = i64 a \<Longrightarrow> aw_dropped w = i64 d \<Longrightarrow>
    aw_enqueued w' = i64 (a + int (length new)) \<and>
    (\<not> aw_panicked w' \<longrightarrow> \<not> aw_panicked w \<and> aw_dropped w' = i64 (d + (sends evs - int (length new))))"
proof (induction evs arbitrary: w a d new)
  case Nil
  then show ?case by (simp add: sends_def)
next
  case (Cons ev evs)
  obtain w1 new1 where step: "async_step writer ev w = Some w1" and run: "async_run writer evs w1 = Some (w', new1)"
    and new: "new = async_accepts ev w @ new1"
    using Cons.prems(1) by (auto split: option.splits)
  have e: "aw_enqueued w1 = i64 (a + int (length (async_accepts ev w)))" by (rule async_step_enqueued [OF step Cons.prems(2)])
  have split: "sends (ev # evs) = sends [ev] + sends evs" by (simp add: sends_def)
  have "i64 (aw_dropped w1) = aw_dropped w1"
    using step Cons.prems(3)
    by (cases ev)
      (auto simp: async_step_def async_check_def async_send_def drain_take_def drain_store_def drain_exit_def i64_id
        async_flush_def async_close_begin_def async_close_end_def Let_def split: if_splits list.splits option.splits prod.splits)
  note ih = Cons.IH [OF run e this [symmetric]]
  have "\<not> aw_panicked w \<and> aw_dropped w' = i64 (d + (sends (ev # evs) - int (length new)))" if ok: "\<not> aw_panicked w'"
  proof -
    from ih ok have ok1: "\<not> aw_panicked w1" by simp
    note d1 = async_step_dropped [OF step Cons.prems(3) ok1]
    from Cons.IH [OF run e conjunct2 [OF d1]] ok
    have "aw_dropped w' = i64 (d + (sends [ev] - int (length (async_accepts ev w))) + (sends evs - int (length new1)))" by simp
    then show ?thesis using d1 by (simp add: new split algebra_simps)
  qed
  then show ?case using ih by (simp add: new algebra_simps)
qed

text \<open>
  C16. The asynchronous writer keeps its promises in every interleaving: the queue never exceeds its
  capacity; the requests it accepted are, in order, those handed to the inner writer, the one in
  flight and the queue; when the inner writer is closed, all of them were handed to it before; and the
  counters account for every send, as enqueued or, unless a send panicked, as dropped.
\<close>

theorem async_conserves:
  assumes "async_run writer evs (NewAsyncWriter w0 queueSize) = Some (w, acc)"
  shows "QueueDepth w \<le> QueueCapacity w \<and>
    (\<exists>ops. aw_inner w = fold (inner_apply writer) ops w0 \<and> acc = writes_of ops @ inflight_list w @ aw_queue w \<and>
      (aw_innerClosed w \<longrightarrow> (\<exists>pre post. ops = pre @ IClose # post \<and> writes_of pre = acc))) \<and>
    aw_enqueued w = i64 (int (length acc)) \<and>
    (\<not> aw_panicked w \<longrightarrow> aw_dropped w = i64 (sends evs - int (length acc)))"
proof -
  obtain ops where inv: "async_inv writer w0 acc ops w" using async_inv_run [OF async_inv_new assms] by auto
  have "writes_of pre = acc" if "aw_innerClosed w" "ops = pre @ IClose # post" "writes_of post = []" for pre post
    using inv that by (simp add: async_inv_def drain_inv_def inflight_list_def)
  moreover have "aw_innerClosed w \<longrightarrow> closed_after_writes ops" using inv by (simp add: async_inv_def)
  ultimately have closed: "aw_innerClosed w \<longrightarrow> (\<exists>pre post. ops = pre @ IClose # post \<and> writes_of pre = acc)"
    unfolding closed_after_writes_def by blast
  have zero: "i64 0 = 0" by (simp add: i64_id in_i64_def)
  have counts: "aw_enqueued w = i64 (int (length acc)) \<and> (\<not> aw_panicked w \<longrightarrow> aw_dropped w = i64 (sends evs - int (length acc)))"
    using async_run_counts [OF assms, of 0 0] zero by (simp add: NewAsyncWriter_def Let_def)
  have "QueueDepth w \<le> QueueCapacity w" using inv by (simp add: async_inv_def drain_inv_def QueueDepth_def QueueCapacity_def)
  moreover have "aw_inner w = fold (inner_apply writer) ops w0" "acc = writes_of ops @ inflight_list w @ aw_queue w"
    using inv by (simp_all add: async_inv_def)
  ultimately show ?thesis using closed counts by blast
qed

section \<open>Close drains the queue\<close>

definition drain_step :: "'w storage_writer \<Rightarrow> async_event \<Rightarrow> 'w AsyncWriter \<Rightarrow> 'w AsyncWriter option" where
  "drain_step writer ev w = (if ev \<in> {AE_Take, AE_Store, AE_Exit, AE_CloseEnd} then async_step writer ev w else None)"

definition drain_weight :: "'w AsyncWriter \<Rightarrow> nat" where
  "drain_weight w = 2 * length (aw_queue w) + length (inflight_list w) + (if aw_drained w then 0 else 1) + (if aw_innerClosed w then 0 else 1)"

definition drain_done :: "'w AsyncWriter \<Rightarrow> bool" where
  "drain_done w \<longleftrightarrow> aw_queue w = [] \<and> aw_inflight w = None \<and> aw_innerClosed w"

lemmas drain_defs = drain_step_def async_step_def drain_take_def drain_store_def drain_exit_def async_close_end_def

lemma drain_weight_step: "drain_step writer ev w = Some w' \<Longrightarrow> drain_weight w' < drain_weight w"
  by (auto simp: drain_defs drain_weight_def inflight_list_def split: if_splits list.splits option.splits prod.splits async_event.splits)

lemma drain_progress:
  assumes "drain_inv w" and "aw_closed w" and "\<not> drain_done w"
  shows "\<exists>ev w'. drain_step writer ev w = Some w'"
proof -
  consider (flight) req where "aw_inflight w = Some req" | (queue) req reqs where "aw_inflight w = None" "aw_queue w = req # reqs"
    | (exit) "aw_inflight w = None" "aw_queue w = []" "\<not> aw_drained w" | (close) "aw_drained w" "\<not> aw_innerClosed w"
    using assms(3) by (cases "aw_inflight w"; cases "aw_queue w") (auto simp: drain_done_def)
  then show ?thesis
  proof cases
    case flight
    then show ?thesis
      by (intro exI [of _ AE_Store]) (cases "sw_Write writer req (aw_inner w)", auto simp: drain_defs split: option.splits)
  next
    case queue
    then have "\<not> aw_drained w" using assms(1) by (auto simp: drain_inv_def)
    then show ?thesis using queue by (intro exI [of _ AE_Take]) (simp add: drain_defs)
  next
    case exit
    then show ?thesis using assms(2) by (intro exI [of _ AE_Exit]) (simp add: drain_defs)
  next
    case close
    then show ?thesis by (intro exI [of _ AE_CloseEnd]) (cases "sw_Close writer (aw_inner w)", simp add: drain_defs)
  qed
qed

lemma drain_step_closed: "drain_step writer ev w = Some w' \<Longrightarrow> aw_closed w' = aw_closed w"
  by (auto simp: drain_defs split: if_splits list.splits option.splits prod.splits async_event.splits)

lemma drain_step_inv: "drain_inv w \<Longrightarrow> drain_step writer ev w = Some w' \<Longrightarrow> drain_inv w'"
  by (auto simp: drain_step_def split: if_splits intro: drain_inv_step)

interpretation drain: terminating_system "drain_step writer" "\<lambda>w. drain_inv w \<and> aw_closed w" drain_done drain_weight for writer
  by unfold_locales (auto simp: drain_weight_step drain_progress drain_step_closed intro: drain_step_inv)

fun drain_run :: "'w storage_writer \<Rightarrow> async_event list \<Rightarrow> 'w AsyncWriter \<Rightarrow> 'w AsyncWriter option" where
  "drain_run writer [] w = Some w"
| "drain_run writer (ev # evs) w = (case drain_step writer ev w of None \<Rightarrow> None | Some w1 \<Rightarrow> drain_run writer evs w1)"

lemma drain_exec_eq: "drain.exec writer evs w = drain_run writer evs w"
  by (induction evs arbitrary: w) (auto split: option.splits)

text \<open>
  C17. Close returns: from every state that the asynchronous writer can reach, once Close has begun,
  every sequence of steps of the drain goroutine and of Close is bounded by the queue, is stuck only
  when the queue is empty and the inner writer closed, and can be continued to such a state,
  whatever errors the inner writer returns.
\<close>

theorem async_close_returns:
  assumes "async_run writer evs (NewAsyncWriter w0 queueSize) = Some (w, acc)" and "aw_closed w"
    and "drain_run writer steps w = Some w'"
  shows "length steps \<le> 2 * length (aw_queue w) + 3 \<and>
    ((\<forall>ev. drain_step writer ev w' = None) \<longrightarrow> drain_done w') \<and>
    (\<exists>more w''. drain_run writer more w' = Some w'' \<and> drain_done w'')"
proof -
  have inv: "drain_inv w \<and> aw_closed w" using async_inv_run [OF async_inv_new assms(1)] assms(2) by (auto simp: async_inv_def)
  have ex: "drain.exec writer steps w = Some w'" using assms(3) by (simp add: drain_exec_eq)
  have "length (inflight_list w) \<le> 1" by (simp add: inflight_list_def split: option.splits)
  then have "drain_weight w \<le> 2 * length (aw_queue w) + 3" by (simp add: drain_weight_def)
  then show ?thesis
    using drain.exec_bound [OF inv ex] drain.stuck_final [OF inv ex] drain.can_finish [OF drain.exec_inv [OF inv ex]]
    by (auto simp: drain_exec_eq)
qed

section \<open>The batching writer\<close>

text \<open>A batch is flushed as soon as it is full, and a flush leaves none pending, failed or not.\<close>

lemma batch_never_full:
  assumes "bw_pending bw < bw_batchSize bw" and "0 < bw_batchSize bw"
  shows "bw_pending (fst (BufferedWriter_Write writer req bw)) < bw_batchSize (fst (BufferedWriter_Write writer req bw))"
    and "bw_pending (fst (BufferedWriter_Flush writer bw)) = 0"
    and "bw_pending (flushLoop_tick writer bw) < bw_batchSize (flushLoop_tick writer bw)"
  using assms
  by (auto simp: BufferedWriter_Write_def BufferedWriter_Flush_def flushLoop_tick_def Let_def split: prod.splits option.splits)

section \<open>The pipeline\<close>

text \<open>
  When no plugin fails or filters, the downstream writer gets the composition of the plugins; under
  the drop policy a failing plugin hides the request from the plugins after it and from storage.
\<close>

lemma run_plugins_append:
  "run_plugins onError (pls @ pls') r world =
    (case run_plugins onError pls r world of
       (world', Forward r') \<Rightarrow> run_plugins onError pls' r' world'
     | (world', out) \<Rightarrow> (world', out))"
  by (induction onError pls r world rule: run_plugins.induct)
    (auto split: prod.splits sum.splits option.splits ErrorHandler.splits)

lemma closed_pipeline_refuses:
  "pl_closed p \<Longrightarrow> Pipeline_Write writer req p = (p, Some ErrWriterClosed) \<and> Pipeline_Flush writer p = (p, Some ErrWriterClosed)"
  by (simp add: Pipeline_Write_def Pipeline_Flush_def)

section \<open>The agent\<close>

text \<open>
  The handler writes into the asynchronous writer, whose drain goroutine writes to storage: requests
  and the steps of the writer in any order.
\<close>

definition async_writer :: "'w storage_writer \<Rightarrow> 'w AsyncWriter storage_writer" where
  "async_writer writer =
    \<lparr>sw_Write = (\<lambda>req w. case async_check req w of (w1, Some err) \<Rightarrow> (w1, Some err) | (w1, None) \<Rightarrow> async_send req w1),
     sw_Flush = (\<lambda>w. case async_flush writer w of None \<Rightarrow> (w, Some (UploadFailed Canceled)) | Some res \<Rightarrow> res),
     sw_Close = (\<lambda>w. case async_close_end writer (async_close_begin w) of None \<Rightarrow> (async_close_begin w, None) | Some res \<Rightarrow> res)\<rparr>"

datatype agent_event = AgentRequest CapturedHTTPRequest string time int | AgentWriter async_event

definition agent_step ::
  "'w storage_writer \<Rightarrow> agent_event \<Rightarrow> CaptureHandler \<times> 'w AsyncWriter \<Rightarrow> (CaptureHandler \<times> 'w AsyncWriter) option" where
  "agent_step writer ev st =
    (case st of (h, w) \<Rightarrow>
      (case ev of
         AgentRequest req uuid now sample \<Rightarrow>
           (case CaptureHandler_Handle (async_writer writer) uuid now sample req h w of (h', w', err) \<Rightarrow> Some (h', w'))
       | AgentWriter aev \<Rightarrow>
           (case aev of AE_Check req \<Rightarrow> None | AE_Send req \<Rightarrow> None | _ \<Rightarrow> map_option (\<lambda>w'. (h, w')) (async_step writer aev w))))"

fun agent_run ::
  "'w storage_writer \<Rightarrow> agent_event list \<Rightarrow> CaptureHandler \<times> 'w AsyncWriter \<Rightarrow> (CaptureHandler \<times> 'w AsyncWriter) option" where
  "agent_run writer [] st = Some st"
| "agent_run writer (ev # evs) st = (case agent_step writer ev st of None \<Rightarrow> None | Some st1 \<Rightarrow> agent_run writer evs st1)"

definition agent_safe :: "'w storage_writer \<Rightarrow> 'w \<Rightarrow> CaptureHandler \<Rightarrow> CaptureHandler \<times> 'w AsyncWriter \<Rightarrow> bool" where
  "agent_safe writer w0 h0 st \<longleftrightarrow>
    ch_redactor (fst st) = ch_redactor h0 \<and> ch_maxBodyBytes (fst st) = ch_maxBodyBytes h0 \<and>
    (\<exists>acc ops. async_inv writer w0 acc ops (snd st) \<and>
      (\<forall>r\<in>set acc. \<exists>headers. cr_Headers r = fst (Redact (Some (ch_redactor h0)) headers) \<and>
         int (length (cr_Body r)) \<le> ch_maxBodyBytes h0))"

lemma async_write_inv:
  assumes "async_inv writer w0 acc ops w"
  shows "\<exists>new ops'. set new \<subseteq> {req} \<and> async_inv writer w0 (acc @ new) ops' (fst (sw_Write (async_writer writer) req w))"
proof (cases "aw_closed w")
  case True
  then show ?thesis using assms by (intro exI [of _ "[]"] exI [of _ ops]) (simp add: async_writer_def async_check_def)
next
  case False
  let ?w1 = "w\<lparr>aw_sending := aw_sending w @ [req]\<rparr>"
  have "async_step writer (AE_Check req) w = Some ?w1" using False by (simp add: async_step_def async_check_def)
  from async_inv_step [OF assms this] obtain ops1 where inv1: "async_inv writer w0 acc ops1 ?w1"
    by (auto simp: async_accepts_def)
  have "async_step writer (AE_Send req) ?w1 = Some (fst (async_send req ?w1))" by (simp add: async_step_def)
  from async_inv_step [OF inv1 this] obtain ops2 where
    "async_inv writer w0 (acc @ async_accepts (AE_Send req) ?w1) ops2 (fst (async_send req ?w1))" by blast
  moreover have "set (async_accepts (AE_Send req) ?w1) \<subseteq> {req}" by (auto simp: async_accepts_def)
  moreover have "sw_Write (async_writer writer) req w = async_send req ?w1" using False by (simp add: async_writer_def async_check_def)
  ultimately show ?thesis by metis
qed

lemma Handle_keeps_config:
  assumes "CaptureHandler_Handle writer uuid now sample req h w = (h', w', res)"
  shows "ch_redactor h' = ch_redactor h" and "ch_maxBodyBytes h' = ch_maxBodyBytes h"
  using assms by (auto simp: CaptureHandler_Handle_def Let_def split: if_splits sum.splits prod.splits option.splits)

lemma agent_safe_step:
  assumes safe: "agent_safe writer w0 h0 st" and step: "agent_step writer ev st = Some st'"
    and max: "0 < ch_maxBodyBytes h0" "ch_maxBodyBytes h0 < 2 ^ 63 - 1"
  shows "agent_safe writer w0 h0 st'"
proof -
  obtain h w where st: "st = (h, w)" by (cases st)
  let ?ok = "\<lambda>r. \<exists>headers. cr_Headers r = fst (Redact (Some (ch_redactor h0)) headers) \<and> int (length (cr_Body r)) \<le> ch_maxBodyBytes h0"
  obtain acc ops where inv: "async_inv writer w0 acc ops w" "\<forall>r\<in>set acc. ?ok r" and cfg: "ch_redactor h = ch_redactor h0" "ch_maxBodyBytes h = ch_maxBodyBytes h0"
    using safe by (auto simp: agent_safe_def st)
  show ?thesis
  proof (cases ev)
    case (AgentRequest req uuid now sample)
    obtain h' w' err where hd: "CaptureHandler_Handle (async_writer writer) uuid now sample req h w = (h', w', err)" by (metis prod_cases3)
    then have st': "st' = (h', w')" using step AgentRequest st by (simp add: agent_step_def)
    note cfg' = Handle_keeps_config [OF hd]
    have "\<exists>acc ops. async_inv writer w0 acc ops w' \<and> (\<forall>r\<in>set acc. ?ok r)"
    proof (rule Handle_cases [OF hd])
      fix c
      assume c: "captured_from h uuid now req c"
        "sw_Write (async_writer writer) c w = (w', map_option (\<lambda>e. case e of WriteFailed err \<Rightarrow> err) err)"
      have "?ok c" using c(1) max by (auto simp: captured_from_def cfg)
      obtain new ops' where "set new \<subseteq> {c}" "async_inv writer w0 (acc @ new) ops' (fst (sw_Write (async_writer writer) c w))"
        using async_write_inv [OF inv(1)] by blast
      then have "async_inv writer w0 (acc @ new) ops' w' \<and> (\<forall>r\<in>set (acc @ new). ?ok r)"
        using c(2) inv(2) \<open>?ok c\<close> by auto
      then show ?thesis by blast
    qed (use inv max cfg in auto)
    then show ?thesis using cfg cfg' by (simp add: agent_safe_def st')
  next
    case (AgentWriter aev)
    then obtain w' where w': "async_step writer aev w = Some w'" "st' = (h, w')" "async_accepts aev w = []"
      using step by (cases aev) (auto simp: agent_step_def st async_accepts_def)
    obtain ops' where "async_inv writer w0 acc ops' w'" using async_inv_step [OF inv(1) w'(1)] w'(3) by auto
    then show ?thesis using inv(2) cfg by (auto simp: agent_safe_def w'(2))
  qed
qed

lemma agent_safe_run:
  "agent_safe writer w0 h0 st \<Longrightarrow> 0 < ch_maxBodyBytes h0 \<Longrightarrow> ch_maxBodyBytes h0 < 2 ^ 63 - 1 \<Longrightarrow>
    agent_run writer evs st = Some st' \<Longrightarrow> agent_safe writer w0 h0 st'"
proof (induction evs arbitrary: st)
  case (Cons ev evs)
  then obtain st1 where "agent_step writer ev st = Some st1" "agent_run writer evs st1 = Some st'" by (auto split: option.splits)
  then show ?case using Cons agent_safe_step by metis
qed simp

text \<open>
  C7. Credentials never become capture data: an agent with the default configuration, in whatever
  order requests arrive and its writer works, hands to storage, keeps in flight and keeps queued
  only requests in which every value of an Authorization, Proxy-Authorization, Cookie, Set-Cookie,
  X-Api-Key or X-Auth-Token header, in any spelling, is the redaction marker, and whose bodies are
  within the limit.
\<close>

theorem credentials_never_stored:
  assumes "agent_run writer evs (NewCaptureHandler maxBody flt None, NewAsyncWriter w0 queueSize) = Some (h, w)"
    and "maxBody < 2 ^ 63 - 1"
  shows "\<exists>ops. aw_inner w = fold (inner_apply writer) ops w0 \<and>
    (\<forall>r\<in>set (writes_of ops @ inflight_list w @ aw_queue w).
       redacted_headers (cr_Headers r) \<and> int (length (cr_Body r)) \<le> (if maxBody \<le> 0 then 2 ^ 20 else maxBody))"
proof -
  let ?h = "NewCaptureHandler maxBody flt None"
  have "agent_safe writer w0 ?h (?h, NewAsyncWriter w0 queueSize)"
    using async_inv_new by (fastforce simp: agent_safe_def)
  moreover have "0 < ch_maxBodyBytes ?h" "ch_maxBodyBytes ?h < 2 ^ 63 - 1" using assms(2) by (simp_all add: NewCaptureHandler_def)
  ultimately have "agent_safe writer w0 ?h (h, w)" by (rule agent_safe_run) (rule assms(1))
  then obtain acc ops where inv: "async_inv writer w0 acc ops w"
    and acc: "\<forall>r\<in>set acc. \<exists>headers. cr_Headers r = fst (Redact (Some (ch_redactor ?h)) headers) \<and> int (length (cr_Body r)) \<le> ch_maxBodyBytes ?h"
    by (auto simp: agent_safe_def)
  have "redacted_headers (cr_Headers r) \<and> int (length (cr_Body r)) \<le> (if maxBody \<le> 0 then 2 ^ 20 else maxBody)" if "r \<in> set acc" for r
    using acc that default_redaction by (fastforce simp: NewCaptureHandler_def)
  then show ?thesis using inv by (intro exI [of _ ops]) (simp add: async_inv_def)
qed

end
