(* ===== verification/Agent_Witnesses.thy ===== *)
theory Agent_Witnesses
  imports Agent_Writers_Props
begin

text \<open>
  Concrete runs of the capture agent: a storage writer that logs what it is given and refuses one
  request, the runs that witness the properties of the agent's writers, and a run in which a call of
  Write that passed the closed check before Close panics.
\<close>

definition log_writer :: "CapturedRequest list storage_writer" where
  "log_writer = \<lparr>sw_Write = (\<lambda>req w. (w @ [req], if cr_Path req = ''/bad'' then Some (UploadFailed NetTimeout) else None)),
    sw_Flush = (\<lambda>w. (w, None)), sw_Close = (\<lambda>w. (w, None))\<rparr>"

definition path_request :: "string \<Rightarrow> CapturedRequest" where
  "path_request path = \<lparr>cr_ID = path, cr_Timestamp = 0, cr_Method = ''GET'', cr_Path = path, cr_Headers = [], cr_Body = [],
    cr_ContentLength = 0, cr_Protocol = ''HTTP'', cr_Metadata = []\<rparr>"

definition async_trace :: "async_event list" where
  "async_trace = [AE_Check (path_request ''/a''), AE_Send (path_request ''/a''), AE_Take, AE_Check (path_request ''/bad''),
    AE_Check (path_request ''/c''), AE_Send (path_request ''/bad''), AE_Send (path_request ''/c''), AE_CloseBegin]"

definition async_end :: "CapturedRequest list AsyncWriter" where
  "async_end = \<lparr>aw_inner = [], aw_queue = [path_request ''/bad''], aw_cap = 1, aw_sending = [], aw_inflight = Some (path_request ''/a''),
    aw_closed = True, aw_drained = False, aw_innerClosed = False, aw_panicked = False, aw_enqueued = 2, aw_dropped = 1, aw_writeErrors = 0\<rparr>"

lemma async_trace_run: "async_run log_writer async_trace (NewAsyncWriter [] 1) = Some (async_end, [path_request ''/a'', path_request ''/bad''])"
  by code_simp

theorem async_conserves_witness:
  "QueueDepth async_end \<le> QueueCapacity async_end \<and>
    (\<exists>ops. aw_inner async_end = fold (inner_apply log_writer) ops [] \<and>
      [path_request ''/a'', path_request ''/bad''] = writes_of ops @ inflight_list async_end @ aw_queue async_end) \<and>
    sends async_trace = 3 \<and> aw_enqueued async_end = i64 2 \<and> aw_dropped async_end = i64 (3 - 2)"
proof -
  have "sends async_trace = 3" by code_simp
  moreover have "\<not> aw_panicked async_end" by (simp add: async_end_def)
  ultimately show ?thesis using async_conserves [OF async_trace_run] by auto
qed

theorem async_close_returns_witness:
  "drain_run log_writer [AE_Store, AE_Take] async_end \<noteq> None \<and>
    (\<exists>more w''. drain_run log_writer more (the (drain_run log_writer [AE_Store, AE_Take] async_end)) = Some w'' \<and> drain_done w'')"
proof -
  obtain w' where w': "drain_run log_writer [AE_Store, AE_Take] async_end = Some w'"
    by (simp add: drain_defs async_end_def log_writer_def path_request_def)
  have "aw_closed async_end" by (simp add: async_end_def)
  from async_close_returns [OF async_trace_run this w'] show ?thesis using w' by simp
qed

definition http_get :: CapturedHTTPRequest where
  "http_get = \<lparr>hq_Method = ''GET'', hq_Path = ''/a'', hq_Headers = [(''authorization'', [''secret'']), (''Accept'', [''text''])],
    hq_Body = (''body'', None), hq_Protocol = ''HTTP'', hq_Metadata = []\<rparr>"

definition agent_end :: "CaptureHandler \<times> CapturedRequest list AsyncWriter" where
  "agent_end = the (agent_run log_writer [AgentRequest http_get ''id-1'' 7 0, AgentWriter AE_Take, AgentWriter AE_Store]
    (NewCaptureHandler 3 None None, NewAsyncWriter [] 4))"

theorem credentials_never_stored_witness:
  "map cr_Headers (aw_inner (snd agent_end)) = [[(''authorization'', [''[REDACTED]'']), (''Accept'', [''text''])]] \<and>
    map cr_Body (aw_inner (snd agent_end)) = [''bod''] \<and>
    (\<exists>ops. aw_inner (snd agent_end) = fold (inner_apply log_writer) ops [] \<and>
      (\<forall>r\<in>set (writes_of ops @ inflight_list (snd agent_end) @ aw_queue (snd agent_end)).
         redacted_headers (cr_Headers r) \<and> int (length (cr_Body r)) \<le> (if (3 :: int) \<le> 0 then 2 ^ 20 else 3)))"
proof -
  have defined: "agent_run log_writer [AgentRequest http_get ''id-1'' 7 0, AgentWriter AE_Take, AgentWriter AE_Store]
    (NewCaptureHandler 3 None None, NewAsyncWriter [] 4) \<noteq> None" by code_simp
  then have run: "agent_run log_writer [AgentRequest http_get ''id-1'' 7 0, AgentWriter AE_Take, AgentWriter AE_Store]
    (NewCaptureHandler 3 None None, NewAsyncWriter [] 4) = Some (fst agent_end, snd agent_end)"
    by (auto simp: agent_end_def)
  have "map cr_Headers (aw_inner (snd agent_end)) = [[(''authorization'', [''[REDACTED]'']), (''Accept'', [''text''])]]"
    "map cr_Body (aw_inner (snd agent_end)) = [''bod'']" by code_simp+
  then show ?thesis using credentials_never_stored [OF run] by simp
qed

text \<open>A Write that raced with Close sends on a closed channel.\<close>

lemma write_close_race_panics:
  "\<exists>w acc. async_run log_writer [AE_Check (path_request ''/a''), AE_CloseBegin, AE_Send (path_request ''/a'')] (NewAsyncWriter [] 1) = Some (w, acc) \<and>
    aw_panicked w"
  by (simp add: async_step_def async_check_def async_send_def async_close_begin_def NewAsyncWriter_def Let_def)

text \<open>Flush returns while an accepted request is still on its way to storage.\<close>

lemma flush_misses_inflight:
  "\<exists>w acc. async_run log_writer [AE_Check (path_request ''/a''), AE_Send (path_request ''/a''), AE_Take, AE_Flush] (NewAsyncWriter [] 1) = Some (w, acc) \<and>
    acc = [path_request ''/a''] \<and> aw_inner w = []"
  by (simp add: async_step_def async_check_def async_send_def drain_take_def async_flush_def log_writer_def NewAsyncWriter_def Let_def async_accepts_def)

end
