(* ===== verification/Plugin_Validation.thy ===== *)
theory Plugin_Validation
  imports Kapture_Prelude
begin

text \<open>
  Cross-plugin validation (\<^verbatim>\<open>internal/plugin/validation/constraint.go\<close>, \<^verbatim>\<open>registry.go\<close>) and the registry of
  payload plugins built on it (\<^verbatim>\<open>internal/plugin/payload/plugin.go\<close>). A plugin configuration is an
  abstract type; the validators and builders that plugins register are parameters. The messages that
  the code formats into errors are kept as the values they are formatted from.
\<close>

datatype ResourceAccess = Shared | Exclusive

record ResourceClaim =
  rc_Name :: string
  rc_Access :: ResourceAccess

record 'cfg Constraints =
  cs_ConfigValidator :: "('cfg \<Rightarrow> string option) option"
  cs_ConflictsWith :: "string list"
  cs_ConflictReasons :: "(string, string) gomap"
  cs_MustRunBefore :: "string list"
  cs_MustRunAfter :: "string list"
  cs_Resources :: "ResourceClaim list"

record 'cfg PluginRef =
  pr_Name :: string
  pr_Config :: 'cfg

datatype ValidationError =
    UnknownPlugin string
  | ConfigError string string
  | ConflictError string string string
  | OrderBefore string string nat nat
  | OrderAfter string string nat nat
  | ResourceError string string string ResourceAccess

type_synonym 'cfg validation_registry = "(string, 'cfg Constraints) gomap"

definition no_constraints :: "'cfg Constraints" where
  "no_constraints = \<lparr>cs_ConfigValidator = None, cs_ConflictsWith = [], cs_ConflictReasons = [], cs_MustRunBefore = [],
    cs_MustRunAfter = [], cs_Resources = []\<rparr>"

datatype register_error = EmptyName | AlreadyRegistered string

definition Validation_Register ::
  "string \<Rightarrow> 'cfg Constraints option \<Rightarrow> 'cfg validation_registry \<Rightarrow> 'cfg validation_registry \<times> register_error option" where
  "Validation_Register name c r =
    (if name = [] then (r, Some EmptyName)
     else let c' = (case c of None \<Rightarrow> no_constraints | Some c \<Rightarrow> c)
       in if gm_get r name \<noteq> None then (r, Some (AlreadyRegistered name)) else (gm_put name c' r, None))"

definition Validation_Has :: "string \<Rightarrow> 'cfg validation_registry \<Rightarrow> bool" where
  "Validation_Has name r \<longleftrightarrow> gm_get r name \<noteq> None"

definition Validation_Names :: "'cfg validation_registry \<Rightarrow> string list" where
  "Validation_Names r = map fst r"

datatype config_error = UnknownConfig string | InvalidConfig string

definition ValidateConfig :: "string \<Rightarrow> 'cfg \<Rightarrow> 'cfg validation_registry \<Rightarrow> config_error option" where
  "ValidateConfig name config r =
    (case gm_get r name of
       None \<Rightarrow> Some (UnknownConfig name)
     | Some c \<Rightarrow> (case cs_ConfigValidator c of None \<Rightarrow> None | Some validate \<Rightarrow> map_option InvalidConfig (validate config)))"

section \<open>The phases\<close>

definition build_positions :: "'cfg PluginRef list \<Rightarrow> (string, nat list) gomap" where
  "build_positions pipeline =
    foldl (\<lambda>m (i, ref). gm_put (pr_Name ref) ((case gm_get m (pr_Name ref) of None \<Rightarrow> [] | Some ps \<Rightarrow> ps) @ [i]) m) [] (enumerate 0 pipeline)"

fun unknown_loop :: "'cfg validation_registry \<Rightarrow> string list \<Rightarrow> 'cfg PluginRef list \<Rightarrow> ValidationError list" where
  "unknown_loop r seen [] = []"
| "unknown_loop r seen (ref # refs) =
    (if pr_Name ref \<in> set seen then unknown_loop r seen refs
     else (if gm_get r (pr_Name ref) = None then [UnknownPlugin (pr_Name ref)] else []) @ unknown_loop r (pr_Name ref # seen) refs)"

definition checkUnknown :: "'cfg validation_registry \<Rightarrow> 'cfg PluginRef list \<Rightarrow> ValidationError list" where
  "checkUnknown r pipeline = unknown_loop r [] pipeline"

definition checkConfigs :: "'cfg validation_registry \<Rightarrow> 'cfg PluginRef list \<Rightarrow> ValidationError list" where
  "checkConfigs r pipeline =
    concat (map (\<lambda>ref. case gm_get r (pr_Name ref) of
        None \<Rightarrow> []
      | Some c \<Rightarrow> (case cs_ConfigValidator c of
            None \<Rightarrow> []
          | Some validate \<Rightarrow> (case validate (pr_Config ref) of None \<Rightarrow> [] | Some msg \<Rightarrow> [ConfigError (pr_Name ref) msg]))) pipeline)"

definition normalizePair :: "string \<Rightarrow> string \<Rightarrow> string \<times> string" where
  "normalizePair a b = (if a > b then (b, a) else (a, b))"

fun conflict_inner ::
  "'cfg Constraints \<Rightarrow> string \<Rightarrow> (string, nat list) gomap \<Rightarrow> (string \<times> string) list \<Rightarrow> string list \<Rightarrow>
    (string \<times> string) list \<times> ValidationError list" where
  "conflict_inner c name positions reported [] = (reported, [])"
| "conflict_inner c name positions reported (other # others) =
    (if gm_get positions other = None then conflict_inner c name positions reported others
     else if normalizePair name other \<in> set reported then conflict_inner c name positions reported others
     else case conflict_inner c name positions (normalizePair name other # reported) others of (rep, errs) \<Rightarrow>
       (rep, ConflictError name other (case gm_get (cs_ConflictReasons c) other of None \<Rightarrow> ''plugins are incompatible'' | Some r \<Rightarrow> r) # errs))"

fun conflict_loop ::
  "'cfg validation_registry \<Rightarrow> (string, nat list) gomap \<Rightarrow> (string \<times> string) list \<Rightarrow> 'cfg PluginRef list \<Rightarrow> ValidationError list" where
  "conflict_loop r positions reported [] = []"
| "conflict_loop r positions reported (ref # refs) =
    (case gm_get r (pr_Name ref) of
       None \<Rightarrow> conflict_loop r positions reported refs
     | Some c \<Rightarrow> (case conflict_inner c (pr_Name ref) positions reported (cs_ConflictsWith c) of
          (rep, errs) \<Rightarrow> errs @ conflict_loop r positions rep refs))"

definition checkConflicts :: "'cfg validation_registry \<Rightarrow> 'cfg PluginRef list \<Rightarrow> (string, nat list) gomap \<Rightarrow> ValidationError list" where
  "checkConflicts r pipeline positions = conflict_loop r positions [] pipeline"

definition positions_of :: "(string, nat list) gomap \<Rightarrow> string \<Rightarrow> nat list" where
  "positions_of positions name = (case gm_get positions name of None \<Rightarrow> [] | Some ps \<Rightarrow> ps)"

definition order_errors :: "'cfg validation_registry \<Rightarrow> (string, nat list) gomap \<Rightarrow> nat \<times> 'cfg PluginRef \<Rightarrow> ValidationError list" where
  "order_errors r positions iref =
    (case iref of (i, ref) \<Rightarrow> (case gm_get r (pr_Name ref) of
        None \<Rightarrow> []
      | Some c \<Rightarrow>
          concat (map (\<lambda>before. map (OrderBefore (pr_Name ref) before i) (filter (\<lambda>p. p \<le> i) (positions_of positions before))) (cs_MustRunBefore c)) @
          concat (map (\<lambda>after. map (OrderAfter (pr_Name ref) after i) (filter (\<lambda>p. i \<le> p) (positions_of positions after))) (cs_MustRunAfter c))))"

definition checkOrdering :: "'cfg validation_registry \<Rightarrow> 'cfg PluginRef list \<Rightarrow> (string, nat list) gomap \<Rightarrow> ValidationError list" where
  "checkOrdering r pipeline positions = concat (map (order_errors r positions) (enumerate 0 pipeline))"

definition add_claim ::
  "string \<Rightarrow> ResourceClaim \<Rightarrow> (string, (string \<times> ResourceAccess) list) gomap \<Rightarrow> (string, (string \<times> ResourceAccess) list) gomap" where
  "add_claim plugin rc m =
    gm_put (rc_Name rc) ((case gm_get m (rc_Name rc) of None \<Rightarrow> [] | Some cs \<Rightarrow> cs) @ [(plugin, rc_Access rc)]) m"

definition collect_claims :: "'cfg validation_registry \<Rightarrow> 'cfg PluginRef list \<Rightarrow> (string, (string \<times> ResourceAccess) list) gomap" where
  "collect_claims r pipeline =
    fold (\<lambda>ref m. case gm_get r (pr_Name ref) of None \<Rightarrow> m | Some c \<Rightarrow> fold (add_claim (pr_Name ref)) (cs_Resources c) m) pipeline []"

fun contention_inner ::
  "string \<Rightarrow> string \<Rightarrow> (string \<times> string) list \<Rightarrow> (string \<times> ResourceAccess) list \<Rightarrow> (string \<times> string) list \<times> ValidationError list" where
  "contention_inner resource a reported [] = (reported, [])"
| "contention_inner resource a reported ((b, access) # claims) =
    (if a = b \<or> normalizePair a b \<in> set reported then contention_inner resource a reported claims
     else case contention_inner resource a (normalizePair a b # reported) claims of (rep, errs) \<Rightarrow>
       (rep, ResourceError resource a b access # errs))"

fun contention_outer ::
  "string \<Rightarrow> (string \<times> ResourceAccess) list \<Rightarrow> (string \<times> string) list \<Rightarrow> (string \<times> ResourceAccess) list \<Rightarrow>
    (string \<times> string) list \<times> ValidationError list" where
  "contention_outer resource all reported [] = (reported, [])"
| "contention_outer resource all reported ((a, access) # claims) =
    (if access \<noteq> Exclusive then contention_outer resource all reported claims
     else case contention_inner resource a reported all of (rep, errs) \<Rightarrow>
       (case contention_outer resource all rep claims of (rep', errs') \<Rightarrow> (rep', errs @ errs')))"

fun contention_loop ::
  "(string, (string \<times> ResourceAccess) list) gomap \<Rightarrow> (string \<times> string) list \<Rightarrow> ValidationError list" where
  "contention_loop [] reported = []"
| "contention_loop ((resource, claims) # rest) reported =
    (case contention_outer resource claims reported claims of (rep, errs) \<Rightarrow> errs @ contention_loop rest rep)"

definition checkResources :: "'cfg validation_registry \<Rightarrow> 'cfg PluginRef list \<Rightarrow> ValidationError list" where
  "checkResources r pipeline = contention_loop (collect_claims r pipeline) []"

definition ValidatePipeline :: "'cfg validation_registry \<Rightarrow> 'cfg PluginRef list \<Rightarrow> ValidationError list" where
  "ValidatePipeline r pipeline =
    (let positions = build_positions pipeline
     in checkUnknown r pipeline @ checkConfigs r pipeline @ checkConflicts r pipeline positions @
        checkOrdering r pipeline positions @ checkResources r pipeline)"

section \<open>The registry of payload plugins\<close>

record ('cfg, 'p) payload_registry =
  py_builders :: "(string, 'cfg \<Rightarrow> string + 'p) gomap"
  py_Validation :: "'cfg validation_registry"

definition Payload_NewRegistry :: "('cfg, 'p) payload_registry" where
  "Payload_NewRegistry = \<lparr>py_builders = [], py_Validation = []\<rparr>"

definition Payload_Register ::
  "string \<Rightarrow> ('cfg \<Rightarrow> string + 'p) \<Rightarrow> ('cfg, 'p) payload_registry \<Rightarrow> ('cfg, 'p) payload_registry \<times> register_error option" where
  "Payload_Register name builder r =
    (if gm_get (py_builders r) name \<noteq> None then (r, Some (AlreadyRegistered name))
     else (r\<lparr>py_builders := gm_put name builder (py_builders r)\<rparr>, None))"

definition RegisterWithConstraints ::
  "string \<Rightarrow> ('cfg \<Rightarrow> string + 'p) \<Rightarrow> 'cfg Constraints option \<Rightarrow> ('cfg, 'p) payload_registry \<Rightarrow>
    ('cfg, 'p) payload_registry \<times> register_error option" where
  "RegisterWithConstraints name builder c r =
    (case Payload_Register name builder r of
       (r1, Some err) \<Rightarrow> (r1, Some err)
     | (r1, None) \<Rightarrow>
         (case Validation_Register name c (py_Validation r1) of
            (v, Some err) \<Rightarrow> (r1\<lparr>py_Validation := v, py_builders := gm_del name (py_builders r1)\<rparr>, Some err)
          | (v, None) \<Rightarrow> (r1\<lparr>py_Validation := v\<rparr>, None)))"

datatype build_error = UnknownBuilder string | BuildFailed string

definition Payload_Build :: "string \<Rightarrow> 'cfg \<Rightarrow> ('cfg, 'p) payload_registry \<Rightarrow> build_error + 'p" where
  "Payload_Build name config r =
    (case gm_get (py_builders r) name of
       None \<Rightarrow> Inl (UnknownBuilder name)
     | Some builder \<Rightarrow> (case builder config of Inl err \<Rightarrow> Inl (BuildFailed err) | Inr p \<Rightarrow> Inr p))"

definition Payload_Names :: "('cfg, 'p) payload_registry \<Rightarrow> string list" where
  "Payload_Names r = map fst (py_builders r)"

section \<open>What validation checks\<close>

text \<open>
  A pipeline is valid when its plugins are registered and accept their configuration, no plugin is
  in it together with one it conflicts with, every occurrence of a plugin is before, or after, every
  occurrence of the plugins it must precede, or follow, and no two different plugins claim a
  resource that one of them claims exclusively.
\<close>

definition valid_pipeline :: "'cfg validation_registry \<Rightarrow> 'cfg PluginRef list \<Rightarrow> bool" where
  "valid_pipeline r pipeline \<longleftrightarrow>
    (\<forall>ref\<in>set pipeline. gm_get r (pr_Name ref) \<noteq> None) \<and>
    (\<forall>ref\<in>set pipeline. \<forall>c validate. gm_get r (pr_Name ref) = Some c \<longrightarrow> cs_ConfigValidator c = Some validate \<longrightarrow> validate (pr_Config ref) = None) \<and>
    (\<forall>ref\<in>set pipeline. \<forall>c. gm_get r (pr_Name ref) = Some c \<longrightarrow> (\<forall>ref'\<in>set pipeline. pr_Name ref' \<notin> set (cs_ConflictsWith c))) \<and>
    (\<forall>i j c. i < length pipeline \<longrightarrow> j < length pipeline \<longrightarrow> gm_get r (pr_Name (pipeline ! i)) = Some c \<longrightarrow>
       (pr_Name (pipeline ! j) \<in> set (cs_MustRunBefore c) \<longrightarrow> i < j) \<and> (pr_Name (pipeline ! j) \<in> set (cs_MustRunAfter c) \<longrightarrow> j < i)) \<and>
    (\<forall>ref\<in>set pipeline. \<forall>ref'\<in>set pipeline. \<forall>c c'. pr_Name ref \<noteq> pr_Name ref' \<longrightarrow>
       gm_get r (pr_Name ref) = Some c \<longrightarrow> gm_get r (pr_Name ref') = Some c' \<longrightarrow>
       (\<forall>rc\<in>set (cs_Resources c). \<forall>rc'\<in>set (cs_Resources c'). rc_Name rc = rc_Name rc' \<longrightarrow> rc_Access rc \<noteq> Exclusive))"

lemma unknown_loop_empty:
  "unknown_loop r seen pipeline = [] \<longleftrightarrow> (\<forall>ref\<in>set pipeline. pr_Name ref \<in> set seen \<or> gm_get r (pr_Name ref) \<noteq> None)"
  by (induction r seen pipeline rule: unknown_loop.induct) auto

lemma checkUnknown_empty: "checkUnknown r pipeline = [] \<longleftrightarrow> (\<forall>ref\<in>set pipeline. gm_get r (pr_Name ref) \<noteq> None)"
  by (simp add: checkUnknown_def unknown_loop_empty)

lemma checkConfigs_empty:
  "checkConfigs r pipeline = [] \<longleftrightarrow>
    (\<forall>ref\<in>set pipeline. \<forall>c validate. gm_get r (pr_Name ref) = Some c \<longrightarrow> cs_ConfigValidator c = Some validate \<longrightarrow> validate (pr_Config ref) = None)"
  by (force simp: checkConfigs_def split: option.splits)

lemma conflict_inner_empty:
  "snd (conflict_inner c name positions [] others) = [] \<longleftrightarrow> (\<forall>other\<in>set others. gm_get positions other = None)"
  "snd (conflict_inner c name positions [] others) = [] \<Longrightarrow> fst (conflict_inner c name positions [] others) = []"
  by (induction others) (auto split: prod.splits)

lemma conflict_loop_empty:
  "conflict_loop r positions [] pipeline = [] \<longleftrightarrow>
    (\<forall>ref\<in>set pipeline. \<forall>c. gm_get r (pr_Name ref) = Some c \<longrightarrow> (\<forall>other\<in>set (cs_ConflictsWith c). gm_get positions other = None))"
proof (induction pipeline)
  case (Cons ref pipeline)
  show ?case
  proof (cases "gm_get r (pr_Name ref)")
    case (Some c)
    obtain rep errs where inner: "conflict_inner c (pr_Name ref) positions [] (cs_ConflictsWith c) = (rep, errs)" by force
    then show ?thesis
      using Cons Some conflict_inner_empty [of c "pr_Name ref" positions "cs_ConflictsWith c"] by auto
  qed (use Cons in auto)
qed simp

lemma build_positions_snoc:
  "build_positions (pipeline @ [ref]) =
    gm_put (pr_Name ref) (positions_of (build_positions pipeline) (pr_Name ref) @ [length pipeline]) (build_positions pipeline)"
  by (simp add: build_positions_def positions_of_def enumerate_append_eq)

lemma positions_of_snoc:
  "positions_of (build_positions (pipeline @ [ref])) name =
    (if name = pr_Name ref then positions_of (build_positions pipeline) name @ [length pipeline] else positions_of (build_positions pipeline) name)"
  by (cases "name = pr_Name ref") (simp_all add: build_positions_snoc positions_of_def gm.get_put)

lemma set_positions_of: "i \<in> set (positions_of (build_positions pipeline) name) \<longleftrightarrow> i < length pipeline \<and> pr_Name (pipeline ! i) = name"
proof (induction pipeline rule: rev_induct)
  case Nil
  then show ?case by (simp add: build_positions_def positions_of_def)
next
  case (snoc ref pipeline)
  show ?case
  proof (cases "i < length pipeline")
    case True
    then show ?thesis using snoc by (auto simp: positions_of_snoc nth_append)
  next
    case False
    then show ?thesis using snoc by (auto simp: positions_of_snoc nth_append)
  qed
qed

lemma positions_None: "gm_get (build_positions pipeline) name = None \<longleftrightarrow> (\<forall>ref\<in>set pipeline. pr_Name ref \<noteq> name)"
proof -
  have "gm_get (build_positions pipeline) name \<noteq> Some []"
  proof (induction pipeline rule: rev_induct)
    case Nil
    then show ?case by (simp add: build_positions_def)
  next
    case (snoc ref pipeline)
    then show ?case by (simp add: build_positions_snoc gm.get_put)
  qed
  then have "gm_get (build_positions pipeline) name = None \<longleftrightarrow> positions_of (build_positions pipeline) name = []"
    by (cases "gm_get (build_positions pipeline) name") (auto simp: positions_of_def)
  also have "\<dots> \<longleftrightarrow> (\<forall>i. i \<notin> set (positions_of (build_positions pipeline) name))" by (simp flip: set_empty2)
  also have "\<dots> \<longleftrightarrow> (\<forall>ref\<in>set pipeline. pr_Name ref \<noteq> name)" unfolding set_positions_of by (metis in_set_conv_nth)
  finally show ?thesis .
qed

lemma checkConflicts_empty:
  "checkConflicts r pipeline (build_positions pipeline) = [] \<longleftrightarrow>
    (\<forall>ref\<in>set pipeline. \<forall>c. gm_get r (pr_Name ref) = Some c \<longrightarrow> (\<forall>ref'\<in>set pipeline. pr_Name ref' \<notin> set (cs_ConflictsWith c)))"
  unfolding checkConflicts_def conflict_loop_empty positions_None by blast

lemma order_errors_empty:
  "order_errors r positions (i, ref) = [] \<longleftrightarrow> (\<forall>c. gm_get r (pr_Name ref) = Some c \<longrightarrow>
    (\<forall>before\<in>set (cs_MustRunBefore c). \<forall>p\<in>set (positions_of positions before). \<not> p \<le> i) \<and>
    (\<forall>after\<in>set (cs_MustRunAfter c). \<forall>p\<in>set (positions_of positions after). \<not> i \<le> p))"
  by (cases "gm_get r (pr_Name ref)") (auto simp: order_errors_def filter_empty_conv)

lemma checkOrdering_empty:
  "checkOrdering r pipeline (build_positions pipeline) = [] \<longleftrightarrow>
    (\<forall>i j c. i < length pipeline \<longrightarrow> j < length pipeline \<longrightarrow> gm_get r (pr_Name (pipeline ! i)) = Some c \<longrightarrow>
       (pr_Name (pipeline ! j) \<in> set (cs_MustRunBefore c) \<longrightarrow> i < j) \<and> (pr_Name (pipeline ! j) \<in> set (cs_MustRunAfter c) \<longrightarrow> j < i))"
proof -
  let ?pos = "positions_of (build_positions pipeline)"
  have "checkOrdering r pipeline (build_positions pipeline) = [] \<longleftrightarrow>
      (\<forall>iref\<in>set (enumerate 0 pipeline). order_errors r (build_positions pipeline) iref = [])"
    by (simp add: checkOrdering_def)
  also have "\<dots> \<longleftrightarrow> (\<forall>i<length pipeline. order_errors r (build_positions pipeline) (i, pipeline ! i) = [])"
    by (force simp: in_set_enumerate_eq)
  also have "\<dots> \<longleftrightarrow> (\<forall>i c. i < length pipeline \<longrightarrow> gm_get r (pr_Name (pipeline ! i)) = Some c \<longrightarrow>
        (\<forall>before\<in>set (cs_MustRunBefore c). \<forall>p\<in>set (?pos before). \<not> p \<le> i) \<and>
        (\<forall>after\<in>set (cs_MustRunAfter c). \<forall>p\<in>set (?pos after). \<not> i \<le> p))"
    unfolding order_errors_empty by blast
  also have "\<dots> \<longleftrightarrow> (\<forall>i j c. i < length pipeline \<longrightarrow> j < length pipeline \<longrightarrow> gm_get r (pr_Name (pipeline ! i)) = Some c \<longrightarrow>
       (pr_Name (pipeline ! j) \<in> set (cs_MustRunBefore c) \<longrightarrow> i < j) \<and> (pr_Name (pipeline ! j) \<in> set (cs_MustRunAfter c) \<longrightarrow> j < i))"
    unfolding Ball_def set_positions_of not_le by auto
  finally show ?thesis .
qed

lemma contention_inner_empty:
  "if \<forall>cl\<in>set claims. fst cl = a then contention_inner resource a [] claims = ([], []) else snd (contention_inner resource a [] claims) \<noteq> []"
  by (induction claims) (auto split: prod.splits if_splits)

definition no_contention :: "(string \<times> ResourceAccess) list \<Rightarrow> (string \<times> ResourceAccess) list \<Rightarrow> bool" where
  "no_contention all claims \<longleftrightarrow> (\<forall>cl\<in>set claims. snd cl = Exclusive \<longrightarrow> (\<forall>cl'\<in>set all. fst cl' = fst cl))"

lemma no_contention_Cons:
  "no_contention all (cl # claims) \<longleftrightarrow> (snd cl = Exclusive \<longrightarrow> (\<forall>cl'\<in>set all. fst cl' = fst cl)) \<and> no_contention all claims"
  by (simp add: no_contention_def)

lemma contention_outer_empty:
  "if no_contention all claims then contention_outer resource all [] claims = ([], []) else snd (contention_outer resource all [] claims) \<noteq> []"
proof (induction claims)
  case (Cons cl claims)
  obtain a access where cl: "cl = (a, access)" by force
  note inner = contention_inner_empty [where claims = all and a = a and resource = resource]
  show ?case
  proof (cases "access = Exclusive \<longrightarrow> (\<forall>cl'\<in>set all. fst cl' = a)")
    case True
    then have "contention_outer resource all [] (cl # claims) = contention_outer resource all [] claims"
      using inner by (auto simp: cl split: prod.splits)
    then show ?thesis using Cons True by (simp add: no_contention_Cons cl)
  next
    case False
    then have "snd (contention_inner resource a [] all) \<noteq> []" using inner by (metis (no_types, lifting))
    then have "snd (contention_outer resource all [] (cl # claims)) \<noteq> []" using False by (auto simp: cl split: prod.splits)
    moreover have "\<not> no_contention all (cl # claims)" using False by (auto simp: no_contention_Cons cl)
    ultimately show ?thesis by (simp only: if_False not_False_eq_True)
  qed
qed (simp add: no_contention_def)

lemma contention_loop_empty: "contention_loop m [] = [] \<longleftrightarrow> (\<forall>rc\<in>set m. no_contention (snd rc) (snd rc))"
proof (induction m)
  case (Cons rc m)
  obtain resource claims where rc: "rc = (resource, claims)" by force
  show ?case
    using Cons contention_outer_empty [of claims claims resource]
    by (cases "no_contention claims claims"; cases "contention_outer resource claims [] claims") (simp_all add: rc)
qed simp

section \<open>Claims\<close>

definition claims_of :: "(string, (string \<times> ResourceAccess) list) gomap \<Rightarrow> string \<Rightarrow> (string \<times> ResourceAccess) list" where
  "claims_of m resource = (case gm_get m resource of None \<Rightarrow> [] | Some cs \<Rightarrow> cs)"

lemma claims_of_add: "claims_of (add_claim plugin rc m) resource = claims_of m resource @ (if rc_Name rc = resource then [(plugin, rc_Access rc)] else [])"
  by (simp add: claims_of_def add_claim_def gm.get_put)

lemma ok_add_claims: "gm_ok m \<Longrightarrow> gm_ok (fold (add_claim plugin) rcs m)"
  by (induction rcs arbitrary: m) (auto simp: add_claim_def intro: gm.ok_put)

lemma set_claims_of_fold:
  "set (claims_of (fold (add_claim plugin) rcs m) resource) =
    set (claims_of m resource) \<union> {(plugin, rc_Access rc) | rc. rc \<in> set rcs \<and> rc_Name rc = resource}"
  by (induction rcs arbitrary: m) (auto simp: claims_of_add)

lemma collect_claims_facts:
  "gm_ok (collect_claims r pipeline) \<and>
    set (claims_of (collect_claims r pipeline) resource) =
      {(pr_Name ref, rc_Access rc) | ref rc c. ref \<in> set pipeline \<and> gm_get r (pr_Name ref) = Some c \<and> rc \<in> set (cs_Resources c) \<and> rc_Name rc = resource}"
proof (induction pipeline rule: rev_induct)
  case Nil
  then show ?case by (simp add: collect_claims_def claims_of_def)
next
  case (snoc ref pipeline)
  then show ?case
    by (cases "gm_get r (pr_Name ref)") (auto simp: collect_claims_def ok_add_claims set_claims_of_fold)
qed

lemma checkResources_empty:
  "checkResources r pipeline = [] \<longleftrightarrow>
    (\<forall>ref\<in>set pipeline. \<forall>ref'\<in>set pipeline. \<forall>c c'. pr_Name ref \<noteq> pr_Name ref' \<longrightarrow>
       gm_get r (pr_Name ref) = Some c \<longrightarrow> gm_get r (pr_Name ref') = Some c' \<longrightarrow>
       (\<forall>rc\<in>set (cs_Resources c). \<forall>rc'\<in>set (cs_Resources c'). rc_Name rc = rc_Name rc' \<longrightarrow> rc_Access rc \<noteq> Exclusive))"
proof -
  let ?m = "collect_claims r pipeline"
  have ok: "gm_ok ?m" by (rule conjunct1 [OF collect_claims_facts])
  have mem: "(p, acc) \<in> set (claims_of ?m resource) \<longleftrightarrow>
      (\<exists>ref rc c. ref \<in> set pipeline \<and> gm_get r (pr_Name ref) = Some c \<and> rc \<in> set (cs_Resources c) \<and> rc_Name rc = resource \<and>
        p = pr_Name ref \<and> acc = rc_Access rc)" for p acc resource
    using conjunct2 [OF collect_claims_facts, of r pipeline resource] by blast
  have "(\<forall>rc\<in>set ?m. no_contention (snd rc) (snd rc)) \<longleftrightarrow> (\<forall>resource. no_contention (claims_of ?m resource) (claims_of ?m resource))"
  proof (intro iffI allI ballI)
    fix resource
    assume "\<forall>rc\<in>set ?m. no_contention (snd rc) (snd rc)"
    then show "no_contention (claims_of ?m resource) (claims_of ?m resource)"
      by (cases "gm_get ?m resource") (simp add: claims_of_def no_contention_def, force simp: claims_of_def dest: gm_get_SomeD)
  next
    fix rc
    assume all: "\<forall>resource. no_contention (claims_of ?m resource) (claims_of ?m resource)" and "rc \<in> set ?m"
    then have "claims_of ?m (fst rc) = snd rc" using gm_get_iff [OF ok, of "fst rc" "snd rc"] by (simp add: claims_of_def)
    then show "no_contention (snd rc) (snd rc)" using all by metis
  qed
  then have "checkResources r pipeline = [] \<longleftrightarrow>
      (\<forall>resource. \<forall>cl\<in>set (claims_of ?m resource). snd cl = Exclusive \<longrightarrow> (\<forall>cl'\<in>set (claims_of ?m resource). fst cl' = fst cl))"
    by (simp add: checkResources_def contention_loop_empty no_contention_def)
  also have "\<dots> \<longleftrightarrow> (\<forall>ref\<in>set pipeline. \<forall>ref'\<in>set pipeline. \<forall>c c'. pr_Name ref \<noteq> pr_Name ref' \<longrightarrow>
       gm_get r (pr_Name ref) = Some c \<longrightarrow> gm_get r (pr_Name ref') = Some c' \<longrightarrow>
       (\<forall>rc\<in>set (cs_Resources c). \<forall>rc'\<in>set (cs_Resources c'). rc_Name rc = rc_Name rc' \<longrightarrow> rc_Access rc \<noteq> Exclusive))"
    (is "?L \<longleftrightarrow> ?R")
  proof
    assume L: ?L
    show ?R
    proof (intro ballI allI impI notI)
      fix ref ref' c c' rc rc'
      assume h: "ref \<in> set pipeline" "ref' \<in> set pipeline" "pr_Name ref \<noteq> pr_Name ref'" "gm_get r (pr_Name ref) = Some c"
        "gm_get r (pr_Name ref') = Some c'" "rc \<in> set (cs_Resources c)" "rc' \<in> set (cs_Resources c')" "rc_Name rc = rc_Name rc'" "rc_Access rc = Exclusive"
      have "(pr_Name ref, Exclusive) \<in> set (claims_of ?m (rc_Name rc))" "(pr_Name ref', rc_Access rc') \<in> set (claims_of ?m (rc_Name rc))"
        unfolding mem using h by metis+
      then have "pr_Name ref' = pr_Name ref" using L by fastforce
      then show False using h(3) by simp
    qed
  next
    assume R: ?R
    show ?L
    proof (intro allI ballI impI)
      fix resource cl cl'
      assume h: "cl \<in> set (claims_of ?m resource)" "snd cl = Exclusive" "cl' \<in> set (claims_of ?m resource)"
      obtain ref rc c where a: "ref \<in> set pipeline" "gm_get r (pr_Name ref) = Some c" "rc \<in> set (cs_Resources c)" "rc_Name rc = resource"
          "fst cl = pr_Name ref" "snd cl = rc_Access rc" using h(1) mem [of "fst cl" "snd cl" resource] by auto
      obtain ref' rc' c' where b: "ref' \<in> set pipeline" "gm_get r (pr_Name ref') = Some c'" "rc' \<in> set (cs_Resources c')" "rc_Name rc' = resource"
          "fst cl' = pr_Name ref'" using h(3) mem [of "fst cl'" "snd cl'" resource] by auto
      show "fst cl' = fst cl" using R a b h(2) by metis
    qed
  qed
  finally show ?thesis .
qed

text \<open>
  C11. The five phases of pipeline validation together decide validity: no error is returned exactly
  when the pipeline is valid, although conflicts and contentions between a pair are reported once.
\<close>

theorem ValidatePipeline_iff: "ValidatePipeline r pipeline = [] \<longleftrightarrow> valid_pipeline r pipeline"
  unfolding ValidatePipeline_def Let_def append_is_Nil_conv checkUnknown_empty checkConfigs_empty checkConflicts_empty
    checkOrdering_empty checkResources_empty valid_pipeline_def by (simp only: conj_assoc)

text \<open>A registration that fails leaves no builder behind.\<close>

lemma failed_registration_rolls_back:
  assumes "RegisterWithConstraints name builder c r = (r', Some err)" and "gm_ok (py_builders r)"
  shows "gm_get (py_builders r') k = gm_get (py_builders r) k \<and> py_Validation r' = py_Validation r"
  using assms
  by (auto simp: RegisterWithConstraints_def Payload_Register_def Validation_Register_def Let_def gm.get_del gm.get_put gm.ok_put
      split: if_splits prod.splits option.splits)

end
