(* ===== verification/Checkpoints.thy ===== *)
theory Checkpoints
  imports Replay_Engine Object_Names
begin

text \<open>
  Replay checkpoints (\<^verbatim>\<open>internal/plugin/replay/checkpoint.go\<close>): the checkpointer with its flush to a
  temporary file and rename, and the result handler that records progress. The file system is a map
  from paths to contents; how far a write gets before it fails or the process dies is an argument.
  JSON encoding is a parameter.
\<close>

section \<open>State\<close>

record CheckpointEngineParams =
  cep_RateMode :: RateMode
  cep_RatePerSecond :: f64
  cep_TimeScale :: f64
  cep_Concurrency :: int
  cep_StorageType :: string

record Checkpoint =
  cp_ReplayID :: string
  cp_CaptureID :: string
  cp_LastObjectKey :: string
  cp_LastRequestID :: string
  cp_RequestsSent :: int
  cp_RequestsErrored :: int
  cp_RequestsFiltered :: int
  cp_BytesProcessed :: int
  cp_StartTime :: time
  cp_LastUpdate :: time
  cp_ElapsedDuration :: duration
  cp_EngineParams :: CheckpointEngineParams

record checkpoint_codec =
  cc_marshal :: "Checkpoint \<Rightarrow> string option"
  cc_unmarshal :: "string \<Rightarrow> Checkpoint option"

type_synonym filesystem = "(string, string) gomap"

record Checkpointer =
  ck_dir :: string
  ck_interval :: duration
  ck_current :: "Checkpoint option"
  ck_dirty :: bool
  ck_started :: bool
  ck_stopped :: bool

datatype checkpoint_error =
    DirRequired | MkdirFailed | ReadCheckpointFailed | UnmarshalFailed | CheckpointMarshalFailed | CreateFailed | WriteTmpFailed | FsyncFailed | CloseTmpFailed
  | RenameFailed | RemoveFailed | StopPanics

definition NewCheckpointer :: "string \<Rightarrow> duration \<Rightarrow> bool \<Rightarrow> checkpoint_error + Checkpointer" where
  "NewCheckpointer dir interval mkdir_ok =
    (if dir = [] then Inl DirRequired
     else let interval' = (if interval \<le> 0 then 30 * second else interval)
       in if \<not> mkdir_ok then Inl MkdirFailed
          else Inr \<lparr>ck_dir = dir, ck_interval = interval', ck_current = None, ck_dirty = False, ck_started = False, ck_stopped = False\<rparr>)"

definition checkpointPath :: "Checkpointer \<Rightarrow> string \<Rightarrow> string" where
  "checkpointPath c replayID = path_join [ck_dir c, ''replay-'' @ replayID @ ''.checkpoint.json'']"

section \<open>Files\<close>

text \<open>
  How far \<^verbatim>\<open>writeCheckpoint\<close> gets: each step may be the one that fails, or the last before a crash; a
  failed write leaves a prefix of the data. Rename replaces the target in one step.
\<close>

datatype write_progress = StopsAtOpen | StopsInWrite nat | StopsAtSync | StopsAtClose | StopsAtRename | Completes

definition writeCheckpoint ::
  "checkpoint_codec \<Rightarrow> Checkpointer \<Rightarrow> Checkpoint \<Rightarrow> write_progress \<Rightarrow> filesystem \<Rightarrow> filesystem \<times> checkpoint_error option" where
  "writeCheckpoint codec c cp progress fs =
    (case cc_marshal codec cp of
       None \<Rightarrow> (fs, Some CheckpointMarshalFailed)
     | Some data \<Rightarrow>
         let path = checkpointPath c (cp_ReplayID cp); tmpPath = path @ ''.tmp''
         in case progress of
              StopsAtOpen \<Rightarrow> (fs, Some CreateFailed)
            | StopsInWrite n \<Rightarrow> (gm_put tmpPath (take n data) fs, Some WriteTmpFailed)
            | StopsAtSync \<Rightarrow> (gm_put tmpPath data fs, Some FsyncFailed)
            | StopsAtClose \<Rightarrow> (gm_put tmpPath data fs, Some CloseTmpFailed)
            | StopsAtRename \<Rightarrow> (gm_put tmpPath data fs, Some RenameFailed)
            | Completes \<Rightarrow> (gm_put path data (gm_del tmpPath fs), None))"

definition Checkpointer_flush ::
  "checkpoint_codec \<Rightarrow> write_progress \<Rightarrow> Checkpointer \<Rightarrow> filesystem \<Rightarrow> Checkpointer \<times> filesystem \<times> checkpoint_error option" where
  "Checkpointer_flush codec progress c fs =
    (case ck_current c of
       None \<Rightarrow> (c, fs, None)
     | Some cp \<Rightarrow>
         if \<not> ck_dirty c then (c, fs, None)
         else (case writeCheckpoint codec c cp progress fs of (fs', err) \<Rightarrow> (c\<lparr>ck_dirty := False\<rparr>, fs', err)))"



definition Checkpointer_Update :: "time \<Rightarrow> (Checkpoint \<Rightarrow> Checkpoint) \<Rightarrow> Checkpointer \<Rightarrow> Checkpointer" where
  "Checkpointer_Update now fn c =
    (case ck_current c of
       None \<Rightarrow> c
     | Some cp \<Rightarrow> c\<lparr>ck_current := Some ((fn cp)\<lparr>cp_LastUpdate := now\<rparr>), ck_dirty := True\<rparr>)"


text \<open>A second Stop closes a closed channel.\<close>

definition Checkpointer_Stop ::
  "checkpoint_codec \<Rightarrow> write_progress \<Rightarrow> Checkpointer \<Rightarrow> filesystem \<Rightarrow> Checkpointer \<times> filesystem \<times> checkpoint_error option" where
  "Checkpointer_Stop codec progress c fs =
    (if \<not> ck_started c then (c, fs, None)
     else if ck_stopped c then (c, fs, Some StopPanics)
     else Checkpointer_flush codec progress (c\<lparr>ck_stopped := True\<rparr>) fs)"

definition Checkpointer_Delete :: "string \<Rightarrow> bool \<Rightarrow> Checkpointer \<Rightarrow> filesystem \<Rightarrow> filesystem \<times> checkpoint_error option" where
  "Checkpointer_Delete replayID remove_ok c fs =
    (let path = checkpointPath c replayID
     in if gm_get fs path = None then (fs, None)
        else if \<not> remove_ok then (fs, Some RemoveFailed)
        else (gm_del path fs, None))"

section \<open>The result handler\<close>

definition record_result :: "duration \<Rightarrow> Result \<Rightarrow> Checkpoint \<Rightarrow> Checkpoint" where
  "record_result elapsed res cp =
    (let cp1 = (if r_Error res \<noteq> None then cp\<lparr>cp_RequestsErrored := i64 (cp_RequestsErrored cp + 1)\<rparr>
                else cp\<lparr>cp_RequestsSent := i64 (cp_RequestsSent cp + 1), cp_LastRequestID := r_RequestID res,
                        cp_BytesProcessed := i64 (cp_BytesProcessed cp + int (length (r_ResponseBody res)))\<rparr>)
     in cp1\<lparr>cp_ElapsedDuration := elapsed\<rparr>)"

text \<open>The state of the handler: the inner handler, the checkpointer and the time it was created.\<close>

definition Checkpoint_HandleResult ::
  "'h result_handler \<Rightarrow> time \<Rightarrow> 'h \<times> Checkpointer \<times> time \<Rightarrow> Result \<Rightarrow> ('h \<times> Checkpointer \<times> time) \<times> go_error option" where
  "Checkpoint_HandleResult inner now st res =
    (case st of (h, c, startTime) \<Rightarrow>
      (case rh_HandleResult inner h res of
         (h', Some err) \<Rightarrow> ((h', c, startTime), Some err)
       | (h', None) \<Rightarrow> ((h', Checkpointer_Update now (record_result (time_sub now startTime) res) c, startTime), None)))"

definition UpdateObjectKey :: "string \<Rightarrow> time \<Rightarrow> Checkpointer \<Rightarrow> Checkpointer" where
  "UpdateObjectKey key now c = Checkpointer_Update now (\<lambda>cp. cp\<lparr>cp_LastObjectKey := key\<rparr>) c"

definition IncrementFiltered :: "int \<Rightarrow> time \<Rightarrow> Checkpointer \<Rightarrow> Checkpointer" where
  "IncrementFiltered n now c = Checkpointer_Update now (\<lambda>cp. cp\<lparr>cp_RequestsFiltered := i64 (cp_RequestsFiltered cp + n)\<rparr>) c"

definition Checkpoint_Summarize :: "'h result_handler \<Rightarrow> 'h \<times> Checkpointer \<times> time \<Rightarrow> go_error + Summary" where
  "Checkpoint_Summarize inner st = rh_Summarize inner (fst st)"

section \<open>Properties\<close>


















section \<open>A concrete run\<close>






text \<open>A flush that fails clears the dirty flag, so a later Stop saves nothing and reports success.\<close>

lemma failed_flush_not_retried:
  assumes "ck_current c = Some cp" and "ck_dirty c" and "ck_started c" and "\<not> ck_stopped c"
    and "Checkpointer_flush codec (StopsInWrite n) c fs = (c', fs', Some err)"
  shows "Checkpointer_Stop codec Completes c' fs' = (c'\<lparr>ck_stopped := True\<rparr>, fs', None)"
  using assms by (auto simp: Checkpointer_flush_def Checkpointer_Stop_def split: prod.splits)

end
