(* ===== verification/Dataset.thy ===== *)
theory Dataset
  imports Object_Storage Replay_Engine
begin

text \<open>
  Presharding of captures (\<^verbatim>\<open>internal/dataset/preshard.go\<close>) and dataset manifests
  (\<^verbatim>\<open>internal/dataset/manifest.go\<close>). A storage backend is a record of operations on one world, in which a
  writer is named by the capture ID it was created for; the reader is the sequence of its results,
  whose end is \<^verbatim>\<open>ErrReaderDone\<close>; the digest and JSON encoding are parameters.
\<close>

section \<open>Manifests\<close>

record Manifest =
  mf_FormatVersion :: int
  mf_CaptureID :: string
  mf_RecordCount :: int
  mf_SHA256 :: string
  mf_ShardIndex :: "int option"
  mf_ShardCount :: "int option"
  mf_SourceCaptureID :: string
  mf_CreatedAt :: time

definition ManifestFormatVersion :: int where
  "ManifestFormatVersion = 1"

datatype manifest_error = NoFormatVersion | NewerFormatVersion int | NegativeRecordCount int | ManifestSyntax

definition Manifest_Validate :: "Manifest \<Rightarrow> manifest_error option" where
  "Manifest_Validate m =
    (if mf_FormatVersion m \<le> 0 then Some NoFormatVersion
     else if ManifestFormatVersion < mf_FormatVersion m then Some (NewerFormatVersion (mf_FormatVersion m))
     else if mf_RecordCount m < 0 then Some (NegativeRecordCount (mf_RecordCount m))
     else None)"

definition ParseManifest :: "(string \<Rightarrow> Manifest option) \<Rightarrow> string \<Rightarrow> manifest_error + Manifest" where
  "ParseManifest unmarshal data =
    (case unmarshal data of
       None \<Rightarrow> Inl ManifestSyntax
     | Some m \<Rightarrow> (case Manifest_Validate m of Some err \<Rightarrow> Inl err | None \<Rightarrow> Inr m))"

section \<open>Presharding\<close>

definition ShardSliceCaptureID :: "string \<Rightarrow> int \<Rightarrow> int \<Rightarrow> string" where
  "ShardSliceCaptureID captureID index cnt = captureID @ ''/shards/'' @ itoa index @ ''-of-'' @ itoa cnt"

record 'f writer_factory =
  wf_NewWriter :: "string \<Rightarrow> 'f \<Rightarrow> 'f \<times> write_error option"
  wf_Write :: "string \<Rightarrow> CapturedRequest \<Rightarrow> 'f \<Rightarrow> 'f \<times> write_error option"
  wf_Flush :: "string \<Rightarrow> 'f \<Rightarrow> 'f \<times> write_error option"
  wf_Close :: "string \<Rightarrow> 'f \<Rightarrow> 'f \<times> write_error option"
  wf_PutManifest :: "(string \<Rightarrow> Manifest \<Rightarrow> 'f \<Rightarrow> 'f \<times> write_error option) option"

record PreshardResult =
  ps_Total :: int
  ps_ShardCounts :: "int list"

datatype preshard_error =
    BadShardCount int | CaptureIDRequired | ReaderOpenFailed go_error | CreateWriterFailed nat write_error | ReadCaptureFailed go_error
  | WriteShardFailed nat write_error | DigestMarshalFailed | FlushShardFailed nat write_error | CloseShardFailed nat write_error
  | WriteManifestFailed nat write_error

definition slice_of :: "string \<Rightarrow> nat \<Rightarrow> nat \<Rightarrow> string" where
  "slice_of captureID n i = ShardSliceCaptureID captureID (int i) (int n)"

fun closeWriters :: "'f writer_factory \<Rightarrow> string list \<Rightarrow> 'f \<Rightarrow> 'f" where
  "closeWriters fac [] f = f"
| "closeWriters fac (cid # cids) f = closeWriters fac cids (fst (wf_Close fac cid f))"

fun create_writers :: "'f writer_factory \<Rightarrow> string list \<Rightarrow> string list \<Rightarrow> nat \<Rightarrow> 'f \<Rightarrow> 'f \<times> preshard_error option" where
  "create_writers fac created [] i f = (f, None)"
| "create_writers fac created (cid # cids) i f =
    (case wf_NewWriter fac cid f of
       (f', Some err) \<Rightarrow> (closeWriters fac created f', Some (CreateWriterFailed i err))
     | (f', None) \<Rightarrow> create_writers fac (created @ [cid]) cids (i + 1) f')"

text \<open>The digest of a slice is kept as the lines written into it.\<close>

record preshard_state =
  pst_counts :: "int list"
  pst_total :: int
  pst_digests :: "string list"

fun route_loop ::
  "(CapturedRequest \<Rightarrow> string option) \<Rightarrow> 'f writer_factory \<Rightarrow> (nat \<Rightarrow> string) \<Rightarrow> nat \<Rightarrow> reader \<Rightarrow> preshard_state \<Rightarrow> 'f \<Rightarrow>
    'f \<times> (preshard_error + preshard_state)" where
  "route_loop marshal fac slc n [] st f = (f, Inr st)"
| "route_loop marshal fac slc n (Inl err # rest) st f =
    (if err = EOF then (f, Inr st) else (closeWriters fac (map slc [0..<n]) f, Inl (ReadCaptureFailed err)))"
| "route_loop marshal fac slc n (Inr req # rest) st f =
    (let shard = nat (ShardIndexOf (cr_ID req) (int n))
     in case wf_Write fac (slc shard) req f of
          (f', Some err) \<Rightarrow> (closeWriters fac (map slc [0..<n]) f', Inl (WriteShardFailed shard err))
        | (f', None) \<Rightarrow>
            (case marshal req of
               None \<Rightarrow> (closeWriters fac (map slc [0..<n]) f', Inl DigestMarshalFailed)
             | Some line \<Rightarrow>
                 route_loop marshal fac slc n rest
                   \<lparr>pst_counts = (pst_counts st)[shard := i64 (pst_counts st ! shard + 1)], pst_total = i64 (pst_total st + 1),
                    pst_digests = (pst_digests st)[shard := pst_digests st ! shard @ line @ [newline]]\<rparr> f'))"

fun close_loop :: "'f writer_factory \<Rightarrow> (nat \<Rightarrow> string) \<Rightarrow> nat \<Rightarrow> nat list \<Rightarrow> 'f \<Rightarrow> 'f \<times> preshard_error option" where
  "close_loop fac slc n [] f = (f, None)"
| "close_loop fac slc n (i # is) f =
    (case wf_Flush fac (slc i) f of
       (f1, Some err) \<Rightarrow> (closeWriters fac (map slc [0..<n]) f1, Some (FlushShardFailed i err))
     | (f1, None) \<Rightarrow>
         (case wf_Close fac (slc i) f1 of
            (f2, Some err) \<Rightarrow> (closeWriters fac (map slc [i + 1..<n]) f2, Some (CloseShardFailed i err))
          | (f2, None) \<Rightarrow> close_loop fac slc n is f2))"

definition slice_manifest :: "(string \<Rightarrow> string) \<Rightarrow> string \<Rightarrow> nat \<Rightarrow> time \<Rightarrow> preshard_state \<Rightarrow> nat \<Rightarrow> Manifest" where
  "slice_manifest sha256 captureID n now st i =
    \<lparr>mf_FormatVersion = ManifestFormatVersion, mf_CaptureID = slice_of captureID n i, mf_RecordCount = pst_counts st ! i,
     mf_SHA256 = sha256 (pst_digests st ! i), mf_ShardIndex = Some (i32 (int i)), mf_ShardCount = Some (i32 (int n)),
     mf_SourceCaptureID = captureID, mf_CreatedAt = now\<rparr>"

fun manifest_loop ::
  "(string \<Rightarrow> Manifest \<Rightarrow> 'f \<Rightarrow> 'f \<times> write_error option) \<Rightarrow> (nat \<Rightarrow> Manifest) \<Rightarrow> nat list \<Rightarrow> 'f \<Rightarrow> 'f \<times> preshard_error option" where
  "manifest_loop put mk [] f = (f, None)"
| "manifest_loop put mk (i # is) f =
    (case put (mf_CaptureID (mk i)) (mk i) f of
       (f', Some err) \<Rightarrow> (f', Some (WriteManifestFailed i err))
     | (f', None) \<Rightarrow> manifest_loop put mk is f')"

definition Preshard ::
  "(CapturedRequest \<Rightarrow> string option) \<Rightarrow> (string \<Rightarrow> string) \<Rightarrow> time \<Rightarrow> go_error option \<Rightarrow> reader \<Rightarrow> 'f writer_factory \<Rightarrow> string \<Rightarrow> int \<Rightarrow>
    'f \<Rightarrow> 'f \<times> (preshard_error + PreshardResult)" where
  "Preshard marshal sha256 now openErr rd fac captureID shardCount f =
    (if shardCount < 2 then (f, Inl (BadShardCount shardCount))
     else if captureID = [] then (f, Inl CaptureIDRequired)
     else case openErr of
       Some err \<Rightarrow> (f, Inl (ReaderOpenFailed err))
     | None \<Rightarrow>
         let n = nat shardCount; slc = slice_of captureID n
         in case create_writers fac [] (map slc [0..<n]) 0 f of
              (f1, Some err) \<Rightarrow> (f1, Inl err)
            | (f1, None) \<Rightarrow>
                (case route_loop marshal fac slc n rd \<lparr>pst_counts = replicate n 0, pst_total = 0, pst_digests = replicate n []\<rparr> f1 of
                   (f2, Inl err) \<Rightarrow> (f2, Inl err)
                 | (f2, Inr st) \<Rightarrow>
                     (case close_loop fac slc n [0..<n] f2 of
                        (f3, Some err) \<Rightarrow> (f3, Inl err)
                      | (f3, None) \<Rightarrow>
                          (case wf_PutManifest fac of
                             None \<Rightarrow> (f3, Inr \<lparr>ps_Total = pst_total st, ps_ShardCounts = pst_counts st\<rparr>)
                           | Some put \<Rightarrow>
                               (case manifest_loop put (slice_manifest sha256 captureID n now st) [0..<n] f3 of
                                  (f4, Some err) \<Rightarrow> (f4, Inl err)
                                | (f4, None) \<Rightarrow> (f4, Inr \<lparr>ps_Total = pst_total st, ps_ShardCounts = pst_counts st\<rparr>))))))"

end
