(* ===== verification/Dataset_Props.thy ===== *)
theory Dataset_Props
  imports Dataset
begin

text \<open>
  Presharding is faithful: every slice holds, in order, exactly the requests its shard owns, and the
  result counts them. And it has a side effect that the reader of the source does not expect: the
  objects of the slices lie under the prefix of the capture they were made from.
\<close>

section \<open>Slices\<close>

lemma slice_of_inject: "slice_of captureID n i = slice_of captureID n j \<longleftrightarrow> i = j"
proof
  assume "slice_of captureID n i = slice_of captureID n j"
  then have "itoa (int i) @ ''-of-'' @ itoa (int n) = itoa (int j) @ ''-of-'' @ itoa (int n)"
    unfolding slice_of_def ShardSliceCaptureID_def by (simp only: same_append_eq append.assoc)
  then have "itoa (int i) = itoa (int j)" by (simp only: append_same_eq flip: append.assoc)
  then show "i = j" by simp
qed simp

text \<open>
  A backend keeps the requests that each writer accepted: a new writer starts with none, a write that
  succeeds appends to its own writer only, and flushing, closing and manifests change none.
\<close>

definition factory_law :: "'f writer_factory \<Rightarrow> ('f \<Rightarrow> string \<Rightarrow> CapturedRequest list) \<Rightarrow> bool" where
  "factory_law fac logs \<longleftrightarrow>
    (\<forall>cid f f'. wf_NewWriter fac cid f = (f', None) \<longrightarrow> logs f' = (logs f)(cid := [])) \<and>
    (\<forall>cid r f f'. wf_Write fac cid r f = (f', None) \<longrightarrow> logs f' = (logs f)(cid := logs f cid @ [r])) \<and>
    (\<forall>cid f f'. wf_Flush fac cid f = (f', None) \<longrightarrow> logs f' = logs f) \<and>
    (\<forall>cid f f'. wf_Close fac cid f = (f', None) \<longrightarrow> logs f' = logs f) \<and>
    (\<forall>put cid m f f'. wf_PutManifest fac = Some put \<longrightarrow> put cid m f = (f', None) \<longrightarrow> logs f' = logs f)"

lemma create_writers_logs:
  assumes "factory_law fac logs"
  shows "create_writers fac created cids i f = (f', None) \<Longrightarrow> logs f' cid = (if cid \<in> set cids then [] else logs f cid)"
proof (induction cids arbitrary: created i f)
  case (Cons c cids)
  then obtain f1 where f1: "wf_NewWriter fac c f = (f1, None)" "create_writers fac (created @ [c]) cids (i + 1) f1 = (f', None)"
    by (auto split: prod.splits option.splits)
  then have "logs f1 = (logs f)(c := [])" using assms unfolding factory_law_def by blast
  then show ?case using Cons.IH [OF f1(2)] by simp
qed simp

lemma close_loop_logs:
  assumes "factory_law fac logs"
  shows "close_loop fac slc n is f = (f', None) \<Longrightarrow> logs f' = logs f"
proof (induction "is" arbitrary: f)
  case (Cons i "is")
  then obtain f1 f2 where s: "wf_Flush fac (slc i) f = (f1, None)" "wf_Close fac (slc i) f1 = (f2, None)" "close_loop fac slc n is f2 = (f', None)"
    by (auto split: prod.splits option.splits)
  have "logs f1 = logs f" "logs f2 = logs f1" using assms s(1,2) unfolding factory_law_def by blast+
  then show ?case using Cons.IH [OF s(3)] by simp
qed simp

lemma manifest_loop_logs:
  assumes "factory_law fac logs" and "wf_PutManifest fac = Some put"
  shows "manifest_loop put mk is f = (f', None) \<Longrightarrow> logs f' = logs f"
proof (induction "is" arbitrary: f)
  case (Cons i "is")
  then obtain f1 where s: "put (mf_CaptureID (mk i)) (mk i) f = (f1, None)" "manifest_loop put mk is f1 = (f', None)"
    by (auto split: prod.splits option.splits)
  have "logs f1 = logs f" using assms s(1) unfolding factory_law_def by blast
  then show ?case using Cons.IH [OF s(2)] by simp
qed simp

abbreviation routed :: "nat \<Rightarrow> nat \<Rightarrow> CapturedRequest list \<Rightarrow> CapturedRequest list" where
  "routed n i reqs \<equiv> filter (\<lambda>r. ShardIndexOf (cr_ID r) (int n) = int i) reqs"

text \<open>The loop appends to each slice the requests that hash to it and counts them.\<close>

lemma route_loop_logs:
  assumes law: "factory_law fac logs" and n: "1 < n" "int n < 2 ^ 63" and inj: "\<And>i j. slc i = slc j \<longleftrightarrow> i = j"
  shows "route_loop marshal fac slc n (map Inr reqs) st f = (f', Inr st') \<Longrightarrow> length (pst_counts st) = n \<Longrightarrow> i < n \<Longrightarrow>
    logs f' (slc i) = logs f (slc i) @ routed n i reqs \<and> length (pst_counts st') = n \<and>
    pst_counts st' ! i = foldl (\<lambda>c _. i64 (c + 1)) (pst_counts st ! i) (routed n i reqs) \<and>
    pst_total st' = foldl (\<lambda>c _. i64 (c + 1)) (pst_total st) reqs"
proof (induction reqs arbitrary: st f)
  case (Cons req reqs)
  let ?shard = "nat (ShardIndexOf (cr_ID req) (int n))"
  have range: "0 \<le> ShardIndexOf (cr_ID req) (int n)" "?shard < n"
    using shards.index_range [of "int n" "cr_ID req"] n by (auto simp: nat_less_iff)
  obtain f1 line where w: "wf_Write fac (slc ?shard) req f = (f1, None)" "marshal req = Some line"
    using Cons.prems(1) by (auto simp: Let_def split: prod.splits option.splits)
  define st1 where "st1 = \<lparr>pst_counts = (pst_counts st)[?shard := i64 (pst_counts st ! ?shard + 1)], pst_total = i64 (pst_total st + 1),
    pst_digests = (pst_digests st)[?shard := pst_digests st ! ?shard @ line @ [newline]]\<rparr>"
  have rec: "route_loop marshal fac slc n (map Inr reqs) st1 f1 = (f', Inr st')" using Cons.prems(1) w by (simp add: Let_def st1_def)
  have "length (pst_counts st1) = n" using Cons.prems(2) by (simp add: st1_def)
  note IH = Cons.IH [OF rec this Cons.prems(3)]
  have "logs f1 = (logs f)(slc ?shard := logs f (slc ?shard) @ [req])" using law w(1) unfolding factory_law_def by blast
  then have "logs f1 (slc i) = logs f (slc i) @ (if i = ?shard then [req] else [])" by (simp add: inj)
  moreover have "pst_counts st1 ! i = (if i = ?shard then i64 (pst_counts st ! i + 1) else pst_counts st ! i)"
    using Cons.prems(2,3) by (simp add: st1_def)
  moreover have "routed n i (req # reqs) = (if i = ?shard then [req] else []) @ routed n i reqs" using range by auto
  ultimately show ?case using IH by (simp add: st1_def)
qed simp

lemma foldl_count: "int (length xs) + c < 2 ^ 63 \<Longrightarrow> 0 \<le> c \<Longrightarrow> foldl (\<lambda>c _. i64 (c + 1)) c xs = c + int (length xs)"
proof (induction xs arbitrary: c)
  case (Cons x xs)
  have "i64 (c + 1) = c + 1" using Cons.prems by (intro i64_id) (simp add: in_i64_def)
  then show ?case using Cons by simp
qed simp

text \<open>
  C13. Presharding partitions a capture the way the replay engines do: when it succeeds, the writer of
  slice i has accepted, in order, exactly the requests of the capture that shard i of the same count
  owns, so that replaying the slice and replaying the capture with that shard see the same requests;
  the result counts each slice and the total.
\<close>

theorem preshard_slices:
  assumes law: "factory_law fac logs"
    and run: "Preshard marshal sha256 now openErr (map Inr reqs) fac captureID n f = (f', Inr res)"
    and bounds: "n < 2 ^ 63" "int (length reqs) < 2 ^ 63" and i: "0 \<le> i" "i < n"
  shows "logs f' (ShardSliceCaptureID captureID i n) = filter (\<lambda>r. ShardOwns (cr_ID r) i n) reqs \<and>
    ps_ShardCounts res ! nat i = int (length (filter (\<lambda>r. ShardOwns (cr_ID r) i n) reqs)) \<and>
    ps_Total res = int (length reqs) \<and> int (length (ps_ShardCounts res)) = n"
proof -
  let ?slc = "slice_of captureID (nat n)" and ?st = "\<lparr>pst_counts = replicate (nat n) 0, pst_total = 0, pst_digests = replicate (nat n) []\<rparr>"
  have n: "2 \<le> n" using run by (auto simp: Preshard_def split: if_splits)
  obtain f1 f2 f3 st where s: "create_writers fac [] (map ?slc [0..<nat n]) 0 f = (f1, None)"
      "route_loop marshal fac ?slc (nat n) (map Inr reqs) ?st f1 = (f2, Inr st)" "close_loop fac ?slc (nat n) [0..<nat n] f2 = (f3, None)"
      "res = \<lparr>ps_Total = pst_total st, ps_ShardCounts = pst_counts st\<rparr>"
      "wf_PutManifest fac = None \<and> f' = f3 \<or>
       (\<exists>put. wf_PutManifest fac = Some put \<and> manifest_loop put (slice_manifest sha256 captureID (nat n) now st) [0..<nat n] f3 = (f', None))"
    using run by (auto simp: Preshard_def Let_def split: if_splits option.splits prod.splits sum.splits)
  have own: "ShardOwns (cr_ID r) i n \<longleftrightarrow> ShardIndexOf (cr_ID r) n = i" for r using shards.owns_iff n bounds(1) i by simp
  have rt: "routed (nat n) (nat i) reqs = filter (\<lambda>r. ShardOwns (cr_ID r) i n) reqs" using n i by (simp add: own)
  have "1 < nat n" "int (nat n) < 2 ^ 63" using n bounds(1) by simp_all
  from route_loop_logs [OF law this slice_of_inject s(2), of "nat i"]
  have r: "logs f2 (?slc (nat i)) = logs f1 (?slc (nat i)) @ routed (nat n) (nat i) reqs" "length (pst_counts st) = nat n"
    "pst_counts st ! nat i = foldl (\<lambda>c _. i64 (c + 1)) 0 (routed (nat n) (nat i) reqs)" "pst_total st = foldl (\<lambda>c _. i64 (c + 1)) 0 reqs"
    using n i by simp_all
  have "logs f1 (?slc (nat i)) = []" using create_writers_logs [OF law s(1)] n i by simp
  moreover have "logs f3 = logs f2" by (rule close_loop_logs [OF law s(3)])
  moreover have "logs f' = logs f3" using s(5) manifest_loop_logs [OF law] by blast
  moreover have "int (length (routed (nat n) (nat i) reqs)) < 2 ^ 63" using bounds(2) length_filter_le [of _ reqs] by (meson of_nat_le_iff order_le_less_trans)
  ultimately show ?thesis
    using r foldl_count [of "routed (nat n) (nat i) reqs" 0] foldl_count [of reqs 0] bounds(2) n i rt s(4) by (simp add: slice_of_def)
qed

definition ex_factory :: "(string, CapturedRequest list) gomap writer_factory" where
  "ex_factory = \<lparr>wf_NewWriter = (\<lambda>cid f. (gm_put cid [] f, None)),
    wf_Write = (\<lambda>cid r f. (gm_put cid ((case gm_get f cid of None \<Rightarrow> [] | Some rs \<Rightarrow> rs) @ [r]) f, None)),
    wf_Flush = (\<lambda>cid f. (f, None)), wf_Close = (\<lambda>cid f. (f, None)), wf_PutManifest = Some (\<lambda>cid m f. (f, None))\<rparr>"

definition ex_logs :: "(string, CapturedRequest list) gomap \<Rightarrow> string \<Rightarrow> CapturedRequest list" where
  "ex_logs f cid = (case gm_get f cid of None \<Rightarrow> [] | Some rs \<Rightarrow> rs)"

definition id_request :: "string \<Rightarrow> CapturedRequest" where
  "id_request rid = \<lparr>cr_ID = rid, cr_Timestamp = 0, cr_Method = ''GET'', cr_Path = ''/'', cr_Headers = [], cr_Body = [],
    cr_ContentLength = 0, cr_Protocol = ''HTTP'', cr_Metadata = []\<rparr>"

definition ex_preshard :: "(string, CapturedRequest list) gomap \<times> (preshard_error + PreshardResult)" where
  "ex_preshard = Preshard (\<lambda>r. Some (cr_ID r)) (\<lambda>s. s) 0 None (map Inr [id_request ''a'', id_request ''b'', id_request ''c'']) ex_factory ''ns/web'' 2 []"

theorem preshard_slices_witness:
  "\<exists>f' res. ex_preshard = (f', Inr res) \<and> ps_Total res = 3 \<and> ps_ShardCounts res = [2, 1] \<and>
    ex_logs f' ''ns/web/shards/1-of-2'' = filter (\<lambda>r. ShardOwns (cr_ID r) 1 2) [id_request ''a'', id_request ''b'', id_request ''c'']"
proof -
  have law: "factory_law ex_factory ex_logs"
    by (auto simp: factory_law_def ex_factory_def ex_logs_def gm.get_put fun_eq_iff)
  have "snd ex_preshard = Inr \<lparr>ps_Total = 3, ps_ShardCounts = [2, 1]\<rparr>" by code_simp
  then obtain f' where run: "ex_preshard = (f', Inr \<lparr>ps_Total = 3, ps_ShardCounts = [2, 1]\<rparr>)" by (metis prod.collapse)
  have "ShardSliceCaptureID ''ns/web'' 1 2 = ''ns/web/shards/1-of-2''" by code_simp
  then have "ex_logs f' ''ns/web/shards/1-of-2'' = filter (\<lambda>r. ShardOwns (cr_ID r) 1 2) [id_request ''a'', id_request ''b'', id_request ''c'']"
    using conjunct1 [OF preshard_slices [OF law run [unfolded ex_preshard_def], of 1]] by (simp only:) simp
  then show ?thesis using run by (intro exI conjI) (assumption | simp)+
qed

section \<open>Slices under the prefix of their source\<close>

lemma join_split: "join_with c (split_on c s) = s"
proof (induction s)
  case (Cons x s)
  obtain seg segs where seg: "split_on c s = seg # segs" by (metis list.exhaust split_on_nonempty)
  then show ?case using Cons by (cases segs) auto
qed simp

lemma path_clean_id:
  assumes "p \<noteq> []" and "\<forall>seg\<in>set (split_on slash p). seg \<notin> {[], ''.'', ''..''}"
  shows "path_clean p = p"
proof -
  have fold: "\<forall>seg\<in>set segs. seg \<notin> {[], ''.'', ''..''} \<Longrightarrow> foldl (clean_step r) out segs = out @ segs" for r out segs
    by (induction segs arbitrary: out) (auto simp: clean_step_def)
  have "hd p \<noteq> slash"
  proof
    assume "hd p = slash"
    then have "split_on slash p = [] # split_on slash (tl p)" using assms(1) by (cases p) auto
    then show False using assms(2) by simp
  qed
  then show ?thesis using assms fold [OF assms(2), of False "[]"] join_split [of slash p] by (simp add: path_clean_def Let_def)
qed

text \<open>
  C40. Presharding adds to the capture it reads: the objects of every slice have names under the
  prefix that a reader of the source capture lists, and pass its selection. After presharding, a
  replay of the source replays its requests twice, and a second presharding doubles every slice.
\<close>

theorem preshard_pollutes_source:
  assumes clean: "\<forall>seg\<in>set (split_on slash captureID). seg \<notin> {[], ''.'', ''..''}"
      "trim_slashes pfx \<noteq> [] \<longrightarrow> (\<forall>seg\<in>set (split_on slash (trim_slashes pfx)). seg \<notin> {[], ''.'', ''..''})"
    and name: "slash \<notin> set agentPod" "0 \<le> seq" "0 \<le> ts" "ts div day_ns < year_start 10000" "0 \<le> i" "0 \<le> n"
    and opts: "ro_StartTime opts = 0" "ro_EndTime opts = 0"
  shows "prefix (buildObjectPrefix pfx captureID) (newCloudObjectName pfx (ShardSliceCaptureID captureID i n) agentPod ts seq) \<and>
    keep_key opts (newCloudObjectName pfx (ShardSliceCaptureID captureID i n) agentPod ts seq)"
proof -
  let ?d = "format_date ts" and ?f = "objectFileName agentPod seq" 
  define s where "s = itoa i @ ''-of-'' @ itoa n"
  define base where "base = (if trim_slashes pfx = [] then captureID else trim_slashes pfx @ slash # captureID)"
  define p where "p = base @ slash # ''shards'' @ slash # s @ slash # ?d @ slash # ?f"
  have cid: "captureID \<noteq> []" using clean(1) by (cases captureID) auto
  have d: "slash \<notin> set ?d" "?d \<notin> {[], ''.'', ''..''}" using parse_format_date [OF name(3,4)] pad_date_nontrivial by auto
  have trim: "set (trim_space agentPod) \<subseteq> set agentPod"
    unfolding trim_space_def trim_left_def by (metis set_dropWhileD set_rev subsetI)
  have f: "slash \<notin> set ?f" "?f \<notin> {[], ''.'', ''..''}"
    using name(1,2) trim pad0_no_slash [of seq 6] by (auto simp: objectFileName_def Let_def slash_def)
  have "slash \<notin> set (itoa k)" if "0 \<le> k" for k using that digits10_chars [of slash] by (auto simp: itoa_def slash_def)
  then have s: "slash \<notin> set s" "s \<notin> {[], ''.'', ''..''}" using name(5,6) by (auto simp: s_def slash_def itoa_def)
  have sh: "slash \<notin> set ''shards''" by (simp add: slash_def)
  have segs: "split_on slash p = split_on slash base @ [''shards'', s, ?d, ?f]"
    unfolding p_def split_on_append split_on_no [OF sh] split_on_no [OF s(1)] split_on_no [OF d(1)] split_on_no [OF f(1)] by simp
  have "\<forall>seg\<in>set (split_on slash base). seg \<notin> {[], ''.'', ''..''}" using clean by (auto simp: base_def split_on_append)
  then have "path_clean p = p" using segs d f s by (intro path_clean_id) (auto simp: p_def)
  moreover have "newCloudObjectName pfx (ShardSliceCaptureID captureID i n) agentPod ts seq = path_clean p"
    using cid d f by (simp add: newCloudObjectName_def path_join_def p_def base_def s_def ShardSliceCaptureID_def slash_def Let_def)
  ultimately have key: "newCloudObjectName pfx (ShardSliceCaptureID captureID i n) agentPod ts seq = p" by simp
  have "buildObjectPrefix pfx captureID = base @ [slash]" using cid by (simp add: buildObjectPrefix_def base_def Let_def)
  then have "prefix (buildObjectPrefix pfx captureID) p" by (simp add: p_def prefix_def)
  moreover have "suffix ''.jsonl.gz'' ?f" by (simp add: objectFileName_def Let_def suffix_def)
  then have "suffix ''.jsonl.gz'' ((base @ slash # ''shards'' @ slash # s @ slash # ?d @ [slash]) @ ?f)" by (rule suffix_appendI)
  then have "suffix ''.jsonl.gz'' p" by (simp add: p_def)
  ultimately show ?thesis unfolding key using opts by (simp add: keep_key_def filterObjectByTime_def)
qed

theorem preshard_pollutes_source_witness:
  "prefix (buildObjectPrefix ''captures'' ''ns/web'') (newCloudObjectName ''captures'' (ShardSliceCaptureID ''ns/web'' 1 4) ''kapture-preshard'' second 1) \<and>
    keep_key (rd_opts new_reader) (newCloudObjectName ''captures'' (ShardSliceCaptureID ''ns/web'' 1 4) ''kapture-preshard'' second 1)"
proof (rule preshard_pollutes_source)
  show "\<forall>seg\<in>set (split_on slash ''ns/web''). seg \<notin> {[], ''.'', ''..''}"
    "trim_slashes ''captures'' \<noteq> [] \<longrightarrow> (\<forall>seg\<in>set (split_on slash (trim_slashes ''captures'')). seg \<notin> {[], ''.'', ''..''})"
    "slash \<notin> set ''kapture-preshard''" "second div day_ns < year_start 10000"
    by code_simp+
qed (simp_all add: new_reader_def)

end
