(* ===== verification/Storage_Backends.thy ===== *)
theory Storage_Backends
  imports Storage_Reading
begin

text \<open>
  The storage backends around the shared object writer and reader: the S3, GCS, EFS and EBS writer
  factories with their upload functions (\<^verbatim>\<open>internal/storage/s3.go\<close>, \<^verbatim>\<open>gcs.go\<close>, \<^verbatim>\<open>efs.go\<close>, \<^verbatim>\<open>ebs.go\<close>,
  \<^verbatim>\<open>factory.go\<close>), and the parts in which the GCS and filesystem readers differ from the S3 reader
  (\<^verbatim>\<open>internal/plugin/replay/reader_gcs.go\<close>, \<^verbatim>\<open>reader_fs.go\<close>). The SDK clients, the operating system, the
  artifact recorder and SHA-256 are parameters.
\<close>

section \<open>S3\<close>

record S3Config =
  s3_Bucket :: string
  s3_Region :: string
  s3_Prefix :: string
  s3_AgentPod :: string
  s3_CaptureNamespace :: string
  s3_CaptureName :: string
  s3_FlushInterval :: duration
  s3_MaxBufferBytes :: int

record ArtifactRecord =
  ar_CaptureID :: string
  ar_CaptureNamespace :: string
  ar_CaptureName :: string
  ar_StorageBackend :: string
  ar_Bucket :: string
  ar_Key :: string
  ar_Region :: string
  ar_ContentType :: string
  ar_ContentEncoding :: string
  ar_SizeBytes :: int
  ar_SHA256 :: string
  ar_CreatedAt :: time

record 's s3_client =
  sc_PutObject :: "string \<Rightarrow> string \<Rightarrow> string \<Rightarrow> 's \<Rightarrow> 's \<times> go_error option"
  sc_RecordArtifact :: "(ArtifactRecord \<Rightarrow> 's \<Rightarrow> 's \<times> go_error option) option"

datatype factory_error = BucketRequired | MountPathRequired | CaptureIDMissing | UnsupportedStorageType string | InvalidConfigType | PutFailed go_error

definition NewS3WriterFactory :: "S3Config \<Rightarrow> factory_error + S3Config" where
  "NewS3WriterFactory cfg = (if s3_Bucket cfg = [] then Inl BucketRequired else Inr cfg)"

definition S3_PutManifest :: "'s s3_client \<Rightarrow> S3Config \<Rightarrow> string \<Rightarrow> string \<Rightarrow> 's \<Rightarrow> 's \<times> factory_error option" where
  "S3_PutManifest cl cfg captureID data s =
    (if captureID = [] then (s, Some CaptureIDMissing)
     else case sc_PutObject cl (s3_Bucket cfg) (cloud_manifest_key (s3_Prefix cfg) captureID) data s of
       (s', err) \<Rightarrow> (s', map_option PutFailed err))"

definition s3_artifact :: "(string \<Rightarrow> string) \<Rightarrow> time \<Rightarrow> S3Config \<Rightarrow> string \<Rightarrow> string \<Rightarrow> string \<Rightarrow> ArtifactRecord" where
  "s3_artifact sha256 now cfg captureID objectName payload =
    \<lparr>ar_CaptureID = captureID, ar_CaptureNamespace = s3_CaptureNamespace cfg, ar_CaptureName = s3_CaptureName cfg, ar_StorageBackend = ''s3'',
     ar_Bucket = s3_Bucket cfg, ar_Key = objectName, ar_Region = s3_Region cfg, ar_ContentType = ''application/x-ndjson'',
     ar_ContentEncoding = ''gzip'', ar_SizeBytes = int (length payload), ar_SHA256 = sha256 payload, ar_CreatedAt = now\<rparr>"

definition s3_upload ::
  "(string \<Rightarrow> string) \<Rightarrow> time \<Rightarrow> 's s3_client \<Rightarrow> S3Config \<Rightarrow> string \<Rightarrow> 's \<Rightarrow> string \<Rightarrow> string \<Rightarrow> 's \<times> go_error option" where
  "s3_upload sha256 now cl cfg captureID s objectName payload =
    (case sc_PutObject cl (s3_Bucket cfg) objectName payload s of
       (s1, Some err) \<Rightarrow> (s1, Some err)
     | (s1, None) \<Rightarrow>
         (case sc_RecordArtifact cl of
            None \<Rightarrow> (s1, None)
          | Some record_artifact \<Rightarrow> record_artifact (s3_artifact sha256 now cfg captureID objectName payload) s1))"

text \<open>The environment of the object writer that \<^verbatim>\<open>NewWriter\<close> sets up, and the writer itself.\<close>

definition S3_NewWriter ::
  "(CapturedRequest \<Rightarrow> string option) \<Rightarrow> (string \<Rightarrow> string) \<Rightarrow> (string \<Rightarrow> string) \<Rightarrow> time \<Rightarrow> 's s3_client \<Rightarrow> S3Config \<Rightarrow> string \<Rightarrow>
    factory_error + 's object_env \<times> bufferedObjectWriter" where
  "S3_NewWriter marshal gzip sha256 now cl cfg captureID =
    (if captureID = [] then Inl CaptureIDMissing
     else Inr (\<lparr>oe_marshal = marshal, oe_gzip = gzip, oe_objectName = newCloudObjectName (s3_Prefix cfg) captureID (s3_AgentPod cfg),
                oe_upload = s3_upload sha256 now cl cfg captureID\<rparr>,
               newBufferedObjectWriter (s3_FlushInterval cfg) (s3_MaxBufferBytes cfg) now))"

section \<open>GCS\<close>

record GCSConfig =
  gc_Bucket :: string
  gc_Prefix :: string
  gc_AgentPod :: string
  gc_FlushInterval :: duration
  gc_MaxBufferBytes :: int

text \<open>An object writer of the SDK is opened, written to and closed; the object exists once Close succeeds.\<close>

record 'g gcs_client =
  gcl_Open :: "string \<Rightarrow> string \<Rightarrow> 'g \<Rightarrow> 'g \<times> go_error option"
  gcl_Write :: "string \<Rightarrow> string \<Rightarrow> string \<Rightarrow> 'g \<Rightarrow> 'g \<times> go_error option"
  gcl_Close :: "string \<Rightarrow> string \<Rightarrow> 'g \<Rightarrow> 'g \<times> go_error option"

definition NewGCSWriterFactory :: "GCSConfig \<Rightarrow> factory_error + GCSConfig" where
  "NewGCSWriterFactory cfg = (if gc_Bucket cfg = [] then Inl BucketRequired else Inr cfg)"

definition gcs_upload :: "'g gcs_client \<Rightarrow> GCSConfig \<Rightarrow> 'g \<Rightarrow> string \<Rightarrow> string \<Rightarrow> 'g \<times> go_error option" where
  "gcs_upload cl cfg g objectName payload =
    (case gcl_Open cl (gc_Bucket cfg) objectName g of
       (g1, Some err) \<Rightarrow> (g1, Some err)
     | (g1, None) \<Rightarrow>
         (case gcl_Write cl (gc_Bucket cfg) objectName payload g1 of
            (g2, Some err) \<Rightarrow> (fst (gcl_Close cl (gc_Bucket cfg) objectName g2), Some err)
          | (g2, None) \<Rightarrow> gcl_Close cl (gc_Bucket cfg) objectName g2))"

definition GCS_PutManifest :: "'g gcs_client \<Rightarrow> GCSConfig \<Rightarrow> string \<Rightarrow> string \<Rightarrow> 'g \<Rightarrow> 'g \<times> factory_error option" where
  "GCS_PutManifest cl cfg captureID data g =
    (if captureID = [] then (g, Some CaptureIDMissing)
     else case gcs_upload cl cfg g (cloud_manifest_key (gc_Prefix cfg) captureID) data of (g', err) \<Rightarrow> (g', map_option PutFailed err))"

definition GCS_NewWriter ::
  "(CapturedRequest \<Rightarrow> string option) \<Rightarrow> (string \<Rightarrow> string) \<Rightarrow> time \<Rightarrow> 'g gcs_client \<Rightarrow> GCSConfig \<Rightarrow> string \<Rightarrow>
    factory_error + 'g object_env \<times> bufferedObjectWriter" where
  "GCS_NewWriter marshal gzip now cl cfg captureID =
    (if captureID = [] then Inl CaptureIDMissing
     else Inr (\<lparr>oe_marshal = marshal, oe_gzip = gzip, oe_objectName = newCloudObjectName (gc_Prefix cfg) captureID (gc_AgentPod cfg),
                oe_upload = gcs_upload cl cfg\<rparr>,
               newBufferedObjectWriter (gc_FlushInterval cfg) (gc_MaxBufferBytes cfg) now))"

section \<open>Mounted file systems\<close>

record filesystemWriterFactory =
  fw_mountPath :: string
  fw_agentPod :: string
  fw_flushInterval :: duration
  fw_maxBufferBytes :: int

record 'd os_files =
  os_MkdirAll :: "string \<Rightarrow> 'd \<Rightarrow> 'd \<times> go_error option"
  os_WriteFile :: "string \<Rightarrow> string \<Rightarrow> 'd \<Rightarrow> 'd \<times> go_error option"
  os_ReadFile :: "string \<Rightarrow> 'd \<Rightarrow> go_error + string option"

definition newFilesystemWriterFactory :: "string \<Rightarrow> string \<Rightarrow> duration \<Rightarrow> int \<Rightarrow> factory_error + filesystemWriterFactory" where
  "newFilesystemWriterFactory mountPath agentPod flushInterval maxBufferBytes =
    (if mountPath = [] then Inl MountPathRequired
     else Inr \<lparr>fw_mountPath = mountPath, fw_agentPod = agentPod, fw_flushInterval = flushInterval, fw_maxBufferBytes = maxBufferBytes\<rparr>)"

text \<open>\<^verbatim>\<open>filepath.Dir\<close> of a clean path: everything before the last slash, cleaned.\<close>

definition path_dir :: "string \<Rightarrow> string" where
  "path_dir p = path_clean (rev (dropWhile (\<lambda>c. c \<noteq> slash) (rev p)))"

definition fs_upload :: "'d os_files \<Rightarrow> 'd \<Rightarrow> string \<Rightarrow> string \<Rightarrow> 'd \<times> go_error option" where
  "fs_upload os d objectName payload =
    (case os_MkdirAll os (path_dir objectName) d of
       (d1, Some err) \<Rightarrow> (d1, Some err)
     | (d1, None) \<Rightarrow> os_WriteFile os objectName payload d1)"

definition fs_putManifest :: "'d os_files \<Rightarrow> filesystemWriterFactory \<Rightarrow> string \<Rightarrow> string \<Rightarrow> 'd \<Rightarrow> 'd \<times> factory_error option" where
  "fs_putManifest os fw captureID data d =
    (if captureID = [] then (d, Some CaptureIDMissing)
     else case fs_upload os d (path_join [fw_mountPath fw, captureID, ManifestObjectName]) data of (d', err) \<Rightarrow> (d', map_option PutFailed err))"

definition fs_newWriter ::
  "(CapturedRequest \<Rightarrow> string option) \<Rightarrow> (string \<Rightarrow> string) \<Rightarrow> time \<Rightarrow> 'd os_files \<Rightarrow> filesystemWriterFactory \<Rightarrow> string \<Rightarrow>
    factory_error + 'd object_env \<times> bufferedObjectWriter" where
  "fs_newWriter marshal gzip now os fw captureID =
    (if captureID = [] then Inl CaptureIDMissing
     else Inr (\<lparr>oe_marshal = marshal, oe_gzip = gzip, oe_objectName = newFilesystemObjectName (fw_mountPath fw) captureID (fw_agentPod fw),
                oe_upload = fs_upload os\<rparr>,
               newBufferedObjectWriter (fw_flushInterval fw) (fw_maxBufferBytes fw) now))"

section \<open>Choosing a backend\<close>

text \<open>A configuration passed as \<^verbatim>\<open>any\<close>: a struct, a pointer to one, or a nil pointer, of each type.\<close>

record EFSConfig =
  ef_MountPath :: string
  ef_AgentPod :: string
  ef_FlushInterval :: duration
  ef_MaxBufferBytes :: int

datatype any_config = AnyS3 "S3Config option" | AnyGCS "GCSConfig option" | AnyEFS "EFSConfig option" | AnyEBS "EFSConfig option" | AnyOther

datatype any_factory = S3Factory S3Config | GCSFactory GCSConfig | EFSFactory filesystemWriterFactory | EBSFactory filesystemWriterFactory

definition asS3Config :: "any_config \<Rightarrow> factory_error + S3Config" where
  "asS3Config config = (case config of AnyS3 (Some cfg) \<Rightarrow> Inr cfg | _ \<Rightarrow> Inl InvalidConfigType)"

definition asGCSConfig :: "any_config \<Rightarrow> factory_error + GCSConfig" where
  "asGCSConfig config = (case config of AnyGCS (Some cfg) \<Rightarrow> Inr cfg | _ \<Rightarrow> Inl InvalidConfigType)"

definition asEFSConfig :: "any_config \<Rightarrow> factory_error + EFSConfig" where
  "asEFSConfig config = (case config of AnyEFS (Some cfg) \<Rightarrow> Inr cfg | _ \<Rightarrow> Inl InvalidConfigType)"

definition asEBSConfig :: "any_config \<Rightarrow> factory_error + EFSConfig" where
  "asEBSConfig config = (case config of AnyEBS (Some cfg) \<Rightarrow> Inr cfg | _ \<Rightarrow> Inl InvalidConfigType)"

definition NewEFSWriterFactory :: "EFSConfig \<Rightarrow> factory_error + filesystemWriterFactory" where
  "NewEFSWriterFactory cfg = newFilesystemWriterFactory (ef_MountPath cfg) (ef_AgentPod cfg) (ef_FlushInterval cfg) (ef_MaxBufferBytes cfg)"

definition NewEBSWriterFactory :: "EFSConfig \<Rightarrow> factory_error + filesystemWriterFactory" where
  "NewEBSWriterFactory cfg = newFilesystemWriterFactory (ef_MountPath cfg) (ef_AgentPod cfg) (ef_FlushInterval cfg) (ef_MaxBufferBytes cfg)"

text \<open>The branch for Go plugins loads code at run time and is a parameter.\<close>

definition NewWriterFactory :: "(any_config \<Rightarrow> factory_error + any_factory) \<Rightarrow> string \<Rightarrow> any_config \<Rightarrow> factory_error + any_factory" where
  "NewWriterFactory plugin storageType config =
    (let t = to_lower (trim_space storageType)
     in if t = ''s3'' then (case asS3Config config of Inl err \<Rightarrow> Inl err | Inr cfg \<Rightarrow> map_sum id S3Factory (NewS3WriterFactory cfg))
        else if t = ''gcs'' then (case asGCSConfig config of Inl err \<Rightarrow> Inl err | Inr cfg \<Rightarrow> map_sum id GCSFactory (NewGCSWriterFactory cfg))
        else if t = ''efs'' then (case asEFSConfig config of Inl err \<Rightarrow> Inl err | Inr cfg \<Rightarrow> map_sum id EFSFactory (NewEFSWriterFactory cfg))
        else if t = ''ebs'' then (case asEBSConfig config of Inl err \<Rightarrow> Inl err | Inr cfg \<Rightarrow> map_sum id EBSFactory (NewEBSWriterFactory cfg))
        else if t = ''plugin'' then plugin config
        else Inl (UnsupportedStorageType storageType))"

section \<open>Readers\<close>

text \<open>The GCS iterator yields one name at a time until it is done; a walk yields files and directories.\<close>

fun gcs_iterate :: "(go_error + string) list \<Rightarrow> ReadOptions \<Rightarrow> string list \<Rightarrow> go_error + string list" where
  "gcs_iterate [] opts objects = Inr objects"
| "gcs_iterate (Inl err # rest) opts objects = Inl err"
| "gcs_iterate (Inr name # rest) opts objects =
    gcs_iterate rest opts
      (if \<not> suffix ''.jsonl.gz'' name then objects
       else if filterObjectByTime name (ro_StartTime opts) (ro_EndTime opts) then objects @ [name] else objects)"

definition GCS_listObjects :: "(go_error + string) list \<Rightarrow> ReadOptions \<Rightarrow> go_error + string list" where
  "GCS_listObjects it opts = (case gcs_iterate it opts [] of Inl err \<Rightarrow> Inl err | Inr objects \<Rightarrow> Inr (sort objects))"

fun walk_files :: "(go_error + string \<times> bool) list \<Rightarrow> ReadOptions \<Rightarrow> string list \<Rightarrow> go_error + string list" where
  "walk_files [] opts files = Inr files"
| "walk_files (Inl err # rest) opts files = Inl err"
| "walk_files (Inr (path, isDir) # rest) opts files =
    (if isDir then walk_files rest opts files
     else if \<not> suffix ''.jsonl.gz'' path then walk_files rest opts files
     else if filterObjectByTime path (ro_StartTime opts) (ro_EndTime opts) then walk_files rest opts (files @ [path])
     else walk_files rest opts files)"

definition listFiles :: "(string \<Rightarrow> (go_error + string \<times> bool) list) \<Rightarrow> string \<Rightarrow> ReadOptions \<Rightarrow> go_error + string list" where
  "listFiles walkDir basePath opts = (case walk_files (walkDir basePath) opts [] of Inl err \<Rightarrow> Inl err | Inr files \<Rightarrow> Inr (sort files))"

definition GCSReader_Open :: "(string \<Rightarrow> (go_error + string) list) \<Rightarrow> string \<Rightarrow> ReadOptions \<Rightarrow> capture_reader \<Rightarrow> capture_reader \<times> read_result option" where
  "GCSReader_Open objects pfx opts r =
    (if rd_opened r then (r, Some AlreadyOpened)
     else let r1 = r\<lparr>rd_opts := opts, rd_opened := True\<rparr>
       in case GCS_listObjects (objects (buildObjectPrefix pfx (ro_CaptureID opts))) opts of
         Inl err \<Rightarrow> (r1, Some (ListFailed err))
       | Inr keys \<Rightarrow> (r1\<lparr>rd_objects := keys\<rparr>, None))"

definition FilesystemReader_Open ::
  "(string \<Rightarrow> (go_error + string \<times> bool) list) \<Rightarrow> string \<Rightarrow> ReadOptions \<Rightarrow> capture_reader \<Rightarrow> capture_reader \<times> read_result option" where
  "FilesystemReader_Open walkDir mountPath opts r =
    (if rd_opened r then (r, Some AlreadyOpened)
     else let r1 = r\<lparr>rd_opts := opts, rd_opened := True\<rparr>;
              basePath = (if ro_CaptureID opts \<noteq> [] then path_join [mountPath, ro_CaptureID opts] else mountPath)
       in case listFiles walkDir basePath opts of
         Inl err \<Rightarrow> (r1, Some (ListFailed err))
       | Inr files \<Rightarrow> (r1\<lparr>rd_objects := files\<rparr>, None))"

text \<open>Their loops over lines and objects are the one of the S3 reader.\<close>

definition GCSReader_Next :: "reader_env \<Rightarrow> capture_reader \<Rightarrow> capture_reader \<times> read_result" where
  "GCSReader_Next env r =
    (if \<not> rd_opened r then (r, NotOpened) else if rd_closed r then (r, ErrReaderDone) else next_loop env r)"

definition FilesystemReader_Next :: "reader_env \<Rightarrow> capture_reader \<Rightarrow> capture_reader \<times> read_result" where
  "FilesystemReader_Next env r =
    (if \<not> rd_opened r then (r, NotOpened) else if rd_closed r then (r, ErrReaderDone) else next_loop env r)"

definition FilesystemReader_Close :: "capture_reader \<Rightarrow> capture_reader" where
  "FilesystemReader_Close r = (if rd_closed r then r else r\<lparr>rd_closed := True, rd_scanner := None\<rparr>)"

definition GCSReader_Close :: "capture_reader \<Rightarrow> capture_reader" where
  "GCSReader_Close r = (if rd_closed r then r else r\<lparr>rd_closed := True, rd_scanner := None\<rparr>)"

text \<open>Manifests: a missing object is no error; the stores answer a key with the bytes, nothing or an error.\<close>

definition S3Reader_LoadManifest :: "(string \<Rightarrow> go_error + string option) \<Rightarrow> string \<Rightarrow> string \<Rightarrow> go_error + string option" where
  "S3Reader_LoadManifest getObject pfx captureID = getObject (LoadManifest_key pfx captureID)"

definition GCSReader_LoadManifest :: "(string \<Rightarrow> go_error + string option) \<Rightarrow> string \<Rightarrow> string \<Rightarrow> go_error + string option" where
  "GCSReader_LoadManifest getObject pfx captureID = getObject (LoadManifest_key pfx captureID)"

definition FilesystemReader_LoadManifest :: "'d os_files \<Rightarrow> string \<Rightarrow> string \<Rightarrow> 'd \<Rightarrow> go_error + string option" where
  "FilesystemReader_LoadManifest os mountPath captureID d = os_ReadFile os (path_join [mountPath, captureID, ManifestObjectName]) d"

datatype reader_config_error = S3BucketRequired | GCSBucketRequired | ReaderMountPathRequired | UnsupportedReaderType string

datatype any_reader = S3Reader string string string | GCSReader string string | FilesystemReader string

definition config_string :: "(string, string) gomap \<Rightarrow> string \<Rightarrow> string" where
  "config_string config key = (case gm_get config key of None \<Rightarrow> [] | Some v \<Rightarrow> v)"

definition newS3ReaderFromConfig :: "(string, string) gomap \<Rightarrow> reader_config_error + any_reader" where
  "newS3ReaderFromConfig config =
    (let bucket = config_string config ''bucket''
     in if bucket = [] then Inl S3BucketRequired
        else Inr (S3Reader bucket (config_string config ''region'') (config_string config ''prefix'')))"

definition newGCSReaderFromConfig :: "(string, string) gomap \<Rightarrow> reader_config_error + any_reader" where
  "newGCSReaderFromConfig config =
    (let bucket = config_string config ''bucket''
     in if bucket = [] then Inl GCSBucketRequired else Inr (GCSReader bucket (config_string config ''prefix'')))"

definition newFSReaderFromConfig :: "(string, string) gomap \<Rightarrow> reader_config_error + any_reader" where
  "newFSReaderFromConfig config =
    (let mountPath = config_string config ''mountPath''
     in if mountPath = [] then Inl ReaderMountPathRequired else Inr (FilesystemReader mountPath))"

definition NewReaderFromConfig :: "string \<Rightarrow> (string, string) gomap \<Rightarrow> reader_config_error + any_reader" where
  "NewReaderFromConfig storageType config =
    (let t = to_lower (trim_space storageType)
     in if t = ''s3'' then newS3ReaderFromConfig config
        else if t = ''gcs'' then newGCSReaderFromConfig config
        else if t = ''efs'' \<or> t = ''ebs'' then newFSReaderFromConfig config
        else Inl (UnsupportedReaderType storageType))"

section \<open>The backends keep the laws of the object writer\<close>

definition put_law :: "'s s3_client \<Rightarrow> string \<Rightarrow> ('s \<Rightarrow> string \<Rightarrow> string option) \<Rightarrow> bool" where
  "put_law cl bucket objs \<longleftrightarrow>
    (\<forall>k p s s' r. sc_PutObject cl bucket k p s = (s', r) \<longrightarrow> (\<forall>k'. k' \<noteq> k \<longrightarrow> objs s' k' = objs s k') \<and> (r = None \<longrightarrow> objs s' k = Some p)) \<and>
    (\<forall>rec a s. sc_RecordArtifact cl = Some rec \<longrightarrow> objs (fst (rec a s)) = objs s)"

lemma s3_upload_law:
  assumes "put_law cl (s3_Bucket cfg) objs" and "S3_NewWriter marshal gzip sha256 now cl cfg captureID = Inr (env, w)"
  shows "upload_law env objs"
proof -
  have env: "oe_upload env = s3_upload sha256 now cl cfg captureID" using assms(2) by (auto simp: S3_NewWriter_def split: if_splits)
  show ?thesis unfolding upload_law_def env
  proof (intro allI impI)
    fix s n p s' r
    assume up: "s3_upload sha256 now cl cfg captureID s n p = (s', r)"
    obtain s1 r1 where put: "sc_PutObject cl (s3_Bucket cfg) n p s = (s1, r1)" by force
    have law: "\<forall>k'. k' \<noteq> n \<longrightarrow> objs s1 k' = objs s k'" "r1 = None \<longrightarrow> objs s1 n = Some p" using assms(1) put unfolding put_law_def by blast+
    have "objs s' = objs s1 \<and> (r = None \<longrightarrow> r1 = None)"
    proof (cases r1)
      case None
      have "objs (fst (rec a s1)) = objs s1" if "sc_RecordArtifact cl = Some rec" for rec a using assms(1) that unfolding put_law_def by blast
      then show ?thesis using up put None by (cases "sc_RecordArtifact cl") (auto simp: s3_upload_def, (metis fst_conv)+)
    qed (use up put in \<open>simp add: s3_upload_def\<close>)
    then show "(\<forall>k. k \<noteq> n \<longrightarrow> objs s' k = objs s k) \<and> (r = None \<longrightarrow> objs s' n = Some p)" using law by auto
  qed
qed

text \<open>
  With an artifact recorder an upload is not atomic: when recording fails the object is stored and
  the upload fails, so the lines are uploaded again, under another name if midnight has passed.
\<close>

lemma s3_record_failure_not_atomic:
  assumes "put_law cl (s3_Bucket cfg) objs" and "sc_PutObject cl (s3_Bucket cfg) n p s = (s1, None)"
    and "sc_RecordArtifact cl = Some rec" and "snd (rec (s3_artifact sha256 now cfg captureID n p) s1) = Some err"
  shows "snd (s3_upload sha256 now cl cfg captureID s n p) = Some err \<and> objs (fst (s3_upload sha256 now cl cfg captureID s n p)) n = Some p"
proof -
  have "objs s1 n = Some p" "objs (fst (rec (s3_artifact sha256 now cfg captureID n p) s1)) = objs s1"
    using assms(1-3) unfolding put_law_def by blast+
  then show ?thesis using assms(2-4) by (simp add: s3_upload_def)
qed

text \<open>On a mounted file system a manifest is found where it was put.\<close>

lemma fs_manifest_found:
  assumes "\<forall>k p d d'. os_WriteFile os k p d = (d', None) \<longrightarrow> os_ReadFile os k d' = Inr (Some p)"
    and "fs_putManifest os fw captureID data d = (d', None)"
  shows "FilesystemReader_LoadManifest os (fw_mountPath fw) captureID d' = Inr (Some data)"
  using assms by (auto simp: fs_putManifest_def fs_upload_def FilesystemReader_LoadManifest_def split: if_splits prod.splits option.splits)

text \<open>The three listings select the same objects from the same names.\<close>

lemma listings_agree:
  "gcs_iterate (map Inr keys) opts acc = Inr (acc @ filter (keep_key opts) keys)"
  "walk_files (map (\<lambda>k. Inr (k, False)) keys) opts acc = Inr (acc @ filter (keep_key opts) keys)"
  by (induction keys arbitrary: acc) (auto simp: keep_key_def)

end
