(* ===== verification/Spec2Isabelle.thy ===== *)
theory Spec2Isabelle
  imports Sharding Loadtest_Witnesses Spoke_Directives Replay_Engine_Witnesses Storage_Witnesses Agent_Witnesses
    Plugin_Validation Checkpoints Dataset_Props Storage_Backends
begin

text \<open>
  \<^bold>\<open>Kapture\<close> captures HTTP traffic on Kubernetes clusters and replays it as a distributed load test.

  \<^bold>\<open>The program.\<close> A capture agent receives mirrored requests, filters and redacts them and writes them
  through a bounded queue and a batching writer into an object store, as compressed JSON lines. A
  replay engine reads such a capture back and sends its requests, paced as recorded or at a rate; of
  a sharded replay each engine sends the requests whose ID hashes to its shard. A hub runs load
  tests: it plans shards over the spokes, the clusters that registered with it, queues START and STOP
  directives for them, collects what the shards report and decides when a run is complete or has to
  be aborted. A spoke turns directives into TrafficReplay objects and removes those whose load test
  is gone. A capture can be split into slices ahead of time, one per shard.

  \<^bold>\<open>Vocabulary.\<close>
  \<^item> \<^verbatim>\<open>Kapture_Prelude\<close>: machine integers with explicit wrap-around, Go maps as association lists with
    distinct keys (locale \<open>map_laws\<close>), strings, decimal numbers, instants and durations.
  \<^item> \<^verbatim>\<open>Float64\<close>: double precision as rounding of rationals; comparisons with thresholds are exact.
  \<^item> \<^verbatim>\<open>Transition_Systems\<close>: the locale \<open>terminating_system\<close>, from which every run of a concurrent
    component is finite and can be completed.
  \<^item> \<^verbatim>\<open>Messages\<close>: messages of \<^verbatim>\<open>src/proto/hub/v1/hub.proto\<close> and resources of \<^verbatim>\<open>src/api/v1alpha1\<close>.

  \<^bold>\<open>Control plane.\<close>
  \<^item> \<^verbatim>\<open>Safety\<close>: \<open>HostAllowed\<close> of \<^verbatim>\<open>src/internal/safety/hosts.go\<close> decides the documented matching;
    \<open>verifySpokeIdentity\<close> of \<^verbatim>\<open>src/internal/hub/identity.go\<close>.
  \<^item> \<^verbatim>\<open>Hub_Server\<close>, \<^verbatim>\<open>Hub_Queries\<close>, \<^verbatim>\<open>Hub_Invariants\<close>: \<^verbatim>\<open>src/internal/hub/grpc_server.go\<close>. The registry with
    its directive channels is the record \<open>Server\<close>, each RPC a function on it. Over every sequence of
    events the registry invariant holds, channels are first-in first-out, and a peer with a
    certificate changes only the entries it is named for. Queries do not depend on map order.
  \<^item> \<^verbatim>\<open>Loadtest_Plan\<close>, \<^verbatim>\<open>Loadtest_Controller\<close>, \<^verbatim>\<open>Loadtest_Lemmas\<close>, \<^verbatim>\<open>Loadtest_Props\<close>, \<^verbatim>\<open>Loadtest_Witnesses\<close>:
    \<^verbatim>\<open>src/internal/hub/loadtest_controller.go\<close>, the whole \<open>Reconcile\<close>. Plans number the shards densely;
    a run is called aborted and its finalizer released only when every STOP is queued; a run is
    completed only by the reports of all its shards; denied and finished runs cause no work. The
    coordinator sees the hub through the locale \<open>directive_sender\<close>, interpreted on \<open>SendReplayDirective\<close>.
  \<^item> \<^verbatim>\<open>Spoke_Directives\<close>: \<^verbatim>\<open>src/internal/spoke/replay_directives.go\<close> and \<^verbatim>\<open>orphan_gc.go\<close>. The shards that
    exist after a sequence of directives, idempotence of START, the round trip of a directive from
    the hub into a TrafficReplay, and the objects the garbage collection may not touch.

  \<^bold>\<open>Data plane.\<close>
  \<^item> \<^verbatim>\<open>Sharding\<close>: the hash of \<^verbatim>\<open>src/internal/plugin/replay/engine.go\<close>; every request has one owner (locale
    \<open>shard_function\<close>).
  \<^item> \<^verbatim>\<open>Captured_Requests\<close>, \<^verbatim>\<open>Replay_Summary\<close>: requests, selection, results and statistics
    (\<^verbatim>\<open>src/internal/plugin/replay/plugin.go\<close>, \<^verbatim>\<open>report.go\<close>).
  \<^item> \<^verbatim>\<open>Replay_Engine\<close>, \<^verbatim>\<open>Replay_Engine_Lemmas\<close>, \<^verbatim>\<open>Replay_Engine_Props\<close>, \<^verbatim>\<open>Replay_Engine_Witnesses\<close>:
    \<^verbatim>\<open>engine.go\<close>. Reader, channel and senders are a transition system; a schedule is a list of events.
    Every schedule ends, sends each request of the shard exactly once unless cancelled, and all
    shards together replay the capture once.
  \<^item> \<^verbatim>\<open>Object_Names\<close>, \<^verbatim>\<open>Object_Storage\<close>, \<^verbatim>\<open>Storage_Roundtrip\<close>, \<^verbatim>\<open>Storage_Reading\<close>, \<^verbatim>\<open>Storage_Witnesses\<close>,
    \<^verbatim>\<open>Storage_Backends\<close>: \<^verbatim>\<open>src/internal/storage\<close> and the readers of \<^verbatim>\<open>src/internal/plugin/replay\<close>. No accepted
    request is lost by a writer whatever uploads fail, and a reader returns what was written.
  \<^item> \<^verbatim>\<open>Capture_Agent\<close>, \<^verbatim>\<open>Capture_Agent_Props\<close>, \<^verbatim>\<open>Agent_Writers\<close>, \<^verbatim>\<open>Agent_Writers_Props\<close>, \<^verbatim>\<open>Agent_Witnesses\<close>:
    \<^verbatim>\<open>src/internal/agent\<close> and the pipeline of \<^verbatim>\<open>src/internal/plugin/payload/plugin.go\<close>. Credentials never reach
    storage with the default configuration; the queue accounts for every request; Close returns.
  \<^item> \<^verbatim>\<open>Plugin_Validation\<close>: \<^verbatim>\<open>src/internal/plugin/validation\<close>; validation accepts exactly the valid pipelines.
  \<^item> \<^verbatim>\<open>Checkpoints\<close>: \<^verbatim>\<open>src/internal/plugin/replay/checkpoint.go\<close>; a crash or failure at any point of a flush
    leaves a checkpoint that loads.
  \<^item> \<^verbatim>\<open>Dataset\<close>, \<^verbatim>\<open>Dataset_Props\<close>: \<^verbatim>\<open>src/internal/dataset\<close>; the slices hold exactly what their shards own.

  \<^bold>\<open>Outside code.\<close> The Kubernetes client, SDK clients, the operating system, gzip, JSON, SHA-256 and the
  network are arguments of the definitions. What a property assumes of them is a named predicate, such as
  \<open>lt_env_laws\<close>, \<open>tr_client_laws\<close>, \<open>upload_law\<close>, \<open>codec_law\<close> and \<open>factory_law\<close>, and a witness gives a
  concrete model of it.

  \<^bold>\<open>Bounds.\<close> Definitions are total; the only count of steps is that of \<open>read_all\<close>, which calls \<open>Next\<close> at
  most that often, and the round trip shows that one call more than there are requests reaches the end
  of the capture. A writer is followed for fewer than 2 to the power 64 operations, so that its sequence
  numbers do not repeat. Sums and counters wrap at their width where the code lets them.

  \<^bold>\<open>Not modelled.\<close> The controllers for TrafficCapture, CaptureStorage, TrafficReplay and CaptureHub and the
  hub client of the spoke: the development starts from the objects they read and the calls they make.
  Process handling and gRPC streams of external engines (\<^verbatim>\<open>src/internal/replayengine\<close>,
  \<^verbatim>\<open>src/internal/engines\<close>, \<^verbatim>\<open>src/pkg/replayengine\<close>), the feed server, the HTTP sender, SQL, TLS and metrics are
  input and output. Loading of Go plugins, generated code and the commands under \<^verbatim>\<open>src/cmd\<close> are left out.
  Log lines and condition messages are dropped throughout.
\<close>

end
